(* ===== verification/Stratum_Prelude.thy ===== *)
theory Stratum_Prelude
  imports Main "HOL-Library.Word" "HOL-Library.Monad_Syntax"
begin

unbundle bit_operations_syntax

text \<open>
  Shared vocabulary of the development: the machine integers of the code, buffers as
  lists written and read by offset (an access outside the buffer is \<open>None\<close>), loops
  that may abort, byte strings read as numbers, and the generic lemmas the component
  theories use through the collections declared here.
\<close>

type_synonym u8 = "8 word"
type_synonym u16 = "16 word"
type_synonym u32 = "32 word"
type_synonym u64 = "64 word"

named_theorems buf_simps \<open>reads and writes of buffers inside their bounds\<close>
named_theorems unat_simps \<open>machine integers read as natural numbers\<close>

section \<open>Loops that may abort\<close>

text \<open>
  A C loop over a fixed range whose body can fail (an assertion, an access outside an
  array): the state is threaded, the first failure stops the loop.
\<close>

fun fold_opt :: "('a \<Rightarrow> 's \<Rightarrow> 's option) \<Rightarrow> 'a list \<Rightarrow> 's \<Rightarrow> 's option" where
  "fold_opt f [] s = Some s"
| "fold_opt f (x # xs) s = (case f x s of None \<Rightarrow> None | Some s' \<Rightarrow> fold_opt f xs s')"

lemma fold_opt_append:
  "fold_opt f (xs @ ys) s = (case fold_opt f xs s of None \<Rightarrow> None | Some s' \<Rightarrow> fold_opt f ys s')"
  by (induction xs arbitrary: s) (auto split: option.splits)

text \<open>The loop rule: an invariant indexed by the number of iterations already done.\<close>

lemma fold_opt_upt_invariant:
  assumes start: "I 0 s"
    and step: "\<And>i t. i < n \<Longrightarrow> I i t \<Longrightarrow> \<exists>t'. f i t = Some t' \<and> I (Suc i) t'"
  shows "\<exists>t. fold_opt f [0..<n] s = Some t \<and> I n t"
proof -
  have "m \<le> n \<Longrightarrow> \<exists>t. fold_opt f [0..<m] s = Some t \<and> I m t" for m
  proof (induction m)
    case 0
    then show ?case using start by simp
  next
    case (Suc m)
    then obtain t where t: "fold_opt f [0..<m] s = Some t" "I m t" by auto
    moreover from Suc.prems have "m < n" by simp
    ultimately obtain t' where "f m t = Some t'" "I (Suc m) t'" using step by blast
    with t show ?case by (simp add: fold_opt_append)
  qed
  then show ?thesis by simp
qed

section \<open>Buffers\<close>

definition buf_read :: "nat \<Rightarrow> nat \<Rightarrow> 'a list \<Rightarrow> 'a list option" where
  "buf_read off n buf = (if off + n \<le> length buf then Some (take n (drop off buf)) else None)"

definition buf_write :: "nat \<Rightarrow> 'a list \<Rightarrow> 'a list \<Rightarrow> 'a list option" where
  "buf_write off xs buf =
     (if off + length xs \<le> length buf
      then Some (take off buf @ xs @ drop (off + length xs) buf) else None)"

lemma buf_read_in [buf_simps]:
  "off + n \<le> length buf \<Longrightarrow> buf_read off n buf = Some (take n (drop off buf))"
  by (simp add: buf_read_def)

lemma buf_write_in [buf_simps]:
  "off + length xs \<le> length buf \<Longrightarrow>
   buf_write off xs buf = Some (take off buf @ xs @ drop (off + length xs) buf)"
  by (simp add: buf_write_def)

lemma buf_write_length: "buf_write off xs buf = Some buf' \<Longrightarrow> length buf' = length buf"
  by (auto simp: buf_write_def split: if_splits)

lemma buf_write_None_iff: "buf_write off xs buf = None \<longleftrightarrow> length buf < off + length xs"
  by (auto simp: buf_write_def)

lemma buf_write_append [buf_simps]:
  "length pre = off \<Longrightarrow> length xs \<le> length rest \<Longrightarrow>
   buf_write off xs (pre @ rest) = Some (pre @ xs @ drop (length xs) rest)"
  by (simp add: buf_write_def)

section \<open>Byte strings as numbers\<close>

text \<open>Big-endian value of a byte string, and the \<open>k\<close> low bytes of a number, both ways.\<close>

definition be_val :: "u8 list \<Rightarrow> nat" where
  "be_val bs = foldl (\<lambda>v b. v * 256 + unat b) 0 bs"

definition le_bytes :: "nat \<Rightarrow> nat \<Rightarrow> u8 list" where
  "le_bytes k v = map (\<lambda>i. of_nat (v div 2 ^ (8 * i))) [0..<k]"

definition be_bytes :: "nat \<Rightarrow> nat \<Rightarrow> u8 list" where
  "be_bytes k v = rev (le_bytes k v)"

lemma unat_u8_less [simp]: "unat (b :: u8) < 256"
  using unsigned_less [of b] by simp

lemma be_val_Nil [simp]: "be_val [] = 0"
  by (simp add: be_val_def)

lemma be_val_snoc [simp]: "be_val (bs @ [b]) = be_val bs * 256 + unat b"
  by (simp add: be_val_def)

lemma be_val_append: "be_val (as @ bs) = be_val as * 256 ^ length bs + be_val bs"
proof (induction bs rule: rev_induct)
  case Nil
  then show ?case by simp
next
  case (snoc b bs)
  then show ?case
    by (simp add: algebra_simps flip: append_assoc)
qed

lemma be_val_less: "be_val bs < 256 ^ length bs"
proof (induction bs rule: rev_induct)
  case Nil
  then show ?case by simp
next
  case (snoc b bs)
  then have le: "(be_val bs + 1) * 256 \<le> 256 ^ length bs * 256"
    by (intro mult_right_mono) simp_all
  have "be_val bs * 256 + unat b < (be_val bs + 1) * 256"
    using unat_u8_less [of b] unfolding add_mult_distrib by linarith
  from less_le_trans [OF this le] show ?case by (simp add: mult.commute)
qed

lemma be_val_take: "n \<le> length bs \<Longrightarrow> be_val (take n bs) = be_val bs div 256 ^ (length bs - n)"
  using be_val_append [of "take n bs" "drop n bs"] be_val_less [of "drop n bs"] by simp

lemma length_le_bytes [simp]: "length (le_bytes k v) = k"
  by (simp add: le_bytes_def)

lemma length_be_bytes [simp]: "length (be_bytes k v) = k"
  by (simp add: be_bytes_def)

lemma be_bytes_conv: "be_bytes k v = map (\<lambda>x. of_nat (v div 2 ^ (8 * (k - x - 1)))) [0..<k]"
  by (rule nth_equalityI) (simp_all add: be_bytes_def le_bytes_def rev_nth)

lemma be_bytes_0 [simp]: "be_bytes 0 v = []"
  by (simp add: be_bytes_def le_bytes_def)

lemma le_bytes_Suc: "le_bytes (Suc k) v = of_nat v # le_bytes k (v div 256)"
  by (simp add: le_bytes_def upt_conv_Cons map_Suc_upt [symmetric] del: upt_Suc)
     (simp add: div_mult2_eq [symmetric] power_add)

lemma be_bytes_Suc: "be_bytes (Suc k) v = be_bytes k (v div 256) @ [of_nat v]"
  by (simp add: be_bytes_def le_bytes_Suc)

lemma be_val_be_bytes: "be_val (be_bytes k v) = v mod 256 ^ k"
proof (induction k arbitrary: v)
  case 0
  then show ?case by simp
next
  case (Suc k)
  have "be_val (be_bytes (Suc k) v) = (v div 256) mod 256 ^ k * 256 + v mod 256"
    by (simp add: be_bytes_Suc Suc.IH unsigned_of_nat take_bit_eq_mod)
  also have "\<dots> = v mod (256 ^ k * 256)"
    by (metis add.commute mod_mult2_eq mult.commute)
  finally show ?case by (simp add: mult.commute)
qed

section \<open>Lists\<close>

lemma length_filter_list_update:
  "i < length xs \<Longrightarrow>
   length (filter P (xs[i := x])) + (if P (xs ! i) then 1 else 0) =
   length (filter P xs) + (if P x then 1 else 0)"
proof (induction xs arbitrary: i)
  case (Cons y ys)
  then show ?case using Cons.IH [of "i - 1"] by (cases i) auto
qed simp

lemma length_filter_less_ex:
  "length (filter P xs) < length xs \<Longrightarrow> \<exists>i < length xs. \<not> P (xs ! i)"
  by (metis filter_id_conv in_set_conv_nth nat_neq_iff)

section \<open>Machine integers\<close>

lemma or_shift_nat: "y < 2 ^ n \<Longrightarrow> (push_bit n x OR y :: nat) = x * 2 ^ n + y"
proof -
  assume y: "y < 2 ^ n"
  then have "take_bit n y = y" by (simp add: take_bit_nat_eq_self)
  then have "\<not> bit (push_bit n x) m \<or> \<not> bit y m" for m
    by (metis bit_push_bit_iff bit_take_bit_iff not_less)
  then have "push_bit n x + y = push_bit n x OR y" by (rule disjunctive_add)
  then show ?thesis by (simp add: push_bit_eq_mult)
qed

end
