(* ===== verification/Equihash.thy ===== *)
theory Equihash
  imports Stratum_Prelude
begin

text \<open>
  \<open>algos/equi.c\<close>: the Equihash (200,9) verifier of the pool. The libsodium BLAKE2b state
  and its three calls are a parameter (record \<open>blake2b\<close>); everything else is the code of
  the file: \<open>digestInit\<close>, \<open>expandArray\<close>, \<open>isZero\<close>, \<open>generateHash\<close> and \<open>verifyEH\<close>.
  \<open>None\<close> is a failed \<open>assert\<close> or an access outside an array.
\<close>

section \<open>The BLAKE2b interface of libsodium\<close>

record 's blake2b =
  b2_init :: "nat \<Rightarrow> u8 list \<Rightarrow> 's"
  b2_update :: "'s \<Rightarrow> u8 list \<Rightarrow> 's"
  b2_final :: "'s \<Rightarrow> nat \<Rightarrow> u8 list"

text \<open>Documented behaviour: \<open>final\<close> fills exactly the requested number of bytes.\<close>

definition blake2b_fills :: "'s blake2b \<Rightarrow> bool" where
  "blake2b_fills B \<longleftrightarrow> (\<forall>s n. length (b2_final B s n) = n)"

section \<open>The code\<close>

definition digestInit :: "'s blake2b \<Rightarrow> nat \<Rightarrow> nat \<Rightarrow> 's option" where
  "digestInit B n k =
     do { p \<leftarrow> buf_write 0 (map of_char ''ZcashPoW'' @ [0]) (replicate 16 0);
          p \<leftarrow> buf_write 8 (le_bytes 4 n) p;
          p \<leftarrow> buf_write 12 (le_bytes 4 k) p;
          Some (b2_init B (512 div n * n div 8) p) }"

record expand_state =
  acc_bits :: nat
  acc_value :: u64
  out_j :: nat
  out_buf :: "u8 list"

definition expand_byte :: "nat \<Rightarrow> nat \<Rightarrow> u64 \<Rightarrow> nat \<Rightarrow> nat \<Rightarrow> u8" where
  "expand_byte bit_len out_width acc bits x =
     (let bit_len_mask = push_bit bit_len 1 - 1 :: u64;
          d = 8 * (out_width - x - 1)
      in ucast (drop_bit (bits + d) acc AND (drop_bit d bit_len_mask AND 0xFF)))"

definition expand_step ::
  "u8 list \<Rightarrow> nat \<Rightarrow> nat \<Rightarrow> nat \<Rightarrow> nat \<Rightarrow> expand_state \<Rightarrow> expand_state option" where
  "expand_step inp bit_len byte_pad out_width i st =
     (case buf_read i 1 inp of
        Some [b] \<Rightarrow>
          (let acc = push_bit 8 (acc_value st) OR ucast b;
               bits = acc_bits st + 8
           in if bit_len \<le> bits then
                (let bits = bits - bit_len; j = out_j st in
                 do { out \<leftarrow> fold_opt (\<lambda>x. buf_write (j + x) [0]) [0..<byte_pad] (out_buf st);
                      out \<leftarrow> fold_opt (\<lambda>x. buf_write (j + x)
                               [expand_byte bit_len out_width acc bits x])
                               [byte_pad..<out_width] out;
                      Some \<lparr>acc_bits = bits, acc_value = acc, out_j = j + out_width,
                            out_buf = out\<rparr> })
              else Some (st\<lparr>acc_bits := bits, acc_value := acc\<rparr>))
      | _ \<Rightarrow> None)"

definition expandArray ::
  "u8 list \<Rightarrow> nat \<Rightarrow> u8 list \<Rightarrow> nat \<Rightarrow> nat \<Rightarrow> nat \<Rightarrow> u8 list option" where
  "expandArray inp in_len out out_len bit_len byte_pad =
     (if \<not> 8 \<le> bit_len then None
      else if \<not> 7 + bit_len \<le> 8 * 8 then None
      else let out_width = (bit_len + 7) div 8 + byte_pad in
        if out_len \<noteq> 8 * out_width * in_len div bit_len then None
        else map_option out_buf
          (fold_opt (expand_step inp bit_len byte_pad out_width) [0..<in_len]
             \<lparr>acc_bits = 0, acc_value = 0, out_j = 0, out_buf = out\<rparr>))"

fun isZero :: "u8 list \<Rightarrow> bool" where
  "isZero [] = True"
| "isZero (b # bs) = (if b \<noteq> 0 then False else isZero bs)"

definition generateHash :: "'s blake2b \<Rightarrow> 's \<Rightarrow> nat \<Rightarrow> nat \<Rightarrow> u8 list" where
  "generateHash B S g hashLen = b2_final B (b2_update B S (le_bytes 4 g)) hashLen"

text \<open>The body of the loop over the indices, the loop, and the verifier.\<close>

definition verify_round :: "'s blake2b \<Rightarrow> 's \<Rightarrow> u8 list \<Rightarrow> nat \<Rightarrow> u8 list \<Rightarrow> u8 list option" where
  "verify_round B state indices j vHash =
     (let n = 200; k = 9;
          collisionBitLength = n div (k + 1);
          collisionByteLength = (collisionBitLength + 7) div 8;
          hashLength = (k + 1) * collisionByteLength;
          indicesPerHashOutput = 512 div n;
          hashOutput = indicesPerHashOutput * n div 8
      in do { ix \<leftarrow> buf_read (4 * j) 4 indices;
              let i = be_val ix;
              let tmpHash = generateHash B state (i div indicesPerHashOutput) hashOutput;
              part \<leftarrow> buf_read (i mod indicesPerHashOutput * n div 8) (n div 8) tmpHash;
              hash \<leftarrow> expandArray part (n div 8) (replicate hashLength 0) hashLength
                       collisionBitLength 0;
              Some (map2 (\<lambda>v h. v XOR h) vHash hash) })"

definition verifyEH :: "'s blake2b \<Rightarrow> u8 list \<Rightarrow> u8 list \<Rightarrow> bool option" where
  "verifyEH B hdr soln =
     (let n = 200; k = 9;
          collisionBitLength = n div (k + 1);
          collisionByteLength = (collisionBitLength + 7) div 8;
          hashLength = (k + 1) * collisionByteLength;
          equihashSolutionSize = 2 ^ k * (n div (k + 1) + 1) div 8;
          solnr = 2 ^ k
      in do { state \<leftarrow> digestInit B n k;
              h \<leftarrow> buf_read 0 140 hdr;
              let state = b2_update B state h;
              indices \<leftarrow> expandArray soln equihashSolutionSize (replicate 2048 0) 2048
                         (collisionBitLength + 1) 1;
              vHash \<leftarrow> fold_opt (verify_round B state indices) [0..<solnr]
                        (replicate hashLength 0);
              Some (isZero vHash) })"

section \<open>Specification of the bit expansion\<close>

text \<open>
  The input is one big-endian bit string; element \<open>t\<close> of the output is its bits
  \<open>[t * bit_len, (t + 1) * bit_len)\<close>, written big-endian after \<open>byte_pad\<close> zero bytes.
\<close>

definition bit_slice :: "u8 list \<Rightarrow> nat \<Rightarrow> nat \<Rightarrow> nat" where
  "bit_slice bs bl t = be_val bs div 2 ^ (8 * length bs - Suc t * bl) mod 2 ^ bl"

definition expand_spec :: "u8 list \<Rightarrow> nat \<Rightarrow> nat \<Rightarrow> nat \<Rightarrow> u8 list" where
  "expand_spec bs bl pad n =
     concat (map (\<lambda>t. replicate pad 0 @ be_bytes ((bl + 7) div 8) (bit_slice bs bl t)) [0..<n])"

lemma length_expand_spec [simp]:
  "length (expand_spec bs bl pad n) = ((bl + 7) div 8 + pad) * n"
  by (simp add: expand_spec_def length_concat comp_def sum_list_triv)

lemma expand_spec_Suc:
  "expand_spec bs bl pad (Suc n) =
   expand_spec bs bl pad n @ replicate pad 0 @ be_bytes ((bl + 7) div 8) (bit_slice bs bl n)"
  by (simp add: expand_spec_def)

lemma unat_acc_step:
  "unat ((push_bit 8 a OR ucast (b :: u8)) :: u64) = (unat a * 256 + unat b) mod 2 ^ 64"
proof -
  have b: "unat b < 2 ^ 8" using unsigned_less [of b] by simp
  then have "unat b < 2 ^ 64" by (rule less_le_trans) simp
  then have tb: "take_bit 64 (unat b) = unat b" by (rule take_bit_nat_eq_self)
  have "unat ((push_bit 8 a OR ucast (b :: u8)) :: u64) = take_bit 64 (push_bit 8 (unat a)) OR unat b"
    using tb by (simp add: unsigned_or_eq unsigned_push_bit_eq unsigned_ucast_eq)
  also have "\<dots> = take_bit 64 (push_bit 8 (unat a) OR unat b)"
    using tb by (simp add: take_bit_or)
  also have "\<dots> = (unat a * 256 + unat b) mod 2 ^ 64"
    using or_shift_nat [OF b, of "unat a"] by (simp add: take_bit_eq_mod)
  finally show ?thesis .
qed

lemma expand_byte_spec:
  assumes bl: "8 \<le> bl" "bl \<le> 57" and r: "r < 8" and d: "8 * d < bl" and w: "w - Suc x = d"
    and acc: "unat acc = V mod 2 ^ 64"
  shows "expand_byte bl w acc r x = of_nat ((V div 2 ^ r mod 2 ^ bl) div 2 ^ (8 * d))"
proof (rule bit_word_eqI)
  fix n assume n: "n < LENGTH(8)"
  have "acc = of_nat (unat acc)" by simp
  then have acc': "acc = of_nat V"
    unfolding acc by (simp add: word_of_nat_eq_iff take_bit_eq_mod)
  have m: "push_bit bl 1 - 1 = (mask bl :: u64)"
    by (simp add: mask_eq_exp_minus_1)
  have bound: "8 * d + n < bl \<Longrightarrow> r + 8 * d + n < 64" using r bl by linarith
  have ff: "(0xFF :: u64) = mask 8" by (simp add: mask_eq_exp_minus_1)
  have e: "expand_byte bl w acc r x =
      ucast (drop_bit (r + 8 * d) (of_nat V :: u64) AND (drop_bit (8 * d) (mask bl) AND mask 8))"
    unfolding expand_byte_def Let_def diff_diff_left add_Suc_right Nat.add_0_right One_nat_def w acc' m ff ..
  have q: "(V div 2 ^ r mod 2 ^ bl) div 2 ^ (8 * d) = drop_bit (8 * d) (take_bit bl (drop_bit r V))"
    by (simp add: drop_bit_eq_div take_bit_eq_mod)
  have n8: "n < 8" using n by simp
  show "bit (expand_byte bl w acc r x) n =
        bit (of_nat ((V div 2 ^ r mod 2 ^ bl) div 2 ^ (8 * d)) :: u8) n"
    using n8 bound bl unfolding e q by (auto simp: bit_simps add_ac)
qed

text \<open>The writes of one output element: padding zeros, then the bytes of the slice.\<close>

lemma fold_write_bytes:
  assumes "length pre = j + a" and "length rest \<ge> b - a" and "a \<le> b"
  shows "fold_opt (\<lambda>x. buf_write (j + x) [f x]) [a..<b] (pre @ rest) =
         Some (pre @ map f [a..<b] @ drop (b - a) rest)"
  using assms
proof (induction "b - a" arbitrary: a pre rest)
  case 0
  then show ?case by simp
next
  case (Suc n)
  then have ab: "a < b" by simp
  with Suc.prems obtain y rest' where rest: "rest = y # rest'"
    by (cases rest) auto
  have "fold_opt (\<lambda>x. buf_write (j + x) [f x]) [Suc a..<b] ((pre @ [f a]) @ rest') =
        Some ((pre @ [f a]) @ map f [Suc a..<b] @ drop (b - Suc a) rest')"
    using Suc.prems ab rest Suc.hyps(2) by (intro Suc.hyps(1)) auto
  then show ?case
    using Suc.prems ab by (simp add: upt_conv_Cons rest buf_simps Suc_diff_le drop_Cons' del: upt_Suc)
qed

definition expand_inv :: "u8 list \<Rightarrow> nat \<Rightarrow> nat \<Rightarrow> u8 list \<Rightarrow> nat \<Rightarrow> expand_state \<Rightarrow> bool" where
  "expand_inv bs bl pad out i st \<longleftrightarrow>
     (let w = (bl + 7) div 8 + pad; t = 8 * i div bl in
      acc_bits st = 8 * i mod bl \<and>
      unat (acc_value st) = be_val (take i bs) mod 2 ^ 64 \<and>
      out_j st = w * t \<and>
      out_buf st = expand_spec bs bl pad t @ drop (w * t) out)"

lemma bits_step:
  assumes "8 \<le> (bl :: nat)"
  shows "8 * Suc i div bl = (if bl \<le> 8 * i mod bl + 8 then Suc (8 * i div bl) else 8 * i div bl)"
    and "8 * Suc i mod bl = (if bl \<le> 8 * i mod bl + 8 then 8 * i mod bl + 8 - bl else 8 * i mod bl + 8)"
proof -
  define q r where "q = 8 * i div bl" and "r = 8 * i mod bl"
  have e: "8 * Suc i = q * bl + (r + 8)" and r: "r < bl"
    using assms by (simp_all add: q_def r_def)
  have "(r + 8) div bl = (if bl \<le> r + 8 then 1 else 0)"
    using r assms by (auto simp: div_nat_eqI)
  moreover have "(r + 8) mod bl = (if bl \<le> r + 8 then r + 8 - bl else r + 8)"
    using r assms by (auto simp: mod_if)
  ultimately show "8 * Suc i div bl = (if bl \<le> 8 * i mod bl + 8 then Suc (8 * i div bl) else 8 * i div bl)"
    and "8 * Suc i mod bl = (if bl \<le> 8 * i mod bl + 8 then 8 * i mod bl + 8 - bl else 8 * i mod bl + 8)"
    using r assms unfolding e by (auto simp: q_def [symmetric] r_def [symmetric])
qed

lemma slice_of_prefix:
  assumes "i < length bs" and "bl \<le> 8 * i mod bl + 8" and "0 < bl"
  shows "be_val (take (Suc i) bs) div 2 ^ (8 * i mod bl + 8 - bl) mod 2 ^ bl =
         bit_slice bs bl (8 * i div bl)"
proof -
  have e: "8 * i = 8 * i div bl * bl + 8 * i mod bl" by simp
  have "8 * (length bs - Suc i) + (8 * i mod bl + 8 - bl) = 8 * length bs - Suc (8 * i div bl) * bl"
    using assms e unfolding mult_Suc by linarith
  moreover have "(256 :: nat) ^ m = 2 ^ (8 * m)" for m by (simp add: power_mult)
  ultimately show ?thesis
    using assms(1) by (simp add: be_val_take bit_slice_def div_mult2_eq [symmetric] power_add [symmetric])
qed

lemma expand_bytes_spec:
  assumes bl: "8 \<le> bl" "bl \<le> 57" and i: "i < length bs" and full: "bl \<le> 8 * i mod bl + 8"
    and acc: "unat acc = be_val (take (Suc i) bs) mod 2 ^ 64"
    and w: "w = (bl + 7) div 8 + pad"
  shows "map (expand_byte bl w acc (8 * i mod bl + 8 - bl)) [pad..<w] =
         be_bytes ((bl + 7) div 8) (bit_slice bs bl (8 * i div bl))"
proof -
  let ?n = "(bl + 7) div 8" and ?r = "8 * i mod bl + 8 - bl"
  have r: "?r < 8" using full mod_less_divisor [of bl "8 * i"] bl by linarith
  have "expand_byte bl w acc ?r (x + pad) =
      of_nat (bit_slice bs bl (8 * i div bl) div 2 ^ (8 * (?n - x - 1)))" if "x < ?n" for x
  proof -
    have "8 * (?n - x - 1) < bl" using that bl by linarith
    moreover have "w - Suc (x + pad) = ?n - x - 1" using w by simp
    ultimately show ?thesis
      using expand_byte_spec [OF bl r _ _ acc] slice_of_prefix [OF i full] bl by simp
  qed
  moreover have "[pad..<w] = map (\<lambda>x. x + pad) [0..<?n]"
    by (simp add: w map_add_upt)
  ultimately show ?thesis by (simp add: be_bytes_conv comp_def)
qed

lemma expand_step_inv:
  assumes bl: "8 \<le> bl" "bl \<le> 57" and bs: "bs = take N inp" "N \<le> length inp" and i: "i < N"
    and w: "w = (bl + 7) div 8 + pad" and room: "w * (8 * N div bl) \<le> length out"
    and inv: "expand_inv bs bl pad out i st"
  shows "\<exists>st'. expand_step inp bl pad w i st = Some st' \<and> expand_inv bs bl pad out (Suc i) st'"
proof -
  let ?t = "8 * i div bl" and ?acc = "push_bit 8 (acc_value st) OR ucast (inp ! i) :: u64"
  have rd: "buf_read i 1 inp = Some [inp ! i]"
    using bs i by (simp add: buf_read_def take_Suc_conv_app_nth Cons_nth_drop_Suc [symmetric])
  have tk: "take (Suc i) bs = take i bs @ [inp ! i]"
    using bs i by (simp add: take_Suc_conv_app_nth)
  have acc: "unat ?acc = be_val (take (Suc i) bs) mod 2 ^ 64"
    using inv unfolding unat_acc_step tk be_val_snoc expand_inv_def Let_def
    by (metis mod_add_left_eq mod_mult_left_eq)
  note steps = bits_step [OF bl(1), of i]
  show ?thesis
  proof (cases "bl \<le> 8 * i mod bl + 8")
    case False
    then show ?thesis
      using inv acc steps by (simp add: expand_step_def rd [unfolded One_nat_def] expand_inv_def Let_def)
  next
    case True
    have "8 * Suc i div bl \<le> 8 * N div bl" using i by (intro div_le_mono) simp
    then have "Suc ?t \<le> 8 * N div bl" using steps True by simp
    then have "w * Suc ?t \<le> w * (8 * N div bl)" by (rule mult_le_mono2)
    then have rm: "w \<le> length (drop (w * ?t) out)" using room by simp
    let ?r = "8 * i mod bl + 8 - bl" and ?pre = "expand_spec bs bl pad ?t"
    have f1: "fold_opt (\<lambda>x. buf_write (w * ?t + x) [0]) [0..<pad] (?pre @ drop (w * ?t) out) =
        Some ((?pre @ replicate pad 0) @ drop pad (drop (w * ?t) out))"
      using fold_write_bytes [of ?pre "w * ?t" 0 pad "drop (w * ?t) out" "\<lambda>_. 0"] rm w
      by (simp add: map_replicate_const mult.commute)
    have f2: "fold_opt (\<lambda>x. buf_write (w * ?t + x) [expand_byte bl w ?acc ?r x]) [pad..<w]
          ((?pre @ replicate pad 0) @ drop pad (drop (w * ?t) out)) =
        Some ((?pre @ replicate pad 0) @ be_bytes ((bl + 7) div 8) (bit_slice bs bl ?t) @
          drop (w - pad) (drop pad (drop (w * ?t) out)))"
      using fold_write_bytes [of "?pre @ replicate pad 0" "w * ?t" pad w
          "drop pad (drop (w * ?t) out)" "expand_byte bl w ?acc ?r"] rm w
        expand_bytes_spec [OF bl _ True acc w] bs i
      by (simp add: mult.commute)
    have tail: "drop (w - pad) (drop pad (drop (w * ?t) out)) = drop (w * Suc ?t) out"
      using w by (simp add: add_ac)
    show ?thesis
      using True inv acc steps f1 f2 w unfolding tail
      by (simp add: expand_step_def rd [unfolded One_nat_def] expand_inv_def Let_def expand_spec_Suc del: drop_drop)
  qed
qed

text \<open>The accumulator loop is the big-endian bit slicing.\<close>

lemma expandArray_spec:
  assumes bl: "8 \<le> bl" "bl \<le> 57" and len: "in_len \<le> length inp"
    and w: "w = (bl + 7) div 8 + pad" and out_len: "out_len = 8 * w * in_len div bl"
    and room: "w * (8 * in_len div bl) \<le> length out"
  shows "expandArray inp in_len out out_len bl pad =
         Some (expand_spec (take in_len inp) bl pad (8 * in_len div bl) @
               drop (w * (8 * in_len div bl)) out)"
proof -
  let ?bs = "take in_len inp"
  have "\<exists>st. fold_opt (expand_step inp bl pad w) [0..<in_len]
        \<lparr>acc_bits = 0, acc_value = 0, out_j = 0, out_buf = out\<rparr> = Some st \<and>
      expand_inv ?bs bl pad out in_len st"
    using expand_step_inv [OF bl refl len _ w room]
    by (intro fold_opt_upt_invariant) (auto simp: expand_inv_def expand_spec_def)
  then show ?thesis
    using bl w out_len by (auto simp: expandArray_def Let_def expand_inv_def)
qed

section \<open>What the verifier decides\<close>

text \<open>
  The 512 indices a solution encodes, the 30 expanded bytes of one index, and the XOR of a
  list of byte values.
\<close>

definition solution_indices :: "u8 list \<Rightarrow> nat list" where
  "solution_indices soln = map (bit_slice (take 1344 soln) 21) [0..<512]"

definition index_hash :: "'s blake2b \<Rightarrow> 's \<Rightarrow> nat \<Rightarrow> u8 list" where
  "index_hash B state i =
     expand_spec (take 25 (drop (i mod 2 * 25) (generateHash B state (i div 2) 50))) 20 0 10"

definition header_state :: "'s blake2b \<Rightarrow> u8 list \<Rightarrow> 's" where
  "header_state B hdr =
     b2_update B (b2_init B 50 (map of_char ''ZcashPoW'' @ le_bytes 4 200 @ le_bytes 4 9))
       (take 140 hdr)"

fun xor_sum :: "('a \<Rightarrow> u8) \<Rightarrow> 'a list \<Rightarrow> u8" where
  "xor_sum f [] = 0"
| "xor_sum f (x # xs) = f x XOR xor_sum f xs"

lemma xor_sum_append: "xor_sum f (xs @ ys) = xor_sum f xs XOR xor_sum f ys"
  by (induction xs) (simp_all add: xor.assoc)

lemma isZero_iff: "isZero bs \<longleftrightarrow> (\<forall>p < length bs. bs ! p = 0)"
  by (induction bs) (auto simp: nth_Cons' less_Suc_eq_0_disj)

lemma bit_slice_less: "bit_slice bs bl t < 2 ^ bl"
  by (simp add: bit_slice_def)

lemma concat_blocks_nth:
  assumes "\<And>t. length (f t) = w" and "j < n"
  shows "take w (drop (w * j) (concat (map f [0..<n]))) = f j"
proof -
  have "[0..<n] = [0..<j] @ j # [Suc j..<n]"
    using assms(2) by (metis less_imp_add_positive upt_add_eq_append upt_conv_Cons zero_le)
  then have "concat (map f [0..<n]) = concat (map f [0..<j]) @ f j @ concat (map f [Suc j..<n])"
    by simp
  moreover have "length (concat (map f [0..<j])) = w * j"
    by (simp add: length_concat comp_def assms(1) sum_list_triv)
  ultimately show ?thesis using assms(1) [of j] by simp
qed

lemma indices_buffer:
  assumes "1344 \<le> length soln"
  shows "expandArray soln 1344 (replicate 2048 0) 2048 21 1 =
         Some (expand_spec (take 1344 soln) 21 1 512)"
  using expandArray_spec [of 21 1344 soln 4 1 2048 "replicate 2048 0"] assms by simp

lemma read_index:
  assumes "j < 512"
  shows "buf_read (4 * j) 4 (expand_spec bs 21 1 512) =
         Some (0 # be_bytes 3 (bit_slice bs 21 j))"
proof -
  have "take 4 (drop (4 * j) (expand_spec bs 21 1 512)) = [0] @ be_bytes 3 (bit_slice bs 21 j)"
    unfolding expand_spec_def using assms by (subst concat_blocks_nth) simp_all
  then show ?thesis using assms by (simp add: buf_read_def)
qed

lemma be_val_index: "be_val (0 # be_bytes 3 (bit_slice bs 21 j)) = bit_slice bs 21 j"
proof -
  have "be_val (0 # be_bytes 3 (bit_slice bs 21 j)) = bit_slice bs 21 j mod 256 ^ 3"
    using be_val_append [of "[0]" "be_bytes 3 (bit_slice bs 21 j)"]
    by (simp add: be_val_be_bytes be_val_def [of "[0]"])
  moreover have "bit_slice bs 21 j < 256 ^ 3" using bit_slice_less [of bs 21 j] by simp
  ultimately show ?thesis by simp
qed

lemma digestInit_200_9:
  "digestInit B 200 9 = Some (b2_init B 50 (map of_char ''ZcashPoW'' @ le_bytes 4 200 @ le_bytes 4 9))"
  by (simp add: digestInit_def buf_write_def le_bytes_def upt_rec)

lemma verify_round_spec:
  assumes B: "blake2b_fills B" and j: "j < 512"
  shows "verify_round B state (expand_spec bs 21 1 512) j v =
         Some (map2 (\<lambda>v h. v XOR h) v (index_hash B state (bit_slice bs 21 j)))"
proof -
  let ?i = "bit_slice bs 21 j"
  have len: "length (generateHash B state g m) = m" for g m
    using B by (simp add: generateHash_def blake2b_fills_def)
  have rd: "buf_read (?i mod 2 * 200 div 8) 25 (generateHash B state (?i div 2) 50) =
      Some (take 25 (drop (?i mod 2 * 25) (generateHash B state (?i div 2) 50)))" (is "_ = Some ?p")
    using mod_less_divisor [of 2 ?i] by (simp add: buf_read_def len mult.commute)
  have ex: "expandArray ?p 25 (replicate 30 0) 30 20 0 = Some (expand_spec ?p 20 0 10)"
    using expandArray_spec [of 20 25 ?p 3 0 30 "replicate 30 0"] by (simp add: len)
  show ?thesis
    using read_index [OF j, of bs] rd ex
    by (simp add: verify_round_def be_val_index index_hash_def Let_def)
qed

lemma verify_loop:
  assumes B: "blake2b_fills B" and "m \<le> 512" and "length v = 30"
  shows "fold_opt (verify_round B state (expand_spec bs 21 1 512)) [0..<m] v =
         Some (map (\<lambda>p. v ! p XOR
                 xor_sum (\<lambda>i. index_hash B state i ! p) (map (bit_slice bs 21) [0..<m])) [0..<30])"
  using assms(2)
proof (induction m)
  case 0
  then show ?case using assms(3) map_nth [of v] by simp
next
  case (Suc m)
  then show ?case
    using verify_round_spec [OF B, of m] assms(3)
    by (simp add: fold_opt_append xor_sum_append index_hash_def list_eq_iff_nth_eq xor.assoc
        del: upt_Suc add: upt_Suc_append)
qed

lemma verifyEH_spec:
  assumes "blake2b_fills B" and "140 \<le> length hdr" and "1344 \<le> length soln"
  shows "verifyEH B hdr soln = Some (\<forall>p < 30.
           xor_sum (\<lambda>i. index_hash B (header_state B hdr) i ! p) (solution_indices soln) = 0)"
  using assms indices_buffer [OF assms(3)] digestInit_200_9 [of B]
    verify_loop [OF assms(1), of 512 "replicate 30 0" "header_state B hdr" "take 1344 soln"]
  by (simp add: verifyEH_def buf_read_def header_state_def isZero_iff solution_indices_def)

text \<open>A list of indices in which every value occurs an even number of times cancels.\<close>

lemma xor_sum_paired:
  "(\<And>v. even (count_list xs v)) \<Longrightarrow> xor_sum f xs = 0"
proof (induction xs rule: length_induct)
  case (1 xs)
  show ?case
  proof (cases xs)
    case Nil
    then show ?thesis by simp
  next
    case (Cons v ys)
    have "odd (count_list ys v)" using "1.prems" [of v] Cons by simp
    then have "v \<in> set ys" by (metis count_list_0_iff even_zero)
    then obtain as bs where ys: "ys = as @ v # bs" by (auto simp: in_set_conv_decomp)
    have "even (count_list (as @ bs) u)" for u
      using "1.prems" [of u] Cons ys by (auto split: if_splits)
    then have "xor_sum f (as @ bs) = 0"
      using "1.IH" Cons ys by simp
    moreover have "f v XOR (xor_sum f as XOR (f v XOR xor_sum f bs)) =
        (f v XOR f v) XOR (xor_sum f as XOR xor_sum f bs)"
      by (simp only: ac_simps)
    ultimately show ?thesis by (simp add: Cons ys xor_sum_append)
  qed
qed

lemma count_list_replicate_if: "count_list (replicate n x) y = (if x = y then n else 0)"
  by (cases "x = y"; induction n) simp_all

lemma solution_indices_zero: "solution_indices (replicate 1344 0) = replicate 512 0"
proof -
  have "be_val (replicate n 0) = 0" for n
    by (induction n) (simp_all add: be_val_def)
  then have "bit_slice (replicate 1344 0) 21 = (\<lambda>_. 0)"
    by (intro ext) (simp add: bit_slice_def)
  then show ?thesis
    by (simp add: solution_indices_def map_replicate_const)
qed

section \<open>Properties\<close>

text \<open>
  C3. The 64-bit accumulator loop of \<open>expandArray\<close> is big-endian bit slicing: for every
  admitted width it returns, element \<open>t\<close> of the output holds bits
  \<open>[t * bit_len, (t + 1) * bit_len)\<close> of the input, and the rest of the buffer is untouched.
\<close>

theorem expandArray_slices:
  assumes "8 \<le> bit_len" and "bit_len \<le> 57" and "in_len \<le> length inp"
    and "w = (bit_len + 7) div 8 + byte_pad" and "out_len = 8 * w * in_len div bit_len"
    and "w * (8 * in_len div bit_len) \<le> length out"
  shows "expandArray inp in_len out out_len bit_len byte_pad =
         Some (expand_spec (take in_len inp) bit_len byte_pad (8 * in_len div bit_len) @
               drop (w * (8 * in_len div bit_len)) out)"
  using assms by (rule expandArray_spec)

theorem expandArray_slices_witness:
  "expandArray [0xAB, 0xCD, 0xEF, 0x01, 0x23, 0xFF] 5 (replicate 7 9) 6 20 0 =
   Some ([0x0A, 0xBC, 0xDE, 0x0F, 0x01, 0x23] @ [9])"
proof -
  have "expandArray [0xAB, 0xCD, 0xEF, 0x01, 0x23, 0xFF] 5 (replicate 7 9) 6 20 0 =
        Some (expand_spec (take 5 [0xAB, 0xCD, 0xEF, 0x01, 0x23, 0xFF]) 20 0 (8 * 5 div 20) @
              drop (3 * (8 * 5 div 20)) (replicate 7 9))"
    by (rule expandArray_slices) simp_all
  also have "\<dots> = Some ([0x0A, 0xBC, 0xDE, 0x0F, 0x01, 0x23] @ [9])"
    by (simp add: expand_spec_def bit_slice_def be_val_def be_bytes_def le_bytes_def upt_rec)
  finally show ?thesis .
qed

text \<open>
  C1. On a full header and solution the verifier always returns, and it answers True exactly
  when the XOR of the expanded hashes at the 512 indices encoded by the solution is zero in
  each of its 30 bytes.
\<close>

theorem verifyEH_iff:
  assumes "blake2b_fills B" and "140 \<le> length hdr" and "1344 \<le> length soln"
  shows "verifyEH B hdr soln = Some (\<forall>p < 30.
           xor_sum (\<lambda>i. index_hash B (header_state B hdr) i ! p) (solution_indices soln) = 0)"
  using assms by (rule verifyEH_spec)

definition sum_blake2b :: "nat blake2b" where
  "sum_blake2b = \<lparr>b2_init = (\<lambda>n p. be_val p), b2_update = (\<lambda>s m. s + be_val m),
                  b2_final = (\<lambda>s n. be_bytes n s)\<rparr>"

lemma sum_blake2b_fills: "blake2b_fills sum_blake2b"
  by (simp add: blake2b_fills_def sum_blake2b_def)

theorem verifyEH_iff_witness:
  "verifyEH sum_blake2b (replicate 140 7) (replicate 1344 1) = Some (\<forall>p < 30.
     xor_sum (\<lambda>i. index_hash sum_blake2b (header_state sum_blake2b (replicate 140 7)) i ! p)
       (solution_indices (replicate 1344 1)) = 0)"
  by (rule verifyEH_iff [OF sum_blake2b_fills]) simp_all

text \<open>
  C2. The verifier has no test that the indices are distinct: a solution in which every index
  occurs an even number of times is accepted for every header.
\<close>

theorem verifyEH_accepts_paired_indices:
  assumes "blake2b_fills B" and "140 \<le> length hdr" and "1344 \<le> length soln"
    and "\<forall>v. even (count_list (solution_indices soln) v)"
  shows "verifyEH B hdr soln = Some True"
  using assms(4) by (simp add: verifyEH_spec [OF assms(1-3)] xor_sum_paired)

text \<open>The all-zero solution pairs its indices: no work at all is needed for any header.\<close>

theorem verifyEH_accepts_paired_indices_witness:
  "verifyEH sum_blake2b (map of_nat [0..<140]) (replicate 1344 0) = Some True"
  by (rule verifyEH_accepts_paired_indices [OF sum_blake2b_fills])
     (simp_all add: solution_indices_zero count_list_replicate_if)

end
