(* ===== verification/Ini_Dictionary.thy ===== *)
theory Ini_Dictionary
  imports Stratum_Prelude
begin

text \<open>
  \<open>iniparser/src/dictionary.c\<close>: the open-addressed string dictionary behind the
  configuration file. A C string is a \<open>string\<close> without the final NUL, a \<open>char *\<close> that
  may be NULL is a \<open>string option\<close>, the three parallel arrays are lists of length
  \<open>size\<close>. The success of \<open>calloc\<close> in a growth is an argument of \<open>dictionary_set\<close>;
  \<open>xstrdup\<close> is taken to succeed.
\<close>

section \<open>The code\<close>

record dictionary =
  d_n :: nat
  d_size :: nat
  d_val :: "string option list"
  d_key :: "string option list"
  d_hash :: "u32 list"

definition hash_char :: "u32 \<Rightarrow> char \<Rightarrow> u32" where
  "hash_char hash c =
     (let hash = hash + scast (of_char c :: u8);
          hash = hash + push_bit 10 hash
      in hash XOR drop_bit 6 hash)"

definition dictionary_hash :: "string \<Rightarrow> u32" where
  "dictionary_hash key =
     (let hash = foldl hash_char 0 key;
          hash = hash + push_bit 3 hash;
          hash = hash XOR drop_bit 11 hash
      in hash + push_bit 15 hash)"

definition dictionary_new :: "nat \<Rightarrow> dictionary" where
  "dictionary_new sz =
     (let sz = (if sz < 128 then 128 else sz)
      in \<lparr>d_n = 0, d_size = sz, d_val = replicate sz None, d_key = replicate sz None,
          d_hash = replicate sz 0\<rparr>)"

text \<open>The search loop shared by get, set and unset: the first matching slot, or \<open>size\<close>.\<close>

function find_slot :: "dictionary \<Rightarrow> u32 \<Rightarrow> string \<Rightarrow> nat \<Rightarrow> nat" where
  "find_slot d hash key i =
     (if i < d_size d then
        (case d_key d ! i of
           None \<Rightarrow> find_slot d hash key (Suc i)
         | Some k \<Rightarrow> if hash = d_hash d ! i then
                      (if key = k then i else find_slot d hash key (Suc i))
                    else find_slot d hash key (Suc i))
      else i)"
  by pat_completeness auto
termination
  by (relation "measure (\<lambda>(d, hash, key, i). d_size d - i)") auto

declare find_slot.simps [simp del]

text \<open>\<open>None\<close> stands for the caller's default pointer.\<close>

definition dictionary_get :: "dictionary \<Rightarrow> string \<Rightarrow> string option option" where
  "dictionary_get d key =
     (let i = find_slot d (dictionary_hash key) key 0
      in if i < d_size d then Some (d_val d ! i) else None)"

definition mem_double :: "'a list \<Rightarrow> 'a \<Rightarrow> 'a list" where
  "mem_double xs z = xs @ replicate (length xs) z"

text \<open>The search for a free slot; it wraps, and without a free slot it never ends.\<close>

fun probe_free :: "nat \<Rightarrow> dictionary \<Rightarrow> nat \<Rightarrow> nat option" where
  "probe_free 0 d i = None"
| "probe_free (Suc fuel) d i =
     (if d_key d ! i = None then Some i
      else probe_free fuel d (if Suc i = d_size d then 0 else Suc i))"

definition dictionary_grow :: "dictionary \<Rightarrow> dictionary" where
  "dictionary_grow d =
     d\<lparr>d_val := mem_double (d_val d) None, d_key := mem_double (d_key d) None,
       d_hash := mem_double (d_hash d) 0, d_size := 2 * d_size d\<rparr>"

text \<open>
  The result is the returned int and the dictionary; the outer \<open>None\<close> is a call that does
  not return, an inner \<open>None\<close> a dictionary whose arrays were lost to a failed growth.
\<close>

definition dictionary_set ::
  "bool \<Rightarrow> dictionary option \<Rightarrow> string option \<Rightarrow> string option \<Rightarrow>
   (int \<times> dictionary option) option" where
  "dictionary_set grow_ok dp keyp val =
     (case (dp, keyp) of
        (Some d, Some key) \<Rightarrow>
          (let hash = dictionary_hash key;
               i = (if 0 < d_n d then find_slot d hash key 0 else d_size d)
           in if i < d_size d then Some (0, Some (d\<lparr>d_val := (d_val d)[i := val]\<rparr>))
              else if d_n d = d_size d \<and> \<not> grow_ok then Some (-1, None)
              else (let d = (if d_n d = d_size d then dictionary_grow d else d)
                    in case probe_free (d_size d) d (d_n d) of
                         None \<Rightarrow> None
                       | Some i \<Rightarrow> Some (0, Some (d\<lparr>d_key := (d_key d)[i := Some key],
                                                    d_val := (d_val d)[i := val],
                                                    d_hash := (d_hash d)[i := hash],
                                                    d_n := Suc (d_n d)\<rparr>))))
      | _ \<Rightarrow> Some (-1, dp))"

definition dictionary_unset :: "dictionary \<Rightarrow> string option \<Rightarrow> dictionary" where
  "dictionary_unset d keyp =
     (case keyp of None \<Rightarrow> d
      | Some key \<Rightarrow>
          (let i = find_slot d (dictionary_hash key) key 0
           in if d_size d \<le> i then d
              else d\<lparr>d_key := (d_key d)[i := None], d_val := (d_val d)[i := None],
                     d_hash := (d_hash d)[i := 0], d_n := d_n d - 1\<rparr>))"

definition dump_entry :: "dictionary \<Rightarrow> nat \<Rightarrow> string" where
  "dump_entry d i =
     (case d_key d ! i of None \<Rightarrow> []
      | Some k \<Rightarrow> replicate (20 - length k) CHR '' '' @ k @ [CHR 0x09] @ ''['' @
                (case d_val d ! i of Some v \<Rightarrow> v | None \<Rightarrow> ''UNDEF'') @ '']'' @ [CHR 0x0A])"

definition dictionary_dump :: "dictionary option \<Rightarrow> string" where
  "dictionary_dump dp =
     (case dp of None \<Rightarrow> []
      | Some d \<Rightarrow> if d_n d < 1 then ''empty dictionary'' @ [CHR 0x0A]
                 else concat (map (dump_entry d) [0..<d_size d]))"

section \<open>Invariant and abstraction\<close>

definition dict_ok :: "dictionary \<Rightarrow> bool" where
  "dict_ok d \<longleftrightarrow>
     0 < d_size d \<and> length (d_key d) = d_size d \<and> length (d_val d) = d_size d \<and>
     length (d_hash d) = d_size d \<and>
     d_n d = length (filter (\<lambda>k. k \<noteq> None) (d_key d)) \<and>
     (\<forall>i < d_size d. \<forall>k. d_key d ! i = Some k \<longrightarrow> d_hash d ! i = dictionary_hash k) \<and>
     (\<forall>i < d_size d. \<forall>j < d_size d. d_key d ! i \<noteq> None \<longrightarrow> d_key d ! i = d_key d ! j \<longrightarrow> i = j)"

fun slots_map :: "string option list \<Rightarrow> 'v list \<Rightarrow> string \<rightharpoonup> 'v" where
  "slots_map (Some k # ks) (v # vs) = (slots_map ks vs)(k \<mapsto> v)"
| "slots_map (None # ks) (v # vs) = slots_map ks vs"
| "slots_map _ _ = Map.empty"

definition dict_map :: "dictionary \<Rightarrow> string \<rightharpoonup> string option" where
  "dict_map d = slots_map (d_key d) (d_val d)"

lemma slots_map_Some_iff:
  assumes "length ks = length vs"
    and "\<And>i j. i < length ks \<Longrightarrow> j < length ks \<Longrightarrow> ks ! i \<noteq> None \<Longrightarrow> ks ! i = ks ! j \<Longrightarrow> i = j"
  shows "slots_map ks vs k = Some v \<longleftrightarrow> (\<exists>i < length ks. ks ! i = Some k \<and> vs ! i = v)"
  using assms
proof (induction ks vs rule: slots_map.induct)
  case (1 a ks v' vs)
  have inj: "i < length ks \<Longrightarrow> j < length ks \<Longrightarrow> ks ! i \<noteq> None \<Longrightarrow> ks ! i = ks ! j \<Longrightarrow> i = j" for i j
    using "1.prems"(2) [of "Suc i" "Suc j"] by simp
  have new: "ks ! i \<noteq> Some a" if "i < length ks" for i
    using "1.prems"(2) [of 0 "Suc i"] that by auto
  have "slots_map ks vs k = Some v \<longleftrightarrow> (\<exists>i < length ks. ks ! i = Some k \<and> vs ! i = v)"
    using "1.prems"(1) inj by (intro "1.IH") auto
  then show ?case using new by (auto simp: less_Suc_eq_0_disj)
next
  case (2 ks v' vs)
  have inj: "i < length ks \<Longrightarrow> j < length ks \<Longrightarrow> ks ! i \<noteq> None \<Longrightarrow> ks ! i = ks ! j \<Longrightarrow> i = j" for i j
    using "2.prems"(2) [of "Suc i" "Suc j"] by simp
  have "slots_map ks vs k = Some v \<longleftrightarrow> (\<exists>i < length ks. ks ! i = Some k \<and> vs ! i = v)"
    using "2.prems"(1) inj by (intro "2.IH") auto
  then show ?case by (auto simp: less_Suc_eq_0_disj)
qed simp_all

lemma map_eqI: "(\<And>k v. m k = Some v \<longleftrightarrow> m' k = Some v) \<Longrightarrow> m = m'"
  by (rule ext) (metis not_None_eq)

lemma dict_map_Some_iff:
  "dict_ok d \<Longrightarrow> dict_map d k = Some v \<longleftrightarrow> (\<exists>i < d_size d. d_key d ! i = Some k \<and> d_val d ! i = v)"
  using slots_map_Some_iff [of "d_key d" "d_val d" k v] by (simp add: dict_map_def dict_ok_def)

lemma find_slot_spec:
  "i \<le> d_size d \<Longrightarrow>
   (let r = find_slot d h key i in
      r \<le> d_size d \<and> i \<le> r \<and>
      (r < d_size d \<longrightarrow> d_key d ! r = Some key \<and> d_hash d ! r = h) \<and>
      (\<forall>j. i \<le> j \<and> j < r \<longrightarrow> d_key d ! j \<noteq> Some key \<or> d_hash d ! j \<noteq> h))"
proof (induction d h key i rule: find_slot.induct)
  case (1 d h key i)
  show ?case
  proof (cases "i < d_size d \<and> \<not> (d_key d ! i = Some key \<and> h = d_hash d ! i)")
    case True
    then have e: "find_slot d h key i = find_slot d h key (Suc i)"
      by (subst find_slot.simps) (auto split: option.splits)
    have "let r = find_slot d h key (Suc i) in
      r \<le> d_size d \<and> Suc i \<le> r \<and>
      (r < d_size d \<longrightarrow> d_key d ! r = Some key \<and> d_hash d ! r = h) \<and>
      (\<forall>j. Suc i \<le> j \<and> j < r \<longrightarrow> d_key d ! j \<noteq> Some key \<or> d_hash d ! j \<noteq> h)"
      using True "1.IH" by (cases "d_key d ! i") (auto split: if_splits)
    then show ?thesis using True unfolding e Let_def
      by (metis Suc_leD Suc_leI le_eq_less_or_eq)
  next
    case False
    then have "find_slot d h key i = i"
      by (subst find_slot.simps) auto
    then show ?thesis using False "1.prems" by auto
  qed
qed

text \<open>With the invariant, the search finds the key's slot exactly when the key is stored.\<close>

lemma find_slot_hit:
  assumes "dict_ok d" and "i < d_size d" and "d_key d ! i = Some key"
  shows "find_slot d (dictionary_hash key) key 0 = i"
proof -
  let ?r = "find_slot d (dictionary_hash key) key 0"
  have h: "d_hash d ! i = dictionary_hash key" using assms by (auto simp: dict_ok_def)
  note s = find_slot_spec [of 0 d "dictionary_hash key" key, simplified Let_def]
  have "\<not> i < ?r" using s assms h by auto
  then have "?r < d_size d" using assms(2) by simp
  then have "d_key d ! ?r = Some key" using s by auto
  then show ?thesis using assms \<open>?r < d_size d\<close> by (metis dict_ok_def option.distinct(1))
qed

lemma find_slot_miss:
  assumes "dict_ok d" and "dict_map d key = None"
  shows "find_slot d (dictionary_hash key) key 0 = d_size d"
proof (rule ccontr)
  let ?r = "find_slot d (dictionary_hash key) key 0"
  assume "?r \<noteq> d_size d"
  then have "?r < d_size d" "d_key d ! ?r = Some key"
    using find_slot_spec [of 0 d "dictionary_hash key" key, simplified Let_def] by auto
  then have "dict_map d key = Some (d_val d ! ?r)"
    using dict_map_Some_iff [OF assms(1)] by blast
  with assms(2) show False by simp
qed

lemma dict_map_Some_slot:
  assumes "dict_ok d" and "dict_map d key = Some v"
  shows "find_slot d (dictionary_hash key) key 0 < d_size d"
    and "d_key d ! find_slot d (dictionary_hash key) key 0 = Some key"
    and "d_val d ! find_slot d (dictionary_hash key) key 0 = v"
  using assms dict_map_Some_iff [OF assms(1), of key v] find_slot_hit [OF assms(1)] by auto

section \<open>Every operation keeps the invariant and implements the map\<close>

lemma dictionary_get_spec: "dict_ok d \<Longrightarrow> dictionary_get d key = dict_map d key"
  using find_slot_miss [of d key] dict_map_Some_slot [of d key]
  by (cases "dict_map d key") (auto simp: dictionary_get_def Let_def)

lemma dictionary_new_ok: "dict_ok (dictionary_new sz)"
  by (auto simp: dictionary_new_def dict_ok_def Let_def)

lemma dictionary_new_map: "dict_map (dictionary_new sz) = Map.empty"
  by (rule map_eqI, unfold dict_map_Some_iff [OF dictionary_new_ok])
     (auto simp: dictionary_new_def Let_def)

lemma dictionary_grow_ok:
  assumes "dict_ok d"
  shows "dict_ok (dictionary_grow d)" and "dict_map (dictionary_grow d) = dict_map d"
proof -
  have at: "i < 2 * d_size d \<Longrightarrow> d_key (dictionary_grow d) ! i = (if i < d_size d then d_key d ! i else None)"
    and "i < 2 * d_size d \<Longrightarrow> d_val (dictionary_grow d) ! i = (if i < d_size d then d_val d ! i else None)"
    and "i < d_size d \<Longrightarrow> d_hash (dictionary_grow d) ! i = d_hash d ! i" for i
    using assms by (simp_all add: dictionary_grow_def mem_double_def nth_append dict_ok_def)
  note at = this
  have sz: "d_size (dictionary_grow d) = 2 * d_size d"
    by (simp add: dictionary_grow_def)
  show ok: "dict_ok (dictionary_grow d)"
    unfolding dict_ok_def sz
  proof (intro conjI allI impI)
    show "d_n (dictionary_grow d) = length (filter (\<lambda>k. k \<noteq> None) (d_key (dictionary_grow d)))"
      using assms by (simp add: dictionary_grow_def mem_double_def dict_ok_def)
  qed (use assms at in \<open>auto simp: dict_ok_def dictionary_grow_def mem_double_def split: if_splits\<close>)
  show "dict_map (dictionary_grow d) = dict_map d"
  proof (rule map_eqI)
    fix k v
    show "dict_map (dictionary_grow d) k = Some v \<longleftrightarrow> dict_map d k = Some v"
      unfolding dict_map_Some_iff [OF ok] dict_map_Some_iff [OF assms] sz
    proof
      assume "\<exists>i < 2 * d_size d. d_key (dictionary_grow d) ! i = Some k \<and> d_val (dictionary_grow d) ! i = v"
      then show "\<exists>i < d_size d. d_key d ! i = Some k \<and> d_val d ! i = v"
        using at by (auto split: if_splits)
    next
      assume "\<exists>i < d_size d. d_key d ! i = Some k \<and> d_val d ! i = v"
      then obtain i where "i < d_size d" "d_key d ! i = Some k" "d_val d ! i = v" by blast
      then show "\<exists>i < 2 * d_size d. d_key (dictionary_grow d) ! i = Some k \<and> d_val (dictionary_grow d) ! i = v"
        using at [of i] by (intro exI [of _ i]) simp
    qed
  qed
qed

lemma probe_free_hits:
  "i < d_size d \<Longrightarrow> m < fuel \<Longrightarrow> d_key d ! ((i + m) mod d_size d) = None \<Longrightarrow>
   \<exists>r < d_size d. probe_free fuel d i = Some r \<and> d_key d ! r = None"
proof (induction fuel d i arbitrary: m rule: probe_free.induct)
  case (2 fuel d i)
  show ?case
  proof (cases "d_key d ! i = None")
    case True
    then show ?thesis using "2.prems" by auto
  next
    case False
    then obtain m' where m: "m = Suc m'" using "2.prems" by (cases m) auto
    let ?i = "if Suc i = d_size d then 0 else Suc i"
    have "(?i + m') mod d_size d = (i + m) mod d_size d"
    proof (cases "Suc i = d_size d")
      case True
      then have "i + m = m' + d_size d" using m by simp
      then show ?thesis using True by simp
    qed (simp add: m)
    then have "\<exists>r < d_size d. probe_free fuel d ?i = Some r \<and> d_key d ! r = None"
      using False "2.prems" m by (intro "2.IH") auto
    then show ?thesis using False "2.prems"(1) by auto
  qed
qed simp

lemma probe_free_terminates:
  assumes "dict_ok d" and "d_n d < d_size d"
  shows "\<exists>r < d_size d. probe_free (d_size d) d (d_n d) = Some r \<and> d_key d ! r = None"
proof -
  obtain j where j: "j < d_size d" "d_key d ! j = None"
    using assms length_filter_less_ex [of "\<lambda>k. k \<noteq> None" "d_key d"] by (auto simp: dict_ok_def)
  have "(d_n d + (j + d_size d - d_n d)) mod d_size d = j"
    using assms(2) j(1) by simp
  then have "(d_n d + (j + d_size d - d_n d) mod d_size d) mod d_size d = j"
    by (simp add: mod_add_right_eq)
  then show ?thesis
    using probe_free_hits [of "d_n d" d "(j + d_size d - d_n d) mod d_size d" "d_size d"] assms j
    by auto
qed

text \<open>A change of one slot changes the map at the slot's keys only.\<close>

lemma dict_map_change_slot:
  assumes ok: "dict_ok d" and ok': "dict_ok d'" and sz: "d_size d' = d_size d" and i: "i < d_size d"
    and same: "\<And>j. j < d_size d \<Longrightarrow> j \<noteq> i \<Longrightarrow> d_key d' ! j = d_key d ! j \<and> d_val d' ! j = d_val d ! j"
  shows "dict_map d' k = (if d_key d' ! i = Some k then Some (d_val d' ! i)
                          else if d_key d ! i = Some k then None else dict_map d k)"
proof -
  have inj: "j = i" if "j < d_size d" "d_key d ! i = Some k" "d_key d ! j = Some k" for j
    using ok i that by (metis dict_ok_def option.distinct(1))
  consider "d_key d' ! i = Some k" | "d_key d' ! i \<noteq> Some k" "d_key d ! i = Some k"
    | "d_key d' ! i \<noteq> Some k" "d_key d ! i \<noteq> Some k" by blast
  then show ?thesis
  proof cases
    case 1
    then show ?thesis using dict_map_Some_iff [OF ok'] i sz by auto
  next
    case 2
    then have "dict_map d' k \<noteq> Some v" for v
      unfolding dict_map_Some_iff [OF ok'] sz using inj same by metis
    with 2 show ?thesis by (auto intro: ccontr)
  next
    case 3
    then have "dict_map d' k = Some v \<longleftrightarrow> dict_map d k = Some v" for v
      unfolding dict_map_Some_iff [OF ok'] dict_map_Some_iff [OF ok] sz using same by metis
    then have "dict_map d' k = dict_map d k" by (metis not_None_eq)
    with 3 show ?thesis by simp
  qed
qed

lemma overwrite_ok:
  assumes "dict_ok d" and "i < d_size d" and "d_key d ! i = Some key"
  shows "dict_ok (d\<lparr>d_val := (d_val d)[i := v]\<rparr>)"
    and "dict_map (d\<lparr>d_val := (d_val d)[i := v]\<rparr>) = (dict_map d)(key \<mapsto> v)"
proof -
  show ok: "dict_ok (d\<lparr>d_val := (d_val d)[i := v]\<rparr>)"
    using assms by (auto simp: dict_ok_def)
  show "dict_map (d\<lparr>d_val := (d_val d)[i := v]\<rparr>) = (dict_map d)(key \<mapsto> v)"
    using dict_map_change_slot [OF assms(1) ok _ assms(2)] assms
    by (intro ext) (simp add: dict_ok_def)
qed

lemma insert_ok:
  assumes ok: "dict_ok d" and i: "i < d_size d" "d_key d ! i = None" and new: "dict_map d key = None"
    and d': "d' = d\<lparr>d_key := (d_key d)[i := Some key], d_val := (d_val d)[i := v],
                  d_hash := (d_hash d)[i := dictionary_hash key], d_n := Suc (d_n d)\<rparr>"
  shows "dict_ok d'" and "dict_map d' = (dict_map d)(key \<mapsto> v)"
proof -
  have f: "d_key d ! j \<noteq> Some key" if "j < d_size d" for j
    using new dict_map_Some_iff [OF ok, of key] that by auto
  have fresh: "d_key d ! j \<noteq> Some key" "Some key \<noteq> d_key d ! j" if "j < d_size d" for j
    using f [OF that] by simp_all
  have cnt: "length (filter (\<lambda>k. k \<noteq> None) ((d_key d)[i := Some key])) = Suc (d_n d)"
    using length_filter_list_update [of i "d_key d" "\<lambda>k. k \<noteq> None" "Some key"] ok i
    by (simp add: dict_ok_def)
  show ok': "dict_ok d'"
    using ok i fresh cnt unfolding dict_ok_def d'
    by (auto simp: nth_list_update split: if_splits)
  show "dict_map d' = (dict_map d)(key \<mapsto> v)"
    using dict_map_change_slot [OF ok ok' _ i(1)] ok i
    by (intro ext) (simp add: d' dict_ok_def)
qed

lemma dictionary_set_spec:
  assumes ok: "dict_ok d"
  shows "grow_ok \<or> d_n d < d_size d \<or> dict_map d key \<noteq> None \<Longrightarrow>
      \<exists>d'. dictionary_set grow_ok (Some d) (Some key) v = Some (0, Some d') \<and>
        dict_ok d' \<and> dict_map d' = (dict_map d)(key \<mapsto> v)"
proof -
  assume room: "grow_ok \<or> d_n d < d_size d \<or> dict_map d key \<noteq> None"
  let ?s = "if 0 < d_n d then find_slot d (dictionary_hash key) key 0 else d_size d"
  show ?thesis
  proof (cases "dict_map d key")
    case (Some v0)
    note s = dict_map_Some_slot [OF ok Some]
    have "0 < d_n d"
    proof (rule ccontr)
      assume "\<not> 0 < d_n d"
      then have "filter (\<lambda>k. k \<noteq> None) (d_key d) = []" using ok by (simp add: dict_ok_def)
      then have "d_key d ! find_slot d (dictionary_hash key) key 0 = None"
        using s(1) ok by (metis (mono_tags, lifting) dict_ok_def filter_empty_conv nth_mem)
      with s(2) show False by simp
    qed
    then have "dictionary_set grow_ok (Some d) (Some key) v =
        Some (0, Some (d\<lparr>d_val := (d_val d)[find_slot d (dictionary_hash key) key 0 := v]\<rparr>))"
      using s by (simp add: dictionary_set_def Let_def)
    then show ?thesis using overwrite_ok [OF ok s(1,2)] by simp
  next
    case None
    define e where "e = (if d_n d = d_size d then dictionary_grow d else d)"
    have le: "d_n d \<le> d_size d" using ok by (metis dict_ok_def length_filter_le)
    have e: "dict_ok e" "dict_map e = dict_map d" "d_n e < d_size e" "d_n e = d_n d"
      using dictionary_grow_ok [OF ok] ok le by (auto simp: e_def dictionary_grow_def dict_ok_def)
    obtain r where r: "r < d_size e" "probe_free (d_size e) e (d_n e) = Some r" "d_key e ! r = None"
      using probe_free_terminates [OF e(1,3)] by blast
    have miss: "find_slot d (dictionary_hash key) key 0 = d_size d"
      by (rule find_slot_miss [OF ok None])
    have grow: "\<not> (d_n d = d_size d \<and> \<not> grow_ok)" using room None by auto
    define d' where "d' = e\<lparr>d_key := (d_key e)[r := Some key], d_val := (d_val e)[r := v],
                           d_hash := (d_hash e)[r := dictionary_hash key], d_n := Suc (d_n e)\<rparr>"
    have "dictionary_set grow_ok (Some d) (Some key) v = Some (0, Some d')"
    proof (cases "d_n d = d_size d")
      case True
      then have "e = dictionary_grow d" by (simp add: e_def)
      moreover have "0 < d_size d" using ok by (auto simp: dict_ok_def)
      ultimately show ?thesis
        using True miss grow r(2) by (simp add: dictionary_set_def Let_def d'_def)
    next
      case False
      then have "e = d" by (simp add: e_def)
      then show ?thesis
        using False miss grow r(2) by (simp add: dictionary_set_def Let_def d'_def)
    qed
    moreover have "dict_map e key = None" using None e(2) by simp
    ultimately show ?thesis
      using insert_ok [OF e(1) r(1,3) _ d'_def] e(2) by auto
  qed
qed

lemma dictionary_unset_spec:
  assumes ok: "dict_ok d"
  shows "dict_ok (dictionary_unset d (Some key))"
    and "dict_map (dictionary_unset d (Some key)) = (dict_map d)(key := None)"
proof -
  let ?d = "dictionary_unset d (Some key)"
  have "dict_ok ?d \<and> dict_map ?d = (dict_map d)(key := None)"
  proof (cases "dict_map d key")
    case None
    then have "?d = d"
      using find_slot_miss [OF ok None] by (simp add: dictionary_unset_def)
    with ok None show ?thesis by auto
  next
    case (Some v)
    let ?i = "find_slot d (dictionary_hash key) key 0"
    note s = dict_map_Some_slot [OF ok Some]
    have d: "?d = d\<lparr>d_key := (d_key d)[?i := None], d_val := (d_val d)[?i := None],
                     d_hash := (d_hash d)[?i := 0], d_n := d_n d - 1\<rparr>"
      using s by (simp add: dictionary_unset_def Let_def)
    have cnt: "length (filter (\<lambda>k. k \<noteq> None) ((d_key d)[?i := None])) = d_n d - 1"
      using length_filter_list_update [of ?i "d_key d" "\<lambda>k. k \<noteq> None" None] ok s
      by (simp add: dict_ok_def)
    have ok': "dict_ok ?d"
      using ok cnt s unfolding dict_ok_def d by (auto simp: nth_list_update split: if_splits)
    moreover have "dict_map ?d = (dict_map d)(key := None)"
      using dict_map_change_slot [OF ok ok' _ s(1)] ok s
      by (intro ext) (simp add: d dict_ok_def)
    ultimately show ?thesis ..
  qed
  then show "dict_ok ?d" "dict_map ?d = (dict_map d)(key := None)" by simp_all
qed

section \<open>The interface of the string map\<close>

text \<open>
  What the parser relies on: a map with insertion, removal and lookup, an invariant kept by
  every operation, and an insertion that always returns. The laws are stated once; the
  clients' facts about sequences of operations are proved from them.
\<close>

locale string_map =
  fixes new :: "nat \<Rightarrow> 'd"
    and get :: "'d \<Rightarrow> string \<Rightarrow> 'v option"
    and put :: "'d \<Rightarrow> string \<Rightarrow> 'v \<Rightarrow> 'd option"
    and unset :: "'d \<Rightarrow> string \<Rightarrow> 'd"
    and ok :: "'d \<Rightarrow> bool"
    and abs :: "'d \<Rightarrow> string \<rightharpoonup> 'v"
  assumes new_ok: "ok (new n)"
    and new_abs: "abs (new n) = Map.empty"
    and get_abs: "ok d \<Longrightarrow> get d k = abs d k"
    and put_ok: "ok d \<Longrightarrow> \<exists>d'. put d k v = Some d' \<and> ok d' \<and> abs d' = (abs d)(k \<mapsto> v)"
    and unset_ok: "ok d \<Longrightarrow> ok (unset d k)"
    and unset_abs: "ok d \<Longrightarrow> abs (unset d k) = (abs d)(k := None)"
begin

lemma put_all:
  "ok d \<Longrightarrow> \<exists>d'. fold_opt (\<lambda>(k, v) d. put d k v) kvs d = Some d' \<and> ok d' \<and>
                 abs d' = abs d ++ map_of (rev kvs)"
proof (induction kvs arbitrary: d)
  case (Cons kv kvs)
  obtain k v where kv: "kv = (k, v)" by fastforce
  obtain d1 where d1: "put d k v = Some d1" "ok d1" "abs d1 = (abs d)(k \<mapsto> v)"
    using put_ok [OF Cons.prems] by blast
  obtain d' where d': "fold_opt (\<lambda>(k, v) d. put d k v) kvs d1 = Some d'" "ok d'"
      "abs d' = abs d1 ++ map_of (rev kvs)"
    using Cons.IH [OF d1(2)] by blast
  have "fold_opt (\<lambda>(k, v) d. put d k v) (kv # kvs) d = Some d'"
    using d1(1) d'(1) by (simp add: kv)
  moreover have "abs d' = abs d ++ map_of (rev (kv # kvs))"
    unfolding d'(3) d1(3) kv by simp
  ultimately show ?case using d'(2) by blast
qed simp

text \<open>A sequence of insertions (\<open>Some v\<close>) and removals (\<open>None\<close>) acts on the map pointwise.\<close>

lemma run_ops:
  "ok d \<Longrightarrow>
   \<exists>d'. fold_opt (\<lambda>(k, u) d. case u of Some v \<Rightarrow> put d k v | None \<Rightarrow> Some (unset d k)) ops d = Some d'
     \<and> ok d' \<and> abs d' = fold (\<lambda>(k, u) m. m(k := u)) ops (abs d)"
proof (induction ops arbitrary: d)
  case (Cons op ops)
  obtain k u where op: "op = (k, u)" by fastforce
  show ?case
  proof (cases u)
    case None
    then show ?thesis using Cons.IH [OF unset_ok [OF Cons.prems]] unset_abs [OF Cons.prems] op by simp
  next
    case (Some v)
    obtain d1 where "put d k v = Some d1" "ok d1" "abs d1 = (abs d)(k \<mapsto> v)"
      using put_ok [OF Cons.prems] by blast
    then show ?thesis using Cons.IH [of d1] op Some by simp
  qed
qed simp

lemma get_after_ops:
  "\<exists>d'. fold_opt (\<lambda>(k, u) d. case u of Some v \<Rightarrow> put d k v | None \<Rightarrow> Some (unset d k)) ops (new n) = Some d'
     \<and> ok d' \<and> (\<forall>k. get d' k = fold (\<lambda>(k, u) m. m(k := u)) ops Map.empty k)"
  using run_ops [OF new_ok [of n], of ops] get_abs new_abs [of n] by auto

end

text \<open>The dictionary of the code with memory available provides the interface.\<close>

definition dict_put :: "dictionary \<Rightarrow> string \<Rightarrow> string option \<Rightarrow> dictionary option" where
  "dict_put d key val =
     (case dictionary_set True (Some d) (Some key) val of
        Some (r, Some d') \<Rightarrow> if r = 0 then Some d' else None
      | _ \<Rightarrow> None)"

definition dict_del_key :: "dictionary \<Rightarrow> string \<Rightarrow> dictionary" where
  "dict_del_key d key = dictionary_unset d (Some key)"

interpretation dm: string_map dictionary_new dictionary_get dict_put dict_del_key dict_ok dict_map
proof unfold_locales
  fix d k v
  assume "dict_ok d"
  from dictionary_set_spec [OF this, of True k v]
  show "\<exists>d'. dict_put d k v = Some d' \<and> dict_ok d' \<and> dict_map d' = (dict_map d)(k \<mapsto> v)"
    by (auto simp: dict_put_def)
qed (simp_all add: dictionary_new_ok dictionary_new_map dictionary_get_spec dict_del_key_def
      dictionary_unset_spec)

section \<open>Properties\<close>

definition dict_run :: "(string \<times> string option option) list \<Rightarrow> dictionary \<Rightarrow> dictionary option" where
  "dict_run ops =
     fold_opt (\<lambda>(k, u) d. case u of Some v \<Rightarrow> dict_put d k v | None \<Rightarrow> Some (dict_del_key d k)) ops"

text \<open>
  C4. Functional refinement of the dictionary by a map: whatever sequence of
  \<open>dictionary_set\<close> (with a value or with NULL) and \<open>dictionary_unset\<close> follows
  \<open>dictionary_new\<close>, every call returns, the arrays stay consistent, and
  \<open>dictionary_get\<close> answers for every key what the last operation on it left, through hash
  collisions, overwritten slots, freed slots and doublings of the arrays.
\<close>

theorem dictionary_refines_map:
  "\<exists>d. dict_run ops (dictionary_new sz) = Some d \<and> dict_ok d \<and>
       (\<forall>k. dictionary_get d k = fold (\<lambda>(k, u) m. m(k := u)) ops Map.empty k)"
  unfolding dict_run_def by (rule dm.get_after_ops)

text \<open>
  Error branches and termination of \<open>dictionary_set\<close> on a consistent dictionary: the
  call always returns; it returns -1 exactly when the arrays are full, the key is new and
  the doubling fails, and the arrays are then lost; otherwise it returns 0 and stores the
  value, growing only when needed.
\<close>

lemma dictionary_set_returns:
  assumes "dict_ok d"
  shows "if \<not> grow_ok \<and> d_n d = d_size d \<and> dict_map d key = None
         then dictionary_set grow_ok (Some d) (Some key) v = Some (-1, None)
         else \<exists>d'. dictionary_set grow_ok (Some d) (Some key) v = Some (0, Some d') \<and>
                dict_ok d' \<and> dict_map d' = (dict_map d)(key \<mapsto> v)"
proof (cases "\<not> grow_ok \<and> d_n d = d_size d \<and> dict_map d key = None")
  case True
  then have "dictionary_set grow_ok (Some d) (Some key) v = Some (-1, None)"
    using find_slot_miss [OF assms, of key] by (simp add: dictionary_set_def Let_def)
  with True show ?thesis by simp
next
  case False
  moreover have "d_n d \<le> d_size d" using assms by (metis dict_ok_def length_filter_le)
  ultimately show ?thesis using dictionary_set_spec [OF assms, of grow_ok key v] by auto
qed

end
