(* ===== verification/Ini_Parser.thy ===== *)
theory Ini_Parser
  imports Ini_Dictionary "HOL-Library.Char_ord"
begin

text \<open>
  \<open>iniparser/src/iniparser.c\<close>: the configuration file reader. A pointer to a value stored in
  the dictionary, which may be NULL, is a \<open>string option\<close>. A function of the file that would
  run into undefined behaviour of C (a read before the start of the line buffer, a write past
  the end of an allocation, a NULL string passed to \<open>strtol\<close>) returns \<open>None\<close> or \<open>Undefined\<close>.
  Memory allocation succeeds, except that \<open>grow_ok\<close> tells whether the dictionary can grow.
\<close>

section \<open>Characters and strings\<close>

definition lf :: char where "lf = CHR 0x0A"

definition isspace :: "char \<Rightarrow> bool" where
  "isspace c \<longleftrightarrow> c \<in> {CHR '' '', CHR 0x09, CHR 0x0A, CHR 0x0B, CHR 0x0C, CHR 0x0D}"

definition tolower :: "char \<Rightarrow> char" where
  "tolower c = (let n = of_char c :: nat in if 65 \<le> n \<and> n \<le> 90 then char_of (n + 32) else c)"

definition strlwc :: "string \<Rightarrow> string" where
  "strlwc s = map tolower s"

definition strstrip :: "string \<Rightarrow> string" where
  "strstrip s = rev (dropWhile isspace (rev (dropWhile isspace s)))"

section \<open>Accessors\<close>

definition iniparser_getnsec :: "dictionary option \<Rightarrow> int" where
  "iniparser_getnsec dp =
     (case dp of None \<Rightarrow> -1
      | Some d \<Rightarrow> int (length (filter (\<lambda>i. case d_key d ! i of None \<Rightarrow> False | Some k \<Rightarrow> CHR '':'' \<notin> set k)
                          [0..<d_size d])))"

fun secname_loop :: "string option list \<Rightarrow> int \<Rightarrow> int \<Rightarrow> string option" where
  "secname_loop [] foundsec n = None"
| "secname_loop (None # ks) foundsec n = secname_loop ks foundsec n"
| "secname_loop (Some k # ks) foundsec n =
     (if CHR '':'' \<notin> set k then
        (if foundsec + 1 > n then Some k else secname_loop ks (foundsec + 1) n)
      else secname_loop ks foundsec n)"

definition iniparser_getsecname :: "dictionary option \<Rightarrow> int \<Rightarrow> string option" where
  "iniparser_getsecname dp n =
     (case dp of None \<Rightarrow> None
      | Some d \<Rightarrow> if n < 0 then None else secname_loop (d_key d) 0 n)"

definition iniparser_dump :: "dictionary option \<Rightarrow> string" where
  "iniparser_dump dp =
     (case dp of None \<Rightarrow> []
      | Some d \<Rightarrow> concat (map (\<lambda>i. case d_key d ! i of None \<Rightarrow> []
          | Some k \<Rightarrow> (case d_val d ! i of
                Some v \<Rightarrow> ''['' @ k @ '']=['' @ v @ '']'' @ [lf]
              | None \<Rightarrow> ''['' @ k @ '']=UNDEF'' @ [lf])) [0..<d_size d]))"

text \<open>The caller's default pointer is \<open>None\<close>; \<open>Some None\<close> is a stored NULL.\<close>

definition iniparser_getstring :: "dictionary option \<Rightarrow> string option \<Rightarrow> string option option" where
  "iniparser_getstring dp keyp =
     (case (dp, keyp) of
        (Some d, Some key) \<Rightarrow> dictionary_get d (strlwc key)
      | _ \<Rightarrow> None)"

definition iniparser_find_entry :: "dictionary option \<Rightarrow> string option \<Rightarrow> bool" where
  "iniparser_find_entry ini entry \<longleftrightarrow> iniparser_getstring ini entry \<noteq> None"

text \<open>\<open>strncmp(key, "s:", strlen(s) + 1) == 0\<close>\<close>

definition in_section :: "string \<Rightarrow> string \<Rightarrow> bool" where
  "in_section s key \<longleftrightarrow> take (length s + 1) key = s @ '':''"

definition iniparser_getsecnkeys :: "dictionary option \<Rightarrow> string \<Rightarrow> nat" where
  "iniparser_getsecnkeys dp s =
     (case dp of None \<Rightarrow> 0
      | Some d \<Rightarrow> if \<not> iniparser_find_entry dp (Some s) then 0
                 else length (filter (\<lambda>j. case d_key d ! j of None \<Rightarrow> False | Some k \<Rightarrow> in_section s k)
                        [0..<d_size d]))"

fun seckeys_loop :: "string \<Rightarrow> string option list \<Rightarrow> string list \<Rightarrow> nat \<Rightarrow> string list option" where
  "seckeys_loop s [] keys i = Some keys"
| "seckeys_loop s (None # ks) keys i = seckeys_loop s ks keys i"
| "seckeys_loop s (Some k # ks) keys i =
     (if in_section s k then
        (if i < length keys then seckeys_loop s ks (keys[i := k]) (Suc i) else None)
      else seckeys_loop s ks keys i)"

text \<open>The array of \<open>nkeys\<close> pointers is allocated uninitialised (here empty strings) and filled.\<close>

definition iniparser_getseckeys :: "dictionary option \<Rightarrow> string \<Rightarrow> string list option option" where
  "iniparser_getseckeys dp s =
     (case dp of None \<Rightarrow> Some None
      | Some d \<Rightarrow> if \<not> iniparser_find_entry dp (Some s) then Some None
                 else map_option Some
                   (seckeys_loop s (d_key d) (replicate (iniparser_getsecnkeys dp s) []) 0))"

definition iniparser_dumpsection_ini :: "dictionary \<Rightarrow> string \<Rightarrow> string" where
  "iniparser_dumpsection_ini d s =
     (if \<not> iniparser_find_entry (Some d) (Some s) then []
      else [lf] @ ''['' @ s @ '']'' @ [lf] @
        concat (map (\<lambda>j. case d_key d ! j of None \<Rightarrow> []
          | Some k \<Rightarrow> if in_section s k then
               (let name = drop (length s + 1) k
                in name @ replicate (30 - length name) CHR '' '' @ '' = '' @
                   (case d_val d ! j of Some v \<Rightarrow> v | None \<Rightarrow> []) @ [lf])
             else []) [0..<d_size d]) @ [lf])"

definition iniparser_dump_ini :: "dictionary option \<Rightarrow> string option" where
  "iniparser_dump_ini dp =
     (case dp of None \<Rightarrow> Some []
      | Some d \<Rightarrow>
          (let nsec = iniparser_getnsec dp
           in if nsec < 1 then
                fold_opt (\<lambda>i out. case d_key d ! i of None \<Rightarrow> Some out
                  | Some k \<Rightarrow> (case d_val d ! i of None \<Rightarrow> None
                                | Some v \<Rightarrow> Some (out @ k @ '' = '' @ v @ [lf]))) [0..<d_size d] []
              else map_option (\<lambda>out. out @ [lf])
                (fold_opt (\<lambda>i out. case iniparser_getsecname dp (int i) of None \<Rightarrow> None
                  | Some s \<Rightarrow> Some (out @ iniparser_dumpsection_ini d s)) [0..<nat nsec] [])))"

text \<open>\<open>strtol(s, NULL, 0)\<close> on 64-bit \<open>long\<close>, clamped as the C library does.\<close>

definition digit_val :: "char \<Rightarrow> nat" where
  "digit_val c = (let n = of_char c :: nat in
     if 48 \<le> n \<and> n \<le> 57 then n - 48
     else if 97 \<le> n \<and> n \<le> 122 then n - 87
     else if 65 \<le> n \<and> n \<le> 90 then n - 55 else 99)"

fun strtol_digits :: "nat \<Rightarrow> string \<Rightarrow> nat \<Rightarrow> nat" where
  "strtol_digits base [] v = v"
| "strtol_digits base (c # s) v =
     (if digit_val c < base then strtol_digits base s (v * base + digit_val c) else v)"

definition strtol_unsigned :: "string \<Rightarrow> nat" where
  "strtol_unsigned s =
     (case s of
        z # x # h # r \<Rightarrow>
          if z = CHR ''0'' \<and> (x = CHR ''x'' \<or> x = CHR ''X'') \<and> digit_val h < 16
          then strtol_digits 16 (h # r) 0
          else if z = CHR ''0'' then strtol_digits 8 s 0 else strtol_digits 10 s 0
      | z # r \<Rightarrow> if z = CHR ''0'' then strtol_digits 8 s 0 else strtol_digits 10 s 0
      | [] \<Rightarrow> 0)"

definition strtol0 :: "string \<Rightarrow> int" where
  "strtol0 str =
     (let s = dropWhile isspace str;
          v = (case s of
                 c # r \<Rightarrow> if c = CHR ''-'' then - int (strtol_unsigned r)
                          else if c = CHR ''+'' then int (strtol_unsigned r)
                          else int (strtol_unsigned s)
               | [] \<Rightarrow> 0)
      in max (- (2 ^ 63)) (min (2 ^ 63 - 1) v))"

definition iniparser_getint :: "dictionary option \<Rightarrow> string option \<Rightarrow> int \<Rightarrow> int option" where
  "iniparser_getint dp key notfound =
     (case iniparser_getstring dp key of
        None \<Rightarrow> Some notfound
      | Some None \<Rightarrow> None
      | Some (Some str) \<Rightarrow> Some (signed_take_bit 31 (strtol0 str)))"

definition iniparser_getboolean :: "dictionary option \<Rightarrow> string option \<Rightarrow> int \<Rightarrow> int option" where
  "iniparser_getboolean dp key notfound =
     (case iniparser_getstring dp key of
        None \<Rightarrow> Some notfound
      | Some None \<Rightarrow> None
      | Some (Some c) \<Rightarrow> Some (
          if c \<noteq> [] \<and> hd c \<in> set ''yY1tT'' then 1
          else if c \<noteq> [] \<and> hd c \<in> set ''nN0fF'' then 0
          else notfound))"

definition iniparser_set ::
  "bool \<Rightarrow> dictionary option \<Rightarrow> string \<Rightarrow> string option \<Rightarrow> (int \<times> dictionary option) option" where
  "iniparser_set grow_ok ini entry val = dictionary_set grow_ok ini (Some (strlwc entry)) val"

definition iniparser_unset :: "dictionary \<Rightarrow> string \<Rightarrow> dictionary" where
  "iniparser_unset ini entry = dictionary_unset ini (Some (strlwc entry))"

section \<open>Lines\<close>

datatype line_status =
  LINE_ERROR | LINE_EMPTY | LINE_COMMENT | LINE_SECTION string | LINE_VALUE string string

text \<open>The directives of \<open>sscanf\<close> the parser uses: a set, blanks, a literal character.\<close>

definition scan_set :: "(char \<Rightarrow> bool) \<Rightarrow> string \<Rightarrow> (string \<times> string) option" where
  "scan_set P s = (if takeWhile P s = [] then None else Some (takeWhile P s, dropWhile P s))"

definition scan_ws :: "string \<Rightarrow> string" where
  "scan_ws s = dropWhile isspace s"

definition scan_lit :: "char \<Rightarrow> string \<Rightarrow> string option" where
  "scan_lit c s = (case s of x # r \<Rightarrow> if x = c then Some r else None | [] \<Rightarrow> None)"

text \<open>The common prefix: the key, an equals sign, blanks.\<close>

definition scan_key :: "string \<Rightarrow> (string \<times> string) option" where
  "scan_key line = do {
     (key, r) \<leftarrow> scan_set (\<lambda>c. c \<noteq> CHR ''='') line;
     r \<leftarrow> scan_lit (CHR ''='') (scan_ws r);
     Some (key, scan_ws r)
   }"

definition scan_quoted :: "char \<Rightarrow> string \<Rightarrow> (string \<times> string) option" where
  "scan_quoted q line = do {
     (key, r) \<leftarrow> scan_key line;
     r \<leftarrow> scan_lit q r;
     (val, _) \<leftarrow> scan_set (\<lambda>c. c \<noteq> q) r;
     Some (key, val)
   }"

definition scan_plain :: "string \<Rightarrow> (string \<times> string) option" where
  "scan_plain line = do {
     (key, r) \<leftarrow> scan_key line;
     (val, _) \<leftarrow> scan_set (\<lambda>c. c \<noteq> CHR '';'' \<and> c \<noteq> CHR ''#'') r;
     Some (key, val)
   }"

definition scan_no_value :: "string \<Rightarrow> string option" where
  "scan_no_value line =
     (case do { (key, r) \<leftarrow> scan_key line;
                (val, _) \<leftarrow> scan_set (\<lambda>c. c = CHR '';'' \<or> c = CHR ''#'') r; Some key } of
        Some key \<Rightarrow> Some key
      | None \<Rightarrow> do { (key, r) \<leftarrow> scan_set (\<lambda>c. c \<noteq> CHR ''='') line;
                     (val, _) \<leftarrow> scan_set (\<lambda>c. c = CHR ''='') (scan_ws r); Some key })"

definition scan_value :: "string \<Rightarrow> (string \<times> string) option" where
  "scan_value line =
     (case scan_quoted (CHR 0x22) line of Some kv \<Rightarrow> Some kv
      | None \<Rightarrow> (case scan_quoted (CHR 0x27) line of Some kv \<Rightarrow> Some kv
                  | None \<Rightarrow> scan_plain line))"

text \<open>
  \<open>key\<close> holds \<open>equals - line + 1\<close> bytes when the line has an equals sign, so a section name
  longer than that is written past its end: the result is then \<open>None\<close>.
\<close>

definition iniparser_line :: "string \<Rightarrow> line_status option" where
  "iniparser_line input_line =
     (let line = strstrip input_line;
          has_equals = CHR ''='' \<in> set line;
          equals = length (takeWhile (\<lambda>c. c \<noteq> CHR ''='') line)
      in if line = [] then Some LINE_EMPTY
         else if hd line = CHR ''#'' \<or> hd line = CHR '';'' then Some LINE_COMMENT
         else if hd line = CHR ''['' \<and> last line = CHR '']'' then
           (let key = takeWhile (\<lambda>c. c \<noteq> CHR '']'') (tl line)
            in if has_equals \<and> equals < length key then None
               else Some (LINE_SECTION (strlwc (strstrip key))))
         else if \<not> has_equals then Some LINE_ERROR
         else (case scan_value line of
                 Some (key, val) \<Rightarrow>
                   (let val = strstrip val;
                        val = (if val = [CHR 0x22, CHR 0x22] \<or> val = [CHR 0x27, CHR 0x27] then [] else val)
                    in Some (LINE_VALUE (strlwc (strstrip key)) val))
               | None \<Rightarrow> (case scan_no_value line of
                            Some key \<Rightarrow> Some (LINE_VALUE (strlwc (strstrip key)) [])
                          | None \<Rightarrow> Some LINE_ERROR)))"

section \<open>Files\<close>

definition ASCIILINESZ :: nat where "ASCIILINESZ = 1024"

fun fgets :: "nat \<Rightarrow> string \<Rightarrow> string \<times> string" where
  "fgets 0 s = ([], s)"
| "fgets (Suc n) [] = ([], [])"
| "fgets (Suc n) (c # s) =
     (if c = lf then ([c], s) else (let (l, r) = fgets n s in (c # l, r)))"

record ini_state =
  st_dict :: dictionary
  st_section :: string
  st_full :: "string option"
  st_errs :: int

datatype load_result = Continue ini_state | Stop ini_state | Undefined

text \<open>Storing an entry: the result of \<open>dictionary_set\<close> replaces the error count.\<close>

definition load_store :: "bool \<Rightarrow> string \<Rightarrow> string option \<Rightarrow> ini_state \<Rightarrow> load_result" where
  "load_store grow_ok key val st =
     (case dictionary_set grow_ok (Some (st_dict st)) (Some key) val of
        Some (r, Some d) \<Rightarrow>
          (let st = st\<lparr>st_dict := d, st_errs := r\<rparr> in if r < 0 then Stop st else Continue st)
      | _ \<Rightarrow> Undefined)"

definition load_status :: "bool \<Rightarrow> line_status \<Rightarrow> ini_state \<Rightarrow> load_result" where
  "load_status grow_ok sta st =
     (let st = st\<lparr>st_full := None\<rparr>
      in case sta of
           LINE_EMPTY \<Rightarrow> Continue st
         | LINE_COMMENT \<Rightarrow> Continue st
         | LINE_SECTION s \<Rightarrow> load_store grow_ok s None (st\<lparr>st_section := s\<rparr>)
         | LINE_VALUE k v \<Rightarrow> load_store grow_ok (st_section st @ '':'' @ k) (Some v) st
         | LINE_ERROR \<Rightarrow> Continue (st\<lparr>st_errs := st_errs st + 1\<rparr>))"

definition load_line :: "bool \<Rightarrow> string \<Rightarrow> ini_state \<Rightarrow> load_result" where
  "load_line grow_ok chunk st =
     (let line = takeWhile (\<lambda>c. c \<noteq> CHR 0x00) chunk;
          eof = (length chunk < ASCIILINESZ - 1 \<and> last chunk \<noteq> lf)
      in if line = [] then Undefined
         else if length line = 1 then Continue st
         else if last line \<noteq> lf \<and> \<not> eof then Stop (st\<lparr>st_errs := st_errs st + 1\<rparr>)
         else
           (let line = rev (dropWhile (\<lambda>c. c = lf \<or> isspace c) (rev line))
            in if line = [] then Undefined
               else
                 (let multi_line = (last line = CHR 0x5C);
                      line = (if multi_line then butlast line else line);
                      full_line = (case st_full st of None \<Rightarrow> [] | Some prev_line \<Rightarrow> prev_line) @ line
                  in if multi_line then Continue (st\<lparr>st_full := Some full_line\<rparr>)
                     else (case iniparser_line full_line of
                             None \<Rightarrow> Undefined
                           | Some sta \<Rightarrow> load_status grow_ok sta st))))"

lemma fgets_rest: "0 < n \<Longrightarrow> s \<noteq> [] \<Longrightarrow> length (snd (fgets n s)) < length s"
proof (induction n s rule: fgets.induct)
  case (3 n c s)
  have le: "length (snd (fgets m t)) \<le> length t" for m t
    by (induction m t rule: fgets.induct) (auto split: prod.splits)
  show ?case using le [of n s] by (auto split: prod.splits)
qed simp_all

lemma fgets_shorter: "(l, r) = fgets n s \<Longrightarrow> 0 < n \<Longrightarrow> s \<noteq> [] \<Longrightarrow> length r < length s"
  using fgets_rest [of n s] by (metis snd_conv)

function load_loop :: "bool \<Rightarrow> string \<Rightarrow> ini_state \<Rightarrow> ini_state option" where
  "load_loop grow_ok file st =
     (if file = [] then Some st
      else (let (chunk, rest) = fgets (ASCIILINESZ - 1) file
            in case load_line grow_ok chunk st of
                 Continue st' \<Rightarrow> load_loop grow_ok rest st'
               | Stop st' \<Rightarrow> Some st'
               | Undefined \<Rightarrow> None))"
  by pat_completeness auto
termination
  by (relation "measure (\<lambda>(g, s, st). length s)")
     (auto simp: ASCIILINESZ_def dest: fgets_shorter)

declare load_loop.simps [simp del]

definition iniparser_load :: "bool \<Rightarrow> string option \<Rightarrow> dictionary option option" where
  "iniparser_load grow_ok file =
     (case file of
        None \<Rightarrow> Some None
      | Some text \<Rightarrow>
          map_option (\<lambda>st. if st_errs st \<noteq> 0 then None else Some (st_dict st))
            (load_loop grow_ok text
               \<lparr>st_dict = dictionary_new 0, st_section = [], st_full = None, st_errs = 0\<rparr>))"

section \<open>Strings, lines and numbers\<close>

lemma strstrip_id: "s \<noteq> [] \<Longrightarrow> \<not> isspace (hd s) \<Longrightarrow> \<not> isspace (last s) \<Longrightarrow> strstrip s = s"
proof -
  assume s: "s \<noteq> []" "\<not> isspace (hd s)" "\<not> isspace (last s)"
  then have "dropWhile isspace s = s" by (cases s) simp_all
  moreover have "dropWhile isspace (rev s) = rev s"
    using s(1,3) by (cases "rev s") (auto simp: last_rev [of "rev s", simplified])
  ultimately show ?thesis by (simp add: strstrip_def)
qed

lemma strstrip_snoc_space: "isspace c \<Longrightarrow> dropWhile isspace s \<noteq> [] \<Longrightarrow> strstrip (s @ [c]) = strstrip s"
  by (auto simp: strstrip_def dropWhile_append dropWhile_eq_Nil_conv)

lemma fgets_line: "lf \<notin> set l \<Longrightarrow> length l < n \<Longrightarrow> fgets n (l @ lf # rest) = (l @ [lf], rest)"
proof (induction l arbitrary: n)
  case Nil
  then show ?case by (cases n) simp_all
next
  case (Cons c l)
  then show ?case by (cases n) auto
qed

lemma load_loop_line:
  assumes "lf \<notin> set l" and "length l < 1023"
  shows "load_loop g (l @ lf # rest) st =
    (case load_line g (l @ [lf]) st of
       Continue st' \<Rightarrow> load_loop g rest st' | Stop st' \<Rightarrow> Some st' | Undefined \<Rightarrow> None)"
  by (subst load_loop.simps) (simp add: ASCIILINESZ_def fgets_line assms)

lemma load_loop_Nil [simp]: "load_loop g [] st = Some st"
  by (subst load_loop.simps) simp

text \<open>A physical line that is already stripped and does not end in a backslash.\<close>

definition clean_line :: "string \<Rightarrow> bool" where
  "clean_line l \<longleftrightarrow> l \<noteq> [] \<and> \<not> isspace (hd l) \<and> \<not> isspace (last l) \<and> last l \<noteq> CHR 0x5C \<and>
     CHR 0x00 \<notin> set l \<and> lf \<notin> set l \<and> length l < 1023"

lemma clean_line_load:
  assumes "clean_line l" and "st_full st = None"
  shows "load_line g (l @ [lf]) st =
    (case iniparser_line l of None \<Rightarrow> Undefined | Some sta \<Rightarrow> load_status g sta st)"
proof -
  have nolf: "l \<noteq> []" "lf \<notin> set l" using assms(1) by (simp_all add: clean_line_def)
  have l: "l \<noteq> []" "\<not> isspace (last l)" "last l \<noteq> lf" "last l \<noteq> CHR 0x5C" "CHR 0x00 \<notin> set l"
    using assms(1) last_in_set [OF nolf(1)] nolf(2) unfolding clean_line_def by metis+
  have sp: "isspace lf" by (simp add: isspace_def lf_def)
  have "takeWhile (\<lambda>c. c \<noteq> CHR 0x00) (l @ [lf]) = l @ [lf]"
    using l(5) by (simp add: takeWhile_eq_all_conv lf_def) metis
  moreover have "rev (dropWhile (\<lambda>c. c = lf \<or> isspace c) (rev (l @ [lf]))) = l"
    using l(1-3) by (cases "rev l") (auto simp: sp last_rev [of "rev l", simplified])
  ultimately show ?thesis using l assms(2) by (simp add: load_line_def Let_def)
qed

lemma clean_line_step:
  "clean_line l \<Longrightarrow> st_full st = None \<Longrightarrow> iniparser_line l = Some sta \<Longrightarrow>
   load_loop g (l @ lf # rest) st =
     (case load_status g sta st of
        Continue st' \<Rightarrow> load_loop g rest st' | Stop st' \<Rightarrow> Some st' | Undefined \<Rightarrow> None)"
  by (subst load_loop_line) (simp_all add: clean_line_load, simp_all add: clean_line_def)

section \<open>Well-formed configurations\<close>

text \<open>
  The names and values for which a configuration text is read back literally, and its text.
\<close>

definition ini_section_name :: "string \<Rightarrow> bool" where
  "ini_section_name s \<longleftrightarrow> s \<noteq> [] \<and> \<not> isspace (hd s) \<and> \<not> isspace (last s) \<and>
     set s \<inter> {CHR 0x00, lf, CHR '']'', CHR ''=''} = {} \<and> length s < 1021"

definition ini_key_name :: "string \<Rightarrow> bool" where
  "ini_key_name k \<longleftrightarrow> k \<noteq> [] \<and> \<not> isspace (hd k) \<and> \<not> isspace (last k) \<and>
     hd k \<notin> set ''[;#'' \<and> set k \<inter> {CHR 0x00, lf, CHR ''=''} = {}"

definition ini_value :: "string \<Rightarrow> bool" where
  "ini_value v \<longleftrightarrow> v \<noteq> [] \<and> \<not> isspace (hd v) \<and> \<not> isspace (last v) \<and>
     hd v \<notin> {CHR 0x22, CHR 0x27} \<and> last v \<noteq> CHR 0x5C \<and>
     set v \<inter> {CHR 0x00, lf, CHR '';'', CHR ''#''} = {}"

definition ini_pair :: "string \<times> string \<Rightarrow> bool" where
  "ini_pair kv \<longleftrightarrow> ini_key_name (fst kv) \<and> ini_value (snd kv) \<and>
     length (fst kv) + 3 + length (snd kv) < 1023"

definition pair_line :: "string \<times> string \<Rightarrow> string" where
  "pair_line kv = fst kv @ '' = '' @ snd kv"

definition render_section :: "string \<times> (string \<times> string) list \<Rightarrow> string" where
  "render_section sec = ''['' @ fst sec @ '']'' @ [lf] @
     concat (map (\<lambda>kv. pair_line kv @ [lf]) (snd sec)) @ [lf]"

definition render :: "(string \<times> (string \<times> string) list) list \<Rightarrow> string" where
  "render cfg = concat (map render_section cfg)"

definition section_entries :: "string \<times> (string \<times> string) list \<Rightarrow> (string \<times> string option) list" where
  "section_entries sec = (strlwc (fst sec), None) #
     map (\<lambda>kv. (strlwc (fst sec) @ '':'' @ strlwc (fst kv), Some (snd kv))) (snd sec)"

definition ini_config :: "(string \<times> (string \<times> string) list) list \<Rightarrow> bool" where
  "ini_config cfg \<longleftrightarrow> list_all (\<lambda>sec. ini_section_name (fst sec) \<and> list_all ini_pair (snd sec)) cfg"

lemma section_line:
  assumes "ini_section_name s"
  shows "clean_line (''['' @ s @ '']'')" and "iniparser_line (''['' @ s @ '']'') = Some (LINE_SECTION (strlwc s))"
proof -
  have s: "takeWhile (\<lambda>c. c \<noteq> CHR '']'') (s @ '']'') = s"
    using assms by (subst takeWhile_append2) (auto simp: ini_section_name_def)
  have strip: "strstrip (''['' @ s @ '']'') = ''['' @ s @ '']''"
    by (rule strstrip_id) (simp_all add: isspace_def)
  show "clean_line (''['' @ s @ '']'')"
    using assms by (auto simp: clean_line_def ini_section_name_def isspace_def lf_def)
  have "CHR ''='' \<notin> set (''['' @ s @ '']'')" using assms by (auto simp: ini_section_name_def)
  then show "iniparser_line (''['' @ s @ '']'') = Some (LINE_SECTION (strlwc s))"
    unfolding iniparser_line_def strip Let_def
    using assms s strstrip_id [of s] by (simp add: ini_section_name_def)
qed

lemma pair_line_ok:
  assumes "ini_pair kv"
  shows "clean_line (pair_line kv)"
    and "iniparser_line (pair_line kv) = Some (LINE_VALUE (strlwc (fst kv)) (snd kv))"
proof -
  obtain k v where kv: "kv = (k, v)" by fastforce
  have k: "k \<noteq> []" "\<not> isspace (hd k)" "\<not> isspace (last k)" "CHR ''='' \<notin> set k" "hd k \<notin> set ''[;#''"
    and v: "v \<noteq> []" "\<not> isspace (hd v)" "\<not> isspace (last v)" "hd v \<noteq> CHR 0x22" "hd v \<noteq> CHR 0x27"
      "CHR '';'' \<notin> set v" "CHR ''#'' \<notin> set v"
    using assms by (auto simp: kv ini_pair_def ini_key_name_def ini_value_def)
  show "clean_line (pair_line kv)"
    using assms by (auto simp: clean_line_def kv ini_pair_def ini_key_name_def ini_value_def
        pair_line_def lf_def)
  have strip: "strstrip (pair_line kv) = pair_line kv"
    using k(1,2) v(1,3) by (intro strstrip_id) (simp_all add: pair_line_def kv)
  have tw: "takeWhile (\<lambda>c. c \<noteq> CHR ''='') (k @ CHR '' '' # CHR ''='' # r) = k @ '' ''"
    and dw: "dropWhile (\<lambda>c. c \<noteq> CHR ''='') (k @ CHR '' '' # CHR ''='' # r) = CHR ''='' # r" for r
    using k(4) by (induction k) auto
  have ws: "dropWhile isspace v = v" "dropWhile isspace (CHR '' '' # v) = v"
    using v(1,2) by (cases v, simp_all add: isspace_def)+
  have key: "scan_key (pair_line kv) = Some (k @ '' '', v)"
    by (simp add: scan_key_def pair_line_def kv scan_set_def tw dw scan_ws_def scan_lit_def ws isspace_def)
  have noquote: "scan_quoted q (pair_line kv) = None" if "hd v \<noteq> q" for q
    using that v(1) by (cases v) (simp_all add: scan_quoted_def key scan_lit_def)
  have plain: "takeWhile (\<lambda>c. c \<noteq> CHR '';'' \<and> c \<noteq> CHR ''#'') v = v"
    unfolding takeWhile_eq_all_conv using v(6,7) by blast
  have "scan_value (pair_line kv) = Some (k @ '' '', v)"
    using v(1) by (simp add: scan_value_def noquote [OF v(4)] noquote [OF v(5)] scan_plain_def key
        scan_set_def plain)
  moreover have "strstrip (k @ '' '') = k"
  proof -
    have "dropWhile isspace k \<noteq> []" using k(1,2) by (cases k) simp_all
    then show ?thesis
      using strstrip_snoc_space [of "CHR '' ''" k] strstrip_id [OF k(1-3)] by (simp add: isspace_def)
  qed
  moreover have "strstrip v = v" by (rule strstrip_id [OF v(1-3)])
  moreover have "v \<noteq> [CHR 0x22, CHR 0x22]" "v \<noteq> [CHR 0x27, CHR 0x27]" using v(4,5) by auto
  moreover have "pair_line kv \<noteq> []" "hd (pair_line kv) = hd k" "CHR ''='' \<in> set (pair_line kv)"
    using k(1) by (simp_all add: pair_line_def kv)
  ultimately show "iniparser_line (pair_line kv) = Some (LINE_VALUE (strlwc (fst kv)) (snd kv))"
    using k(5) unfolding iniparser_line_def strip Let_def by (simp add: kv)
qed

section \<open>Loading a configuration\<close>

lemma load_store_ok:
  "dict_ok (st_dict st) \<Longrightarrow>
   \<exists>d. load_store True k v st = Continue (st\<lparr>st_dict := d, st_errs := 0\<rparr>) \<and>
       dict_put (st_dict st) k v = Some d \<and> dict_ok d"
  using dictionary_set_spec [of "st_dict st" True k v]
  by (auto simp: load_store_def dict_put_def)

lemma load_pairs:
  "list_all ini_pair kvs \<Longrightarrow> st_full st = None \<Longrightarrow> dict_ok (st_dict st) \<Longrightarrow>
   \<exists>d. fold_opt (\<lambda>(k, v) d. dict_put d k v)
          (map (\<lambda>kv. (st_section st @ '':'' @ strlwc (fst kv), Some (snd kv))) kvs) (st_dict st) = Some d \<and>
       dict_ok d \<and>
       load_loop True (concat (map (\<lambda>kv. pair_line kv @ [lf]) kvs) @ rest) st =
       load_loop True rest (st\<lparr>st_dict := d, st_errs := if kvs = [] then st_errs st else 0\<rparr>)"
proof (induction kvs arbitrary: st)
  case (Cons kv kvs)
  let ?key = "st_section st @ '':'' @ strlwc (fst kv)"
  have kv: "ini_pair kv" using Cons.prems(1) by simp
  obtain d1 where d1: "load_store True ?key (Some (snd kv)) (st\<lparr>st_full := None\<rparr>) =
        Continue (st\<lparr>st_full := None, st_dict := d1, st_errs := 0\<rparr>)"
      "dict_put (st_dict st) ?key (Some (snd kv)) = Some d1" "dict_ok d1"
    using load_store_ok [of "st\<lparr>st_full := None\<rparr>" ?key "Some (snd kv)"] Cons.prems(3) by auto
  let ?st = "st\<lparr>st_full := None, st_dict := d1, st_errs := 0\<rparr>"
  have step: "load_loop True (pair_line kv @ lf # r) st = load_loop True r ?st" for r
    by (subst clean_line_step [OF pair_line_ok(1) [OF kv] Cons.prems(2) pair_line_ok(2) [OF kv]])
       (use d1(1) in \<open>simp add: load_status_def\<close>)
  have same: "?st\<lparr>st_dict := d, st_errs := e\<rparr> = st\<lparr>st_dict := d, st_errs := e\<rparr>" for d e
    using Cons.prems(2) by simp
  show ?case
    using Cons.IH [of ?st] Cons.prems(1) d1(2,3) step same by (auto simp: same)
qed simp

lemma load_blank: "load_loop g (lf # rest) st = load_loop g rest st"
  using load_loop_line [of "[]" g rest st] by (simp add: load_line_def lf_def)

lemma load_section:
  assumes name: "ini_section_name (fst sec)" and kvs: "list_all ini_pair (snd sec)"
    and st: "st_full st = None" "dict_ok (st_dict st)"
  shows "\<exists>d. fold_opt (\<lambda>(k, v) d. dict_put d k v) (section_entries sec) (st_dict st) = Some d \<and> dict_ok d \<and>
    load_loop True (render_section sec @ rest) st =
    load_loop True rest (st\<lparr>st_dict := d, st_section := strlwc (fst sec), st_errs := 0\<rparr>)"
proof -
  let ?s = "strlwc (fst sec)"
  obtain d1 where d1: "load_store True ?s None (st\<lparr>st_full := None, st_section := ?s\<rparr>) =
        Continue (st\<lparr>st_full := None, st_section := ?s, st_dict := d1, st_errs := 0\<rparr>)"
      "dict_put (st_dict st) ?s None = Some d1" "dict_ok d1"
    using load_store_ok [of "st\<lparr>st_full := None, st_section := ?s\<rparr>" ?s None] st(2) by auto
  let ?st = "st\<lparr>st_full := None, st_section := ?s, st_dict := d1, st_errs := 0\<rparr>"
  note line = section_line [OF name]
  have "load_loop True ((''['' @ fst sec @ '']'') @ lf # r) st = load_loop True r ?st" for r
    by (subst clean_line_step [OF line(1) st(1) line(2)]) (use d1(1) in \<open>simp add: load_status_def\<close>)
  then have step: "load_loop True (CHR ''['' # fst sec @ CHR '']'' # lf # r) st = load_loop True r ?st" for r
    by simp
  obtain d where d: "fold_opt (\<lambda>(k, v) d. dict_put d k v)
          (map (\<lambda>kv. (?s @ '':'' @ strlwc (fst kv), Some (snd kv))) (snd sec)) d1 = Some d" "dict_ok d"
      "load_loop True (concat (map (\<lambda>kv. pair_line kv @ [lf]) (snd sec)) @ lf # rest) ?st =
       load_loop True (lf # rest) (?st\<lparr>st_dict := d, st_errs := if snd sec = [] then st_errs ?st else 0\<rparr>)"
    using load_pairs [OF kvs, of ?st "lf # rest"] d1(3) by auto
  have "?st\<lparr>st_dict := d, st_errs := if snd sec = [] then st_errs ?st else 0\<rparr> =
      st\<lparr>st_dict := d, st_section := ?s, st_errs := 0\<rparr>"
    using st(1) by simp
  with d(3) have "load_loop True (render_section sec @ rest) st =
      load_loop True rest (st\<lparr>st_dict := d, st_section := ?s, st_errs := 0\<rparr>)"
    by (simp add: render_section_def step load_blank)
  then show ?thesis using d(1,2) d1(2) by (auto simp: section_entries_def)
qed

lemma load_sections:
  "ini_config cfg \<Longrightarrow> st_full st = None \<Longrightarrow> dict_ok (st_dict st) \<Longrightarrow>
   \<exists>d. fold_opt (\<lambda>(k, v) d. dict_put d k v) (concat (map section_entries cfg)) (st_dict st) = Some d \<and>
     dict_ok d \<and>
     load_loop True (render cfg @ rest) st =
     load_loop True rest (st\<lparr>st_dict := d,
       st_section := if cfg = [] then st_section st else strlwc (fst (last cfg)),
       st_errs := if cfg = [] then st_errs st else 0\<rparr>)"
proof (induction cfg arbitrary: st)
  case Nil
  then show ?case by (simp add: render_def)
next
  case (Cons sec cfg)
  obtain d1 where d1: "fold_opt (\<lambda>(k, v) d. dict_put d k v) (section_entries sec) (st_dict st) = Some d1"
      "dict_ok d1"
      "load_loop True (render_section sec @ render cfg @ rest) st =
       load_loop True (render cfg @ rest) (st\<lparr>st_dict := d1, st_section := strlwc (fst sec), st_errs := 0\<rparr>)"
    using load_section [of sec st "render cfg @ rest"] Cons.prems by (auto simp: ini_config_def)
  let ?s = "strlwc (fst (last (sec # cfg)))"
  obtain d where d: "fold_opt (\<lambda>(k, v) d. dict_put d k v) (concat (map section_entries cfg)) d1 = Some d"
      "dict_ok d"
      "load_loop True (render cfg @ rest) (st\<lparr>st_dict := d1, st_section := strlwc (fst sec), st_errs := 0\<rparr>) =
       load_loop True rest (st\<lparr>st_dict := d, st_section := ?s, st_errs := 0\<rparr>)"
    using Cons.IH [of "st\<lparr>st_dict := d1, st_section := strlwc (fst sec), st_errs := 0\<rparr>"] Cons.prems d1(2)
    by (auto simp: ini_config_def)
  have "load_loop True (render (sec # cfg) @ rest) st =
      load_loop True rest (st\<lparr>st_dict := d, st_section := ?s, st_errs := 0\<rparr>)"
    using d1(3) d(3) by (simp add: render_def)
  then show ?case using d(1,2) d1(1) by (auto simp: fold_opt_append)
qed

definition ini_start :: "int \<Rightarrow> ini_state" where
  "ini_start e = \<lparr>st_dict = dictionary_new 0, st_section = [], st_full = None, st_errs = e\<rparr>"

lemma ini_start_simps [simp]:
  "st_dict (ini_start e) = dictionary_new 0" "st_full (ini_start e) = None" "st_errs (ini_start e) = e"
  "(ini_start e)\<lparr>st_errs := e'\<rparr> = ini_start e'"
  by (simp_all add: ini_start_def)

lemma load_from_start:
  assumes "ini_config cfg"
  shows "\<exists>d. fold_opt (\<lambda>(k, v) d. dict_put d k v) (concat (map section_entries cfg)) (dictionary_new 0) = Some d \<and>
     dict_ok d \<and> iniparser_load True (Some (render cfg)) = Some (Some d) \<and>
     (cfg \<noteq> [] \<longrightarrow> (\<forall>e rest. load_loop True (render cfg @ rest) (ini_start e) =
        load_loop True rest \<lparr>st_dict = d, st_section = strlwc (fst (last cfg)), st_full = None, st_errs = 0\<rparr>))"
proof -
  let ?fold = "fold_opt (\<lambda>(k, v) d. dict_put d k v) (concat (map section_entries cfg)) (dictionary_new 0)"
  note l = load_sections [OF assms, of "ini_start e" rest for e rest]
  obtain d where d: "?fold = Some d" "dict_ok d"
    using l [of 0 "[]"] dictionary_new_ok by auto
  have all: "load_loop True (render cfg @ rest) (ini_start e) =
     load_loop True rest ((ini_start e)\<lparr>st_dict := d,
       st_section := if cfg = [] then [] else strlwc (fst (last cfg)),
       st_errs := if cfg = [] then e else 0\<rparr>)" for e rest
    using l [of e rest] d(1) dictionary_new_ok by (auto simp: ini_start_def)
  have "iniparser_load True (Some (render cfg)) = Some (Some d)"
    using all [of "[]" 0] by (simp add: iniparser_load_def ini_start_def)
  then show ?thesis using d all by (auto simp: ini_start_def)
qed

section \<open>Section and key listings\<close>

definition colon_free :: "string option \<Rightarrow> bool" where
  "colon_free ko \<longleftrightarrow> (case ko of None \<Rightarrow> False | Some k \<Rightarrow> CHR '':'' \<notin> set k)"

lemma colon_free_simps [simp]:
  "\<not> colon_free None" "colon_free (Some k) \<longleftrightarrow> CHR '':'' \<notin> set k"
  by (simp_all add: colon_free_def)

lemma filter_upt_nth:
  "map (\<lambda>i. xs ! i) (filter (\<lambda>i. P (xs ! i)) [0..<length xs]) = filter P xs"
  using filter_map [of P "(!) xs" "[0..<length xs]"] by (simp add: map_nth comp_def)

lemma length_filter_upt: "length (filter (\<lambda>i. P (xs ! i)) [0..<length xs]) = length (filter P xs)"
  using filter_upt_nth [of xs P] by (metis length_map)

lemma getnsec_conv:
  "length (d_key d) = d_size d \<Longrightarrow>
   iniparser_getnsec (Some d) = int (length (filter colon_free (d_key d)))"
  using length_filter_upt [of colon_free "d_key d"] by (simp add: iniparser_getnsec_def colon_free_def)

lemma distinct_filter_keys:
  "(\<And>i j. i < length xs \<Longrightarrow> j < length xs \<Longrightarrow> P (xs ! i) \<Longrightarrow> xs ! i = xs ! j \<Longrightarrow> i = j) \<Longrightarrow>
   distinct (filter P xs)"
proof (induction xs)
  case (Cons x xs)
  have "i = j" if "i < length xs" "j < length xs" "P (xs ! i)" "xs ! i = xs ! j" for i j
    using Cons.prems [of "Suc i" "Suc j"] that by simp
  moreover have "x \<notin> set (filter P xs)"
  proof
    assume "x \<in> set (filter P xs)"
    then obtain j where "j < length xs" "xs ! j = x" "P x" by (auto simp: in_set_conv_nth)
    with Cons.prems [of 0 "Suc j"] show False by auto
  qed
  ultimately show ?case using Cons.IH by fastforce
qed simp

lemma secname_loop_nth:
  "0 \<le> m \<Longrightarrow> m \<le> n \<Longrightarrow>
   secname_loop ks m n = (if nat (n - m) < length (filter colon_free ks)
                          then filter colon_free ks ! nat (n - m) else None)"
proof (induction ks m n rule: secname_loop.induct)
  case (3 k ks foundsec n)
  show ?case
  proof (cases "CHR '':'' \<notin> set k \<and> foundsec < n")
    case True
    then have "nat (n - foundsec) = Suc (nat (n - (foundsec + 1)))" by linarith
    then show ?thesis using True 3 by simp
  next
    case False
    then show ?thesis using 3 by auto
  qed
qed simp_all

lemma seckeys_loop_fill:
  "length pre + length (filter (\<lambda>ko. case ko of None \<Rightarrow> False | Some k \<Rightarrow> in_section s k) ks) = length pre + length junk \<Longrightarrow>
   seckeys_loop s ks (pre @ junk) (length pre) =
   Some (pre @ map the (filter (\<lambda>ko. case ko of None \<Rightarrow> False | Some k \<Rightarrow> in_section s k) ks))"
proof (induction ks arbitrary: pre junk)
  case (Cons ko ks)
  show ?case
  proof (cases "\<exists>k. ko = Some k \<and> in_section s k")
    case True
    then obtain k where k: "ko = Some k" "in_section s k" by blast
    then obtain j junk' where junk: "junk = j # junk'" using Cons.prems by (cases junk) auto
    have "seckeys_loop s ks ((pre @ [k]) @ junk') (length (pre @ [k])) =
        Some ((pre @ [k]) @ map the (filter (\<lambda>ko. case ko of None \<Rightarrow> False | Some k \<Rightarrow> in_section s k) ks))"
      using Cons.prems k junk by (intro Cons.IH) simp
    then show ?thesis using k junk by simp
  next
    case False
    then show ?thesis using Cons by (cases ko) auto
  qed
qed simp

section \<open>Decimal numbers\<close>

fun dec_string :: "nat \<Rightarrow> string" where
  "dec_string n = (if n < 10 then [char_of (48 + n)] else dec_string (n div 10) @ [char_of (48 + n mod 10)])"

declare dec_string.simps [simp del]

lemma digit_val_dec: "d < 10 \<Longrightarrow> digit_val (char_of (48 + d)) = d"
  by (simp add: digit_val_def Let_def)

lemma strtol_digits_append:
  "list_all (\<lambda>c. digit_val c < b) s \<Longrightarrow> strtol_digits b (s @ t) v = strtol_digits b t (strtol_digits b s v)"
  by (induction s arbitrary: v) simp_all

lemma dec_string_digits: "list_all (\<lambda>c. digit_val c < 10) (dec_string n)"
  by (induction n rule: dec_string.induct) (subst dec_string.simps, simp add: digit_val_dec)

lemma strtol_digits_dec: "strtol_digits 10 (dec_string n) 0 = n"
proof (induction n rule: dec_string.induct)
  case (1 n)
  show ?case
  proof (cases "n < 10")
    case True
    then show ?thesis by (subst dec_string.simps) (simp add: digit_val_dec)
  next
    case False
    with 1 have "strtol_digits 10 (dec_string (n div 10)) 0 = n div 10" by simp
    then show ?thesis using False
      by (subst dec_string.simps) (simp add: strtol_digits_append dec_string_digits digit_val_dec)
  qed
qed

lemma dec_string_hd: "dec_string n \<noteq> [] \<and> (0 < n \<longrightarrow> hd (dec_string n) \<noteq> CHR ''0'') \<and>
    digit_val (hd (dec_string n)) < 10"
proof (induction n rule: dec_string.induct)
  case (1 n)
  show ?case
  proof (cases "n < 10")
    case True
    have "char_of (48 + n) \<noteq> (CHR ''0'')" if "0 < n"
    proof
      assume "char_of (48 + n) = CHR ''0''"
      then have "of_char (char_of (48 + n) :: char) = (of_char CHR ''0'' :: nat)" by simp
      then show False using True that by simp
    qed
    then show ?thesis using True by (subst (1 2 3) dec_string.simps) (simp add: digit_val_dec)
  next
    case False
    then show ?thesis using 1 by (subst (1 2 3) dec_string.simps) (simp add: hd_append)
  qed
qed

lemma digit_not_special:
  "digit_val c < 10 \<Longrightarrow> \<not> isspace c \<and> c \<noteq> CHR ''-'' \<and> c \<noteq> CHR ''+''"
  by (auto simp: digit_val_def isspace_def Let_def)

lemma strtol_unsigned_dec: "strtol_unsigned (dec_string n) = n"
proof (cases "n = 0")
  case True
  then show ?thesis
    by (simp add: dec_string.simps strtol_unsigned_def digit_val_def)
next
  case False
  then have "dec_string n \<noteq> []" "hd (dec_string n) \<noteq> CHR ''0''" using dec_string_hd [of n] by auto
  then have "strtol_unsigned (dec_string n) = strtol_digits 10 (dec_string n) 0"
    by (auto simp: strtol_unsigned_def split: list.splits)
  then show ?thesis by (simp add: strtol_digits_dec)
qed

lemma strtol0_dec: "n < 2 ^ 63 \<Longrightarrow> strtol0 (dec_string n) = int n"
proof -
  assume n: "n < 2 ^ 63"
  obtain c r where cr: "dec_string n = c # r" using dec_string_hd [of n] by (cases "dec_string n") auto
  then have c: "digit_val c < 10" using dec_string_hd [of n] by simp
  have "dropWhile isspace (dec_string n) = dec_string n"
    using digit_not_special [OF c] by (simp add: cr)
  moreover have "int n < 2 ^ 63" using n by (metis of_nat_less_iff of_nat_numeral of_nat_power)
  ultimately show ?thesis
    using digit_not_special [OF c] strtol_unsigned_dec [of n] by (simp add: strtol0_def cr Let_def)
qed

lemma strtol0_neg: "n < 2 ^ 63 \<Longrightarrow> strtol0 (CHR ''-'' # dec_string n) = - int n"
proof -
  assume n: "n < 2 ^ 63"
  then have "int n < 2 ^ 63" by (metis of_nat_less_iff of_nat_numeral of_nat_power)
  then show ?thesis
    using strtol_unsigned_dec [of n] by (simp add: strtol0_def isspace_def Let_def)
qed

section \<open>Properties\<close>

text \<open>What a loaded configuration holds.\<close>

lemma loaded_map:
  assumes "ini_config cfg"
  shows "\<exists>d. iniparser_load True (Some (render cfg)) = Some (Some d) \<and> dict_ok d \<and>
     dict_map d = map_of (rev (concat (map section_entries cfg)))"
proof -
  obtain d where d: "fold_opt (\<lambda>(k, v) d. dict_put d k v) (concat (map section_entries cfg)) (dictionary_new 0) = Some d"
      "dict_ok d" "iniparser_load True (Some (render cfg)) = Some (Some d)"
    using load_from_start [OF assms] by blast
  have "dict_map d = map_of (rev (concat (map section_entries cfg)))"
    using dm.put_all [OF dm.new_ok [of 0], of "concat (map section_entries cfg)"] d(1) dm.new_abs [of 0]
    by simp
  with d show ?thesis by blast
qed

text \<open>
  C5. Round trip of the configuration loader: for every configuration of named sections
  with key and value pairs that the format can express (lines below the buffer size, no
  delimiter characters inside names and values), loading its text succeeds, and
  \<open>iniparser_getstring\<close> then returns for every key, compared without regard to case, the
  value of its last occurrence, the NULL of a section entry, or the caller's default.
\<close>

theorem load_render:
  assumes "ini_config cfg"
  shows "\<exists>d. iniparser_load True (Some (render cfg)) = Some (Some d) \<and> dict_ok d \<and>
     (\<forall>key. iniparser_getstring (Some d) (Some key) =
            map_of (rev (concat (map section_entries cfg))) (strlwc key))"
proof -
  obtain d where d: "iniparser_load True (Some (render cfg)) = Some (Some d)" "dict_ok d"
      "dict_map d = map_of (rev (concat (map section_entries cfg)))"
    using loaded_map [OF assms] by blast
  then show ?thesis using dm.get_abs [OF d(2)] by (simp add: iniparser_getstring_def)
qed

theorem load_render_witness:
  "\<exists>d. iniparser_load True (Some (render [(''TCP'', [(''port'', ''3333''), (''Port'', ''3334'')])])) = Some (Some d) \<and>
     iniparser_getstring (Some d) (Some ''tcp:PORT'') = Some (Some ''3334'')"
proof -
  have "ini_config [(''TCP'', [(''port'', ''3333''), (''Port'', ''3334'')])]" by code_simp
  note l = load_render [OF this]
  have key: "strlwc ''tcp:PORT'' = ''tcp:port''" by code_simp
  have "map_of (rev (concat (map section_entries [(''TCP'', [(''port'', ''3333''), (''Port'', ''3334'')])])))
      ''tcp:port'' = Some (Some ''3334'')" by code_simp
  then show ?thesis using l key by metis
qed

text \<open>
  A syntax error is forgotten when a later entry is stored: the error count is
  overwritten by the result of \<open>dictionary_set\<close>, so a configuration behind any line that
  \<open>iniparser_line\<close> rejects loads as if the line were not there, while the same line at the
  end of the file makes the load fail.
\<close>

lemma load_forgets_syntax_error:
  assumes "ini_config cfg" and "cfg \<noteq> []" and "clean_line bad" and "iniparser_line bad = Some LINE_ERROR"
  shows "iniparser_load True (Some (bad @ [lf] @ render cfg)) = iniparser_load True (Some (render cfg)) \<and>
         iniparser_load True (Some (render cfg @ bad @ [lf])) = Some None"
proof -
  have step: "load_loop True (bad @ lf # r) st = load_loop True r (st\<lparr>st_errs := st_errs st + 1\<rparr>)"
    if "st_full st = None" for r st
  proof -
    have "st\<lparr>st_full := None\<rparr> = st" using that by (cases st) simp
    then show ?thesis
      using clean_line_step [OF assms(3) that assms(4), of True r] by (simp add: load_status_def Let_def)
  qed
  obtain d where d: "iniparser_load True (Some (render cfg)) = Some (Some d)"
      "\<And>e rest. load_loop True (render cfg @ rest) (ini_start e) =
        load_loop True rest \<lparr>st_dict = d, st_section = strlwc (fst (last cfg)), st_full = None, st_errs = 0\<rparr>"
    using load_from_start [OF assms(1)] assms(2) by blast
  have "iniparser_load True (Some (bad @ [lf] @ render cfg)) = Some (Some d)"
    using step [of "ini_start 0" "render cfg"] d(2) [of "[]" 1]
    by (simp add: iniparser_load_def ini_start_def)
  moreover have "iniparser_load True (Some (render cfg @ bad @ [lf])) = Some None"
    using d(2) [of "bad @ [lf]" 0] step [of _ "[]"]
    by (simp add: iniparser_load_def ini_start_def)
  ultimately show ?thesis using d(1) by simp
qed

text \<open>
  The section listing is complete and exact: \<open>iniparser_getsecname\<close> of 0 up to
  \<open>iniparser_getnsec\<close> runs through the stored keys without a colon, in the order of their
  slots, and every other index gives NULL.
\<close>

lemma getsecname_enumerates:
  assumes "dict_ok d"
  shows "map (\<lambda>i. iniparser_getsecname (Some d) (int i)) [0..<nat (iniparser_getnsec (Some d))] =
           filter colon_free (d_key d) \<and>
         (\<forall>n. n < 0 \<or> iniparser_getnsec (Some d) \<le> n \<longrightarrow> iniparser_getsecname (Some d) n = None)"
proof -
  have n: "iniparser_getnsec (Some d) = int (length (filter colon_free (d_key d)))"
    using assms by (intro getnsec_conv) (simp add: dict_ok_def)
  have sec: "iniparser_getsecname (Some d) m =
      (if 0 \<le> m \<and> nat m < length (filter colon_free (d_key d)) then filter colon_free (d_key d) ! nat m else None)" for m
    by (simp add: iniparser_getsecname_def secname_loop_nth)
  show ?thesis unfolding n by (auto intro!: nth_equalityI simp: sec)
qed

text \<open>
  \<open>iniparser_getseckeys\<close> never writes past the array it allocated from
  \<open>iniparser_getsecnkeys\<close>, and returns exactly the stored keys of the section.
\<close>

lemma getseckeys_exact:
  assumes "dict_ok d" and "iniparser_find_entry (Some d) (Some s)"
  shows "\<exists>keys. iniparser_getseckeys (Some d) s = Some (Some keys) \<and>
           length keys = iniparser_getsecnkeys (Some d) s \<and> distinct keys \<and>
           set keys = {k. dict_map d k \<noteq> None \<and> in_section s k}"
proof -
  let ?P = "\<lambda>ko. case ko of None \<Rightarrow> False | Some k \<Rightarrow> in_section s k"
  let ?f = "filter ?P (d_key d)"
  have sz: "length (d_key d) = d_size d" using assms(1) by (simp add: dict_ok_def)
  have n: "iniparser_getsecnkeys (Some d) s = length ?f"
    using assms(2) length_filter_upt [of ?P "d_key d"] by (simp add: iniparser_getsecnkeys_def sz)
  have "iniparser_getseckeys (Some d) s = Some (Some (map the ?f))"
    using assms(2) seckeys_loop_fill [of "[]" s "d_key d" "replicate (length ?f) []"]
    by (simp add: iniparser_getseckeys_def n)
  moreover have "distinct (map the ?f)"
  proof -
    have "distinct ?f"
    proof (rule distinct_filter_keys)
      fix i j
      assume ij: "i < length (d_key d)" "j < length (d_key d)" "?P (d_key d ! i)" "d_key d ! i = d_key d ! j"
      from ij(3) have "d_key d ! i \<noteq> None" by (cases "d_key d ! i") simp_all
      with ij assms(1) sz show "i = j" unfolding dict_ok_def by metis
    qed
    then show ?thesis by (auto simp: distinct_map inj_on_def split: option.splits)
  qed
  moreover have "set (map the ?f) = {k. dict_map d k \<noteq> None \<and> in_section s k}"
  proof -
    have "dict_map d k \<noteq> None \<longleftrightarrow> (\<exists>i < d_size d. d_key d ! i = Some k)" for k
      using dict_map_Some_iff [OF assms(1), of k] by (metis not_None_eq)
    then have key: "dict_map d k \<noteq> None \<longleftrightarrow> Some k \<in> set (d_key d)" for k
      unfolding in_set_conv_nth sz .
    have f: "x \<in> set ?f \<longleftrightarrow> (\<exists>k. x = Some k \<and> Some k \<in> set (d_key d) \<and> in_section s k)" for x
      by (cases x) auto
    show ?thesis
    proof (rule set_eqI)
      fix k
      have "k \<in> set (map the ?f) \<longleftrightarrow> (\<exists>x. x \<in> set ?f \<and> k = the x)"
        unfolding set_map by (simp only: image_iff Bex_def)
      then show "k \<in> set (map the ?f) \<longleftrightarrow> k \<in> {k. dict_map d k \<noteq> None \<and> in_section s k}"
        unfolding f mem_Collect_eq key by auto
    qed
  qed
  ultimately show ?thesis using n by auto
qed

text \<open>
  Integer settings: an entry holding the decimal text of a number that fits a C int is
  returned by \<open>iniparser_getint\<close> as that number, with either sign; a missing entry
  gives the default; an entry whose value is NULL (a section name) reaches \<open>strtol\<close>.
\<close>

lemma getint_decimal:
  assumes "dict_ok d"
  shows "(\<forall>n. n < 2 ^ 31 \<longrightarrow> dict_map d (strlwc key) = Some (Some (dec_string n)) \<longrightarrow>
            iniparser_getint (Some d) (Some key) dflt = Some (int n)) \<and>
         (\<forall>n. n \<le> 2 ^ 31 \<longrightarrow> dict_map d (strlwc key) = Some (Some (CHR ''-'' # dec_string n)) \<longrightarrow>
            iniparser_getint (Some d) (Some key) dflt = Some (- int n)) \<and>
         (dict_map d (strlwc key) = None \<longrightarrow> iniparser_getint (Some d) (Some key) dflt = Some dflt) \<and>
         (dict_map d (strlwc key) = Some None \<longrightarrow> iniparser_getint (Some d) (Some key) dflt = None)"
proof -
  have get: "iniparser_getstring (Some d) (Some key) = dict_map d (strlwc key)"
    using dictionary_get_spec [OF assms] by (simp add: iniparser_getstring_def)
  have fit: "signed_take_bit 31 x = x" if "- (2 ^ 31) \<le> x" "x < 2 ^ 31" for x :: int
    using that by (simp add: signed_take_bit_int_eq_self)
  have "int n < 2 ^ 31" if "n < 2 ^ 31" for n
    using that by (metis of_nat_less_iff of_nat_numeral of_nat_power)
  moreover have "- (2 ^ 31) \<le> - int n \<and> - int n < 2 ^ 31" if "n \<le> 2 ^ 31" for n
  proof -
    have "int n \<le> 2 ^ 31" using that by (metis of_nat_le_iff of_nat_numeral of_nat_power)
    then show ?thesis by simp
  qed
  ultimately show ?thesis
    by (auto simp: iniparser_getint_def get strtol0_dec strtol0_neg intro!: fit)
qed

text \<open>
  Two texts on which the reader leaves defined behaviour: a line of blanks only (other
  than the bare newline), for instance the blank line of a file with CR LF line ends, after
  whose stripping \<open>line[-1]\<close> is read; and a section header with an equals sign before the
  last character of its name, whose name is written past the allocation of \<open>key\<close>.
\<close>

lemma load_undefined_texts:
  assumes "list_all (\<lambda>c. isspace c \<and> c \<noteq> lf) ws" and "ws \<noteq> []" and "length ws < 1023"
    and "CHR '']'' \<notin> set a \<union> set b" and "b \<noteq> []" and "CHR ''='' \<notin> set a"
    and "list_all (\<lambda>c. c \<noteq> lf \<and> c \<noteq> CHR 0x00) (a @ b)" and "length a + length b < 1019"
  shows "iniparser_load grow_ok (Some (ws @ [lf] @ rest)) = None \<and>
         iniparser_load grow_ok (Some (''['' @ a @ ''='' @ b @ '']'' @ [lf] @ rest)) = None"
proof
  have blank: "\<forall>c \<in> set ws. isspace c \<and> c \<noteq> lf" using assms(1) by (simp add: list_all_iff)
  have "\<not> isspace (CHR 0x00)" by (simp add: isspace_def)
  with blank have ws: "lf \<notin> set ws" "CHR 0x00 \<notin> set ws" "\<forall>c \<in> set ws. isspace c" by metis+
  have "\<forall>c \<in> set (ws @ [lf]). c \<noteq> CHR 0x00" using ws(2) by (auto simp: lf_def)
  then have tw: "takeWhile (\<lambda>c. c \<noteq> CHR 0x00) (ws @ [lf]) = ws @ [lf]"
    unfolding takeWhile_eq_all_conv .
  have "rev (dropWhile (\<lambda>c. c = lf \<or> isspace c) (rev (ws @ [lf]))) = []"
    using ws(3) by (simp add: dropWhile_eq_Nil_conv)
  then have "load_line grow_ok (ws @ [lf]) st = Undefined" for st
    using assms(2) unfolding load_line_def tw Let_def by (simp add: Let_def)
  then show "iniparser_load grow_ok (Some (ws @ [lf] @ rest)) = None"
    using load_loop_line [OF ws(1) assms(3), of grow_ok rest] by (simp add: iniparser_load_def)
next
  let ?l = "''['' @ a @ ''='' @ b @ '']''"
  have clean: "clean_line ?l"
    using assms(7,8) by (auto simp: clean_line_def isspace_def lf_def list_all_iff)
  have strip: "strstrip ?l = ?l" by (rule strstrip_id) (simp_all add: isspace_def)
  have name: "takeWhile (\<lambda>c. c \<noteq> CHR '']'') (a @ CHR ''='' # b @ '']'') = a @ CHR ''='' # b"
  proof -
    have "\<forall>c \<in> set (a @ CHR ''='' # b). c \<noteq> CHR '']''" using assms(4) by auto
    then have "takeWhile (\<lambda>c. c \<noteq> CHR '']'') ((a @ CHR ''='' # b) @ '']'') =
        (a @ CHR ''='' # b) @ takeWhile (\<lambda>c. c \<noteq> CHR '']'') '']''"
      by (intro takeWhile_append2) blast
    then show ?thesis by simp
  qed
  have eq: "takeWhile (\<lambda>c. c \<noteq> CHR ''='') (a @ CHR ''='' # r) = a" for r
    using assms(6) by (induction a) auto
  have "iniparser_line ?l = None"
    unfolding iniparser_line_def strip Let_def using assms(5) by (simp add: name eq)
  moreover have "lf \<notin> set ?l" "length ?l < 1023"
    using assms(7,8) by (auto simp: list_all_iff lf_def)
  ultimately show "iniparser_load grow_ok (Some (''['' @ a @ ''='' @ b @ '']'' @ [lf] @ rest)) = None"
    using load_loop_line [of ?l grow_ok rest] clean_line_load [OF clean] by (simp add: iniparser_load_def)
qed

end
