(* ===== verification/Hash_Chains.thy ===== *)
theory Hash_Chains
  imports Stratum_Prelude
begin

text \<open>
  The chained proof-of-work functions of \<open>algos/*.c\<close> with a fixed order of primitives. The
  primitive hashes (\<open>sha3/sph_*.c\<close>, vendored) are a parameter \<open>H\<close> of type \<open>sph\<close>: one
  init, update, close sequence is the digest of the updated bytes. The stack arrays a
  function declares without initialising them are arguments, so that what a result owes to
  their previous contents is visible; every read and write states its bounds and is \<open>None\<close>
  outside the array.
\<close>

section \<open>Primitives\<close>

datatype algo =
  BLAKE512 | BMW512 | GROESTL512 | SKEIN512 | JH512 | KECCAK512 | LUFFA512 | CUBEHASH512
  | SHAVITE512 | SIMD512 | ECHO512 | HAMSI512 | FUGUE512 | SHABAL512 | WHIRLPOOL | WHIRLPOOL1
  | SHA512 | GOST512 | HAVAL256_5 | TIGER | SHA256 | RIPEMD160 | KECCAK256 | SKEIN256
  | GROESTL256 | CUBEHASH256 | BMW256 | SM3 | HEFTY1 | BLAKE256 nat

type_synonym sph = "algo \<Rightarrow> u8 list \<Rightarrow> u8 list"

text \<open>The digest sizes of the headers (\<open>SPH_SIZE_*\<close>, in bytes).\<close>

fun digest_len :: "algo \<Rightarrow> nat" where
  "digest_len HAVAL256_5 = 32"
| "digest_len TIGER = 24"
| "digest_len SHA256 = 32"
| "digest_len RIPEMD160 = 20"
| "digest_len KECCAK256 = 32"
| "digest_len SKEIN256 = 32"
| "digest_len GROESTL256 = 32"
| "digest_len CUBEHASH256 = 32"
| "digest_len BMW256 = 32"
| "digest_len SM3 = 32"
| "digest_len HEFTY1 = 32"
| "digest_len (BLAKE256 r) = 32"
| "digest_len _ = 64"

definition sph_ok :: "sph \<Rightarrow> bool" where
  "sph_ok H \<longleftrightarrow> (\<forall>a m. length (H a m) = digest_len a)"

text \<open>
  \<open>sph_X(&ctx, input, len); sph_X_close(&ctx, dst)\<close> over the whole input, and over the first
  \<open>n\<close> bytes of a buffer.
\<close>

definition sph_run :: "sph \<Rightarrow> algo \<Rightarrow> u8 list \<Rightarrow> u8 list \<Rightarrow> u8 list option" where
  "sph_run H a input dst = buf_write 0 (H a input) dst"

definition sph_call :: "sph \<Rightarrow> algo \<Rightarrow> u8 list \<Rightarrow> nat \<Rightarrow> u8 list \<Rightarrow> u8 list option" where
  "sph_call H a src n dst = do { m \<leftarrow> buf_read 0 n src; buf_write 0 (H a m) dst }"

definition le32 :: "u8 list \<Rightarrow> u32" where
  "le32 bs = of_nat (be_val (rev bs))"

definition rd32 :: "nat \<Rightarrow> u8 list \<Rightarrow> u32 option" where
  "rd32 off buf = map_option le32 (buf_read off 4 buf)"

definition rd8 :: "nat \<Rightarrow> u8 list \<Rightarrow> u8 option" where
  "rd8 off buf = map_option hd (buf_read off 1 buf)"

section \<open>The functions\<close>

definition c11_hash :: "sph \<Rightarrow> u8 list \<Rightarrow> u8 list \<Rightarrow> u8 list option" where
  "c11_hash H hash input = do {
     hash \<leftarrow> sph_run H BLAKE512 input hash;
     hash \<leftarrow> sph_call H BMW512 hash 64 hash;
     hash \<leftarrow> sph_call H GROESTL512 hash 64 hash;
     hash \<leftarrow> sph_call H JH512 hash 64 hash;
     hash \<leftarrow> sph_call H KECCAK512 hash 64 hash;
     hash \<leftarrow> sph_call H SKEIN512 hash 64 hash;
     hash \<leftarrow> sph_call H LUFFA512 hash 64 hash;
     hash \<leftarrow> sph_call H CUBEHASH512 hash 64 hash;
     hash \<leftarrow> sph_call H SHAVITE512 hash 64 hash;
     hash \<leftarrow> sph_call H SIMD512 hash 64 hash;
     hash \<leftarrow> sph_call H ECHO512 hash 64 hash;
     buf_read 0 32 hash
   }"

definition x11_hash :: "sph \<Rightarrow> u8 list \<Rightarrow> u8 list \<Rightarrow> u8 list \<Rightarrow> u8 list option" where
  "x11_hash H hashA hashB input = do {
     hashA \<leftarrow> sph_run H BLAKE512 input hashA;
     hashB \<leftarrow> sph_call H BMW512 hashA 64 hashB;
     hashA \<leftarrow> sph_call H GROESTL512 hashB 64 hashA;
     hashB \<leftarrow> sph_call H SKEIN512 hashA 64 hashB;
     hashA \<leftarrow> sph_call H JH512 hashB 64 hashA;
     hashB \<leftarrow> sph_call H KECCAK512 hashA 64 hashB;
     hashA \<leftarrow> sph_call H LUFFA512 hashB 64 hashA;
     hashB \<leftarrow> sph_call H CUBEHASH512 hashA 64 hashB;
     hashA \<leftarrow> sph_call H SHAVITE512 hashB 64 hashA;
     hashB \<leftarrow> sph_call H SIMD512 hashA 64 hashB;
     hashA \<leftarrow> sph_call H ECHO512 hashB 64 hashA;
     buf_read 0 32 hashA
   }"

definition x12_hash :: "sph \<Rightarrow> u8 list \<Rightarrow> u8 list \<Rightarrow> u8 list option" where
  "x12_hash H hash input = do {
     hash \<leftarrow> sph_run H BLAKE512 input hash;
     hash \<leftarrow> sph_call H BMW512 hash 64 hash;
     hash \<leftarrow> sph_call H LUFFA512 hash 64 hash;
     hash \<leftarrow> sph_call H CUBEHASH512 hash 64 hash;
     hash \<leftarrow> sph_call H SHAVITE512 hash 64 hash;
     hash \<leftarrow> sph_call H SIMD512 hash 64 hash;
     hash \<leftarrow> sph_call H ECHO512 hash 64 hash;
     hash \<leftarrow> sph_call H GROESTL512 hash 64 hash;
     hash \<leftarrow> sph_call H SKEIN512 hash 64 hash;
     hash \<leftarrow> sph_call H JH512 hash 64 hash;
     hash \<leftarrow> sph_call H KECCAK512 hash 64 hash;
     hash \<leftarrow> sph_call H HAMSI512 hash 64 hash;
     buf_read 0 32 hash
   }"

definition x13_hash :: "sph \<Rightarrow> u8 list \<Rightarrow> u8 list \<Rightarrow> u8 list \<Rightarrow> u8 list option" where
  "x13_hash H hashA hashB input = do {
     hashA \<leftarrow> sph_run H BLAKE512 input hashA;
     hashB \<leftarrow> sph_call H BMW512 hashA 64 hashB;
     hashA \<leftarrow> sph_call H GROESTL512 hashB 64 hashA;
     hashB \<leftarrow> sph_call H SKEIN512 hashA 64 hashB;
     hashA \<leftarrow> sph_call H JH512 hashB 64 hashA;
     hashB \<leftarrow> sph_call H KECCAK512 hashA 64 hashB;
     hashA \<leftarrow> sph_call H LUFFA512 hashB 64 hashA;
     hashB \<leftarrow> sph_call H CUBEHASH512 hashA 64 hashB;
     hashA \<leftarrow> sph_call H SHAVITE512 hashB 64 hashA;
     hashB \<leftarrow> sph_call H SIMD512 hashA 64 hashB;
     hashA \<leftarrow> sph_call H ECHO512 hashB 64 hashA;
     hashB \<leftarrow> sph_call H HAMSI512 hashA 64 hashB;
     hashA \<leftarrow> sph_call H FUGUE512 hashB 64 hashA;
     buf_read 0 32 hashA
   }"

definition x14_hash :: "sph \<Rightarrow> u8 list \<Rightarrow> u8 list \<Rightarrow> u8 list \<Rightarrow> u8 list option" where
  "x14_hash H hashA hashB input = do {
     hashA \<leftarrow> sph_run H BLAKE512 input hashA;
     hashB \<leftarrow> sph_call H BMW512 hashA 64 hashB;
     hashA \<leftarrow> sph_call H GROESTL512 hashB 64 hashA;
     hashB \<leftarrow> sph_call H SKEIN512 hashA 64 hashB;
     hashA \<leftarrow> sph_call H JH512 hashB 64 hashA;
     hashB \<leftarrow> sph_call H KECCAK512 hashA 64 hashB;
     hashA \<leftarrow> sph_call H LUFFA512 hashB 64 hashA;
     hashB \<leftarrow> sph_call H CUBEHASH512 hashA 64 hashB;
     hashA \<leftarrow> sph_call H SHAVITE512 hashB 64 hashA;
     hashB \<leftarrow> sph_call H SIMD512 hashA 64 hashB;
     hashA \<leftarrow> sph_call H ECHO512 hashB 64 hashA;
     hashB \<leftarrow> sph_call H HAMSI512 hashA 64 hashB;
     hashA \<leftarrow> sph_call H FUGUE512 hashB 64 hashA;
     hashB \<leftarrow> sph_call H SHABAL512 hashA 64 hashB;
     buf_read 0 32 hashB
   }"

definition x15_hash :: "sph \<Rightarrow> u8 list \<Rightarrow> u8 list \<Rightarrow> u8 list \<Rightarrow> u8 list option" where
  "x15_hash H hashA hashB input = do {
     hashA \<leftarrow> sph_run H BLAKE512 input hashA;
     hashB \<leftarrow> sph_call H BMW512 hashA 64 hashB;
     hashA \<leftarrow> sph_call H GROESTL512 hashB 64 hashA;
     hashB \<leftarrow> sph_call H SKEIN512 hashA 64 hashB;
     hashA \<leftarrow> sph_call H JH512 hashB 64 hashA;
     hashB \<leftarrow> sph_call H KECCAK512 hashA 64 hashB;
     hashA \<leftarrow> sph_call H LUFFA512 hashB 64 hashA;
     hashB \<leftarrow> sph_call H CUBEHASH512 hashA 64 hashB;
     hashA \<leftarrow> sph_call H SHAVITE512 hashB 64 hashA;
     hashB \<leftarrow> sph_call H SIMD512 hashA 64 hashB;
     hashA \<leftarrow> sph_call H ECHO512 hashB 64 hashA;
     hashB \<leftarrow> sph_call H HAMSI512 hashA 64 hashB;
     hashA \<leftarrow> sph_call H FUGUE512 hashB 64 hashA;
     hashB \<leftarrow> sph_call H SHABAL512 hashA 64 hashB;
     hashA \<leftarrow> sph_call H WHIRLPOOL hashB 64 hashA;
     buf_read 0 32 hashA
   }"

definition x17_hash :: "sph \<Rightarrow> u8 list \<Rightarrow> u8 list \<Rightarrow> u8 list option" where
  "x17_hash H hash input = do {
     hash \<leftarrow> sph_run H BLAKE512 input hash;
     hash \<leftarrow> sph_call H BMW512 hash 64 hash;
     hash \<leftarrow> sph_call H GROESTL512 hash 64 hash;
     hash \<leftarrow> sph_call H SKEIN512 hash 64 hash;
     hash \<leftarrow> sph_call H JH512 hash 64 hash;
     hash \<leftarrow> sph_call H KECCAK512 hash 64 hash;
     hash \<leftarrow> sph_call H LUFFA512 hash 64 hash;
     hash \<leftarrow> sph_call H CUBEHASH512 hash 64 hash;
     hash \<leftarrow> sph_call H SHAVITE512 hash 64 hash;
     hash \<leftarrow> sph_call H SIMD512 hash 64 hash;
     hash \<leftarrow> sph_call H ECHO512 hash 64 hash;
     hash \<leftarrow> sph_call H HAMSI512 hash 64 hash;
     hash \<leftarrow> sph_call H FUGUE512 hash 64 hash;
     hash \<leftarrow> sph_call H SHABAL512 hash 64 hash;
     hash \<leftarrow> sph_call H WHIRLPOOL hash 64 hash;
     hash \<leftarrow> sph_call H SHA512 hash 64 hash;
     hash \<leftarrow> sph_call H HAVAL256_5 hash 64 hash;
     buf_read 0 32 hash
   }"

definition sib_hash :: "sph \<Rightarrow> u8 list \<Rightarrow> u8 list \<Rightarrow> u8 list \<Rightarrow> u8 list option" where
  "sib_hash H hashA hashB input = do {
     hashA \<leftarrow> sph_call H BLAKE512 input 80 hashA;
     hashB \<leftarrow> sph_call H BMW512 hashA 64 hashB;
     hashA \<leftarrow> sph_call H GROESTL512 hashB 64 hashA;
     hashB \<leftarrow> sph_call H SKEIN512 hashA 64 hashB;
     hashA \<leftarrow> sph_call H JH512 hashB 64 hashA;
     hashB \<leftarrow> sph_call H KECCAK512 hashA 64 hashB;
     hashA \<leftarrow> sph_call H GOST512 hashB 64 hashA;
     hashB \<leftarrow> sph_call H LUFFA512 hashA 64 hashB;
     hashA \<leftarrow> sph_call H CUBEHASH512 hashB 64 hashA;
     hashB \<leftarrow> sph_call H SHAVITE512 hashA 64 hashB;
     hashA \<leftarrow> sph_call H SIMD512 hashB 64 hashA;
     hashB \<leftarrow> sph_call H ECHO512 hashA 64 hashB;
     buf_read 0 32 hashB
   }"

definition vitalium_hash :: "sph \<Rightarrow> u8 list \<Rightarrow> u8 list \<Rightarrow> u8 list \<Rightarrow> u8 list option" where
  "vitalium_hash H hashA hashB input = do {
     hashA \<leftarrow> sph_run H SKEIN512 input hashA;
     hashB \<leftarrow> sph_call H CUBEHASH512 hashA 64 hashB;
     hashA \<leftarrow> sph_call H FUGUE512 hashB 64 hashA;
     hashB \<leftarrow> sph_call H GOST512 hashA 64 hashB;
     hashA \<leftarrow> sph_call H ECHO512 hashB 64 hashA;
     hashB \<leftarrow> sph_call H SHAVITE512 hashA 64 hashB;
     hashA \<leftarrow> sph_call H LUFFA512 hashB 64 hashA;
     hashB \<leftarrow> sph_call H GOST512 hashA 64 hashB;
     hashA \<leftarrow> sph_call H CUBEHASH512 hashB 64 hashA;
     hashB \<leftarrow> sph_call H FUGUE512 hashA 64 hashB;
     hashA \<leftarrow> sph_call H GOST512 hashB 64 hashA;
     hashB \<leftarrow> sph_call H ECHO512 hashA 64 hashB;
     hashA \<leftarrow> sph_call H SHAVITE512 hashB 64 hashA;
     hashB \<leftarrow> sph_call H LUFFA512 hashA 64 hashB;
     buf_read 0 32 hashB
   }"

definition veltor_hash :: "sph \<Rightarrow> u8 list \<Rightarrow> u8 list \<Rightarrow> u8 list option" where
  "veltor_hash H hash input = do {
     hash \<leftarrow> sph_call H SKEIN512 input 80 hash;
     hash \<leftarrow> sph_call H SHAVITE512 hash 64 hash;
     hash \<leftarrow> sph_call H SHABAL512 hash 64 hash;
     hash \<leftarrow> sph_call H GOST512 hash 64 hash;
     buf_read 0 32 hash
   }"

definition polytimos_hash :: "sph \<Rightarrow> u8 list \<Rightarrow> u8 list \<Rightarrow> u8 list option" where
  "polytimos_hash H hash input = do {
     hash \<leftarrow> sph_call H SKEIN512 input 80 hash;
     hash \<leftarrow> sph_call H SHABAL512 hash 64 hash;
     hash \<leftarrow> sph_call H ECHO512 hash 64 hash;
     hash \<leftarrow> sph_call H LUFFA512 hash 64 hash;
     hash \<leftarrow> sph_call H FUGUE512 hash 64 hash;
     hash \<leftarrow> sph_call H GOST512 hash 64 hash;
     buf_read 0 32 hash
   }"

definition phi_hash :: "sph \<Rightarrow> u8 list \<Rightarrow> u8 list \<Rightarrow> u8 list option" where
  "phi_hash H hash input = do {
     hash \<leftarrow> sph_run H SKEIN512 input hash;
     hash \<leftarrow> sph_call H JH512 hash 64 hash;
     hash \<leftarrow> sph_call H CUBEHASH512 hash 64 hash;
     hash \<leftarrow> sph_call H FUGUE512 hash 64 hash;
     hash \<leftarrow> sph_call H GOST512 hash 64 hash;
     hash \<leftarrow> sph_call H ECHO512 hash 64 hash;
     buf_read 0 32 hash
   }"

definition nist5_hash :: "sph \<Rightarrow> u8 list \<Rightarrow> u8 list \<Rightarrow> u8 list option" where
  "nist5_hash H hash input = do {
     hash \<leftarrow> sph_run H BLAKE512 input hash;
     hash \<leftarrow> sph_call H GROESTL512 hash 64 hash;
     hash \<leftarrow> sph_call H JH512 hash 64 hash;
     hash \<leftarrow> sph_call H KECCAK512 hash 64 hash;
     hash \<leftarrow> sph_call H SKEIN512 hash 64 hash;
     buf_read 0 32 hash
   }"

definition qubit_hash :: "sph \<Rightarrow> u8 list \<Rightarrow> u8 list \<Rightarrow> u8 list \<Rightarrow> u8 list option" where
  "qubit_hash H hash1 hash2 input = do {
     hash1 \<leftarrow> sph_run H LUFFA512 input hash1;
     hash2 \<leftarrow> sph_call H CUBEHASH512 hash1 64 hash2;
     hash1 \<leftarrow> sph_call H SHAVITE512 hash2 64 hash1;
     hash2 \<leftarrow> sph_call H SIMD512 hash1 64 hash2;
     hash1 \<leftarrow> sph_call H ECHO512 hash2 64 hash1;
     buf_read 0 32 hash1
   }"

definition fresh_hash :: "sph \<Rightarrow> u8 list \<Rightarrow> u8 list \<Rightarrow> u8 list \<Rightarrow> u8 list option" where
  "fresh_hash H hashA hashB input = do {
     hashA \<leftarrow> sph_run H SHAVITE512 input hashA;
     hashB \<leftarrow> sph_call H SIMD512 hashA 64 hashB;
     hashA \<leftarrow> sph_call H SHAVITE512 hashB 64 hashA;
     hashB \<leftarrow> sph_call H SIMD512 hashA 64 hashB;
     hashA \<leftarrow> sph_call H ECHO512 hashB 64 hashA;
     buf_read 0 32 hashA
   }"

definition skunk_hash :: "sph \<Rightarrow> u8 list \<Rightarrow> u8 list \<Rightarrow> u8 list option" where
  "skunk_hash H hash input = do {
     hash \<leftarrow> sph_call H SKEIN512 input 80 hash;
     hash \<leftarrow> sph_call H CUBEHASH512 hash 64 hash;
     hash \<leftarrow> sph_call H FUGUE512 hash 64 hash;
     hash \<leftarrow> sph_call H GOST512 hash 64 hash;
     buf_read 0 32 hash
   }"

definition tribus_hash :: "sph \<Rightarrow> u8 list \<Rightarrow> u8 list \<Rightarrow> u8 list option" where
  "tribus_hash H hash input = do {
     hash \<leftarrow> sph_call H JH512 input 80 hash;
     hash \<leftarrow> sph_call H KECCAK512 hash 64 hash;
     hash \<leftarrow> sph_call H ECHO512 hash 64 hash;
     buf_read 0 32 hash
   }"

definition deep_hash :: "sph \<Rightarrow> u8 list \<Rightarrow> u8 list \<Rightarrow> u8 list \<Rightarrow> u8 list option" where
  "deep_hash H hash1 hash2 input = do {
     hash1 \<leftarrow> sph_run H LUFFA512 input hash1;
     hash2 \<leftarrow> sph_call H CUBEHASH512 hash1 64 hash2;
     hash1 \<leftarrow> sph_call H ECHO512 hash2 64 hash1;
     buf_read 0 32 hash1
   }"

definition groestl_hash :: "sph \<Rightarrow> u8 list \<Rightarrow> u8 list \<Rightarrow> u8 list \<Rightarrow> u8 list option" where
  "groestl_hash H hash1 hash2 input = do {
     hash1 \<leftarrow> sph_run H GROESTL512 input hash1;
     hash2 \<leftarrow> sph_call H GROESTL512 hash1 64 hash2;
     buf_read 0 32 hash2
   }"

definition luffa_hash :: "sph \<Rightarrow> u8 list \<Rightarrow> u8 list \<Rightarrow> u8 list option" where
  "luffa_hash H hash input = do {
     hash \<leftarrow> sph_call H LUFFA512 input 80 hash;
     buf_read 0 32 hash
   }"

definition quark_hash :: "sph \<Rightarrow> u8 list \<Rightarrow> u8 list \<Rightarrow> u8 list \<Rightarrow> u8 list option" where
  "quark_hash H hashA hashB input = do {
     hashA \<leftarrow> sph_run H BLAKE512 input hashA;
     hashB \<leftarrow> sph_call H BMW512 hashA 64 hashB;
     w \<leftarrow> rd32 0 hashB;
     hashA \<leftarrow> (if w AND 8 \<noteq> 0 then do {
         sph_call H GROESTL512 hashB 64 hashA
       } else do {
         sph_call H SKEIN512 hashB 64 hashA
       });
     hashB \<leftarrow> sph_call H GROESTL512 hashA 64 hashB;
     hashA \<leftarrow> sph_call H JH512 hashB 64 hashA;
     w \<leftarrow> rd32 0 hashA;
     hashB \<leftarrow> (if w AND 8 \<noteq> 0 then do {
         sph_call H BLAKE512 hashA 64 hashB
       } else do {
         sph_call H BMW512 hashA 64 hashB
       });
     hashA \<leftarrow> sph_call H KECCAK512 hashB 64 hashA;
     hashB \<leftarrow> sph_call H SKEIN512 hashA 64 hashB;
     w \<leftarrow> rd32 0 hashB;
     hashA \<leftarrow> (if w AND 8 \<noteq> 0 then do {
         sph_call H KECCAK512 hashB 64 hashA
       } else do {
         sph_call H JH512 hashB 64 hashA
       });
     buf_read 0 32 hashA
   }"

definition hmq17_hash :: "sph \<Rightarrow> u8 list \<Rightarrow> u8 list \<Rightarrow> u8 list option" where
  "hmq17_hash H hash input = do {
     hash \<leftarrow> sph_run H BMW512 input hash;
     hash \<leftarrow> sph_call H WHIRLPOOL hash 64 hash;
     w \<leftarrow> rd32 0 hash;
     hash \<leftarrow> (if w AND 24 \<noteq> 0 then do {
         sph_call H GROESTL512 hash 64 hash
       } else do {
         sph_call H SKEIN512 hash 64 hash
       });
     hash \<leftarrow> sph_call H JH512 hash 64 hash;
     hash \<leftarrow> sph_call H KECCAK512 hash 64 hash;
     w \<leftarrow> rd32 0 hash;
     hash \<leftarrow> (if w AND 24 \<noteq> 0 then do {
         sph_call H BLAKE512 hash 64 hash
       } else do {
         sph_call H BMW512 hash 64 hash
       });
     hash \<leftarrow> sph_call H LUFFA512 hash 64 hash;
     hash \<leftarrow> sph_call H CUBEHASH512 hash 64 hash;
     w \<leftarrow> rd32 0 hash;
     hash \<leftarrow> (if w AND 24 \<noteq> 0 then do {
         sph_call H KECCAK512 hash 64 hash
       } else do {
         sph_call H JH512 hash 64 hash
       });
     hash \<leftarrow> sph_call H SHAVITE512 hash 64 hash;
     hash \<leftarrow> sph_call H SIMD512 hash 64 hash;
     w \<leftarrow> rd32 0 hash;
     hash \<leftarrow> (if w AND 24 \<noteq> 0 then do {
         sph_call H WHIRLPOOL hash 64 hash
       } else do {
         hash \<leftarrow> sph_call H HAVAL256_5 hash 64 hash;
         buf_write 32 (replicate 32 0) hash
       });
     hash \<leftarrow> sph_call H ECHO512 hash 64 hash;
     hash \<leftarrow> sph_call H BLAKE512 hash 64 hash;
     w \<leftarrow> rd32 0 hash;
     hash \<leftarrow> (if w AND 24 \<noteq> 0 then do {
         sph_call H SHAVITE512 hash 64 hash
       } else do {
         sph_call H LUFFA512 hash 64 hash
       });
     hash \<leftarrow> sph_call H HAMSI512 hash 64 hash;
     hash \<leftarrow> sph_call H FUGUE512 hash 64 hash;
     w \<leftarrow> rd32 0 hash;
     hash \<leftarrow> (if w AND 24 \<noteq> 0 then do {
         sph_call H ECHO512 hash 64 hash
       } else do {
         sph_call H SIMD512 hash 64 hash
       });
     hash \<leftarrow> sph_call H SHABAL512 hash 64 hash;
     hash \<leftarrow> sph_call H WHIRLPOOL hash 64 hash;
     w \<leftarrow> rd32 0 hash;
     hash \<leftarrow> (if w AND 24 \<noteq> 0 then do {
         sph_call H FUGUE512 hash 64 hash
       } else do {
         sph_call H SHA512 hash 64 hash
       });
     hash \<leftarrow> sph_call H GROESTL512 hash 64 hash;
     hash \<leftarrow> sph_call H SHA512 hash 64 hash;
     w \<leftarrow> rd32 0 hash;
     hash \<leftarrow> (if w AND 24 \<noteq> 0 then do {
         hash \<leftarrow> sph_call H HAVAL256_5 hash 64 hash;
         buf_write 32 (replicate 32 0) hash
       } else do {
         sph_call H WHIRLPOOL hash 64 hash
       });
     hash \<leftarrow> sph_call H BMW512 hash 64 hash;
     buf_read 0 32 hash
   }"

definition aergo_hash :: "sph \<Rightarrow> u8 list \<Rightarrow> u8 list \<Rightarrow> u8 list option" where
  "aergo_hash H hash input = do {
     hash \<leftarrow> sph_run H ECHO512 input hash;
     hash \<leftarrow> sph_call H SIMD512 hash 64 hash;
     hash \<leftarrow> sph_call H BLAKE512 hash 64 hash;
     hash \<leftarrow> sph_call H BMW512 hash 64 hash;
     hash \<leftarrow> sph_call H WHIRLPOOL hash 64 hash;
     hash \<leftarrow> sph_call H GROESTL512 hash 64 hash;
     hash \<leftarrow> sph_call H GOST512 hash 64 hash;
     hash \<leftarrow> sph_call H SKEIN512 hash 64 hash;
     hash \<leftarrow> sph_call H BMW512 hash 64 hash;
     hash \<leftarrow> sph_call H JH512 hash 64 hash;
     hash \<leftarrow> sph_call H LUFFA512 hash 64 hash;
     hash \<leftarrow> sph_call H KECCAK512 hash 64 hash;
     hash \<leftarrow> sph_call H GOST512 hash 64 hash;
     hash \<leftarrow> sph_call H CUBEHASH512 hash 64 hash;
     hash \<leftarrow> sph_call H ECHO512 hash 64 hash;
     hash \<leftarrow> sph_call H SIMD512 hash 64 hash;
     hash \<leftarrow> sph_call H HAMSI512 hash 64 hash;
     hash \<leftarrow> sph_call H FUGUE512 hash 64 hash;
     hash \<leftarrow> sph_call H SHAVITE512 hash 64 hash;
     hash \<leftarrow> sph_call H SHABAL512 hash 64 hash;
     hash \<leftarrow> sph_call H HAVAL256_5 hash 64 hash;
     hash \<leftarrow> sph_call H SHAVITE512 hash 64 hash;
     hash \<leftarrow> sph_call H GOST512 hash 64 hash;
     hash \<leftarrow> sph_call H ECHO512 hash 64 hash;
     hash \<leftarrow> sph_call H BLAKE512 hash 64 hash;
     hash \<leftarrow> sph_call H JH512 hash 64 hash;
     hash \<leftarrow> sph_call H CUBEHASH512 hash 64 hash;
     hash \<leftarrow> sph_call H SIMD512 hash 64 hash;
     buf_read 0 32 hash
   }"

definition sonoa_hash :: "sph \<Rightarrow> u8 list \<Rightarrow> u8 list \<Rightarrow> u8 list option" where
  "sonoa_hash H hash input = do {
     hash \<leftarrow> sph_call H BLAKE512 input 80 hash;
     hash \<leftarrow> sph_call H BMW512 hash 64 hash;
     hash \<leftarrow> sph_call H GROESTL512 hash 64 hash;
     hash \<leftarrow> sph_call H SKEIN512 hash 64 hash;
     hash \<leftarrow> sph_call H JH512 hash 64 hash;
     hash \<leftarrow> sph_call H KECCAK512 hash 64 hash;
     hash \<leftarrow> sph_call H LUFFA512 hash 64 hash;
     hash \<leftarrow> sph_call H CUBEHASH512 hash 64 hash;
     hash \<leftarrow> sph_call H SHAVITE512 hash 64 hash;
     hash \<leftarrow> sph_call H SIMD512 hash 64 hash;
     hash \<leftarrow> sph_call H ECHO512 hash 64 hash;
     hash \<leftarrow> sph_call H BMW512 hash 64 hash;
     hash \<leftarrow> sph_call H GROESTL512 hash 64 hash;
     hash \<leftarrow> sph_call H SKEIN512 hash 64 hash;
     hash \<leftarrow> sph_call H JH512 hash 64 hash;
     hash \<leftarrow> sph_call H KECCAK512 hash 64 hash;
     hash \<leftarrow> sph_call H LUFFA512 hash 64 hash;
     hash \<leftarrow> sph_call H CUBEHASH512 hash 64 hash;
     hash \<leftarrow> sph_call H SHAVITE512 hash 64 hash;
     hash \<leftarrow> sph_call H SIMD512 hash 64 hash;
     hash \<leftarrow> sph_call H ECHO512 hash 64 hash;
     hash \<leftarrow> sph_call H HAMSI512 hash 64 hash;
     hash \<leftarrow> sph_call H BMW512 hash 64 hash;
     hash \<leftarrow> sph_call H GROESTL512 hash 64 hash;
     hash \<leftarrow> sph_call H SKEIN512 hash 64 hash;
     hash \<leftarrow> sph_call H JH512 hash 64 hash;
     hash \<leftarrow> sph_call H KECCAK512 hash 64 hash;
     hash \<leftarrow> sph_call H LUFFA512 hash 64 hash;
     hash \<leftarrow> sph_call H CUBEHASH512 hash 64 hash;
     hash \<leftarrow> sph_call H SHAVITE512 hash 64 hash;
     hash \<leftarrow> sph_call H SIMD512 hash 64 hash;
     hash \<leftarrow> sph_call H ECHO512 hash 64 hash;
     hash \<leftarrow> sph_call H HAMSI512 hash 64 hash;
     hash \<leftarrow> sph_call H FUGUE512 hash 64 hash;
     hash \<leftarrow> sph_call H BMW512 hash 64 hash;
     hash \<leftarrow> sph_call H GROESTL512 hash 64 hash;
     hash \<leftarrow> sph_call H SKEIN512 hash 64 hash;
     hash \<leftarrow> sph_call H JH512 hash 64 hash;
     hash \<leftarrow> sph_call H KECCAK512 hash 64 hash;
     hash \<leftarrow> sph_call H LUFFA512 hash 64 hash;
     hash \<leftarrow> sph_call H CUBEHASH512 hash 64 hash;
     hash \<leftarrow> sph_call H SHAVITE512 hash 64 hash;
     hash \<leftarrow> sph_call H SIMD512 hash 64 hash;
     hash \<leftarrow> sph_call H ECHO512 hash 64 hash;
     hash \<leftarrow> sph_call H HAMSI512 hash 64 hash;
     hash \<leftarrow> sph_call H FUGUE512 hash 64 hash;
     hash \<leftarrow> sph_call H SHABAL512 hash 64 hash;
     hash \<leftarrow> sph_call H HAMSI512 hash 64 hash;
     hash \<leftarrow> sph_call H ECHO512 hash 64 hash;
     hash \<leftarrow> sph_call H SHAVITE512 hash 64 hash;
     hash \<leftarrow> sph_call H BMW512 hash 64 hash;
     hash \<leftarrow> sph_call H SHABAL512 hash 64 hash;
     hash \<leftarrow> sph_call H GROESTL512 hash 64 hash;
     hash \<leftarrow> sph_call H SKEIN512 hash 64 hash;
     hash \<leftarrow> sph_call H JH512 hash 64 hash;
     hash \<leftarrow> sph_call H KECCAK512 hash 64 hash;
     hash \<leftarrow> sph_call H LUFFA512 hash 64 hash;
     hash \<leftarrow> sph_call H CUBEHASH512 hash 64 hash;
     hash \<leftarrow> sph_call H SHAVITE512 hash 64 hash;
     hash \<leftarrow> sph_call H SIMD512 hash 64 hash;
     hash \<leftarrow> sph_call H ECHO512 hash 64 hash;
     hash \<leftarrow> sph_call H HAMSI512 hash 64 hash;
     hash \<leftarrow> sph_call H FUGUE512 hash 64 hash;
     hash \<leftarrow> sph_call H SHABAL512 hash 64 hash;
     hash \<leftarrow> sph_call H WHIRLPOOL hash 64 hash;
     hash \<leftarrow> sph_call H BMW512 hash 64 hash;
     hash \<leftarrow> sph_call H GROESTL512 hash 64 hash;
     hash \<leftarrow> sph_call H SKEIN512 hash 64 hash;
     hash \<leftarrow> sph_call H JH512 hash 64 hash;
     hash \<leftarrow> sph_call H KECCAK512 hash 64 hash;
     hash \<leftarrow> sph_call H LUFFA512 hash 64 hash;
     hash \<leftarrow> sph_call H CUBEHASH512 hash 64 hash;
     hash \<leftarrow> sph_call H SHAVITE512 hash 64 hash;
     hash \<leftarrow> sph_call H SIMD512 hash 64 hash;
     hash \<leftarrow> sph_call H ECHO512 hash 64 hash;
     hash \<leftarrow> sph_call H HAMSI512 hash 64 hash;
     hash \<leftarrow> sph_call H FUGUE512 hash 64 hash;
     hash \<leftarrow> sph_call H SHABAL512 hash 64 hash;
     hash \<leftarrow> sph_call H WHIRLPOOL hash 64 hash;
     hash \<leftarrow> sph_call H SHA512 hash 64 hash;
     hash \<leftarrow> sph_call H WHIRLPOOL hash 64 hash;
     hash \<leftarrow> sph_call H BMW512 hash 64 hash;
     hash \<leftarrow> sph_call H GROESTL512 hash 64 hash;
     hash \<leftarrow> sph_call H SKEIN512 hash 64 hash;
     hash \<leftarrow> sph_call H JH512 hash 64 hash;
     hash \<leftarrow> sph_call H KECCAK512 hash 64 hash;
     hash \<leftarrow> sph_call H LUFFA512 hash 64 hash;
     hash \<leftarrow> sph_call H CUBEHASH512 hash 64 hash;
     hash \<leftarrow> sph_call H SHAVITE512 hash 64 hash;
     hash \<leftarrow> sph_call H SIMD512 hash 64 hash;
     hash \<leftarrow> sph_call H ECHO512 hash 64 hash;
     hash \<leftarrow> sph_call H HAMSI512 hash 64 hash;
     hash \<leftarrow> sph_call H FUGUE512 hash 64 hash;
     hash \<leftarrow> sph_call H SHABAL512 hash 64 hash;
     hash \<leftarrow> sph_call H WHIRLPOOL hash 64 hash;
     hash \<leftarrow> sph_call H SHA512 hash 64 hash;
     hash \<leftarrow> sph_call H HAVAL256_5 hash 64 hash;
     buf_read 0 32 hash
   }"

definition bmw_hash :: "sph \<Rightarrow> u8 list \<Rightarrow> u8 list \<Rightarrow> u8 list option" where
  "bmw_hash H hash input = do {
     hash \<leftarrow> sph_call H BMW256 input 80 hash;
     buf_read 0 32 hash
   }"

definition keccak256_hash :: "sph \<Rightarrow> u8 list \<Rightarrow> u8 list \<Rightarrow> u8 list option" where
  "keccak256_hash H hash input = do {
     hash \<leftarrow> sph_run H KECCAK256 input hash;
     buf_read 0 32 hash
   }"

text \<open>\<open>hsr14.c\<close>: the SM3 step clears the state before its digest is written.\<close>

definition hsr_hash :: "sph \<Rightarrow> u8 list \<Rightarrow> u8 list \<Rightarrow> u8 list option" where
  "hsr_hash H hash input = do {
     hash \<leftarrow> sph_run H BLAKE512 input hash;
     hash \<leftarrow> sph_call H BMW512 hash 64 hash;
     hash \<leftarrow> sph_call H GROESTL512 hash 64 hash;
     hash \<leftarrow> sph_call H SKEIN512 hash 64 hash;
     hash \<leftarrow> sph_call H JH512 hash 64 hash;
     hash \<leftarrow> sph_call H KECCAK512 hash 64 hash;
     hash \<leftarrow> sph_call H LUFFA512 hash 64 hash;
     hash \<leftarrow> sph_call H CUBEHASH512 hash 64 hash;
     hash \<leftarrow> sph_call H SHAVITE512 hash 64 hash;
     hash \<leftarrow> sph_call H SIMD512 hash 64 hash;
     hash \<leftarrow> sph_call H ECHO512 hash 64 hash;
     m \<leftarrow> buf_read 0 64 hash;
     hash \<leftarrow> buf_write 0 (replicate 64 0) hash;
     hash \<leftarrow> buf_write 0 (H SM3 m) hash;
     hash \<leftarrow> sph_call H HAMSI512 hash 64 hash;
     hash \<leftarrow> sph_call H FUGUE512 hash 64 hash;
     buf_read 0 32 hash
   }"

text \<open>\<open>bastion.c\<close>: the array starts cleared, HEFTY1 fills its first half.\<close>

definition bastion_hash :: "sph \<Rightarrow> u8 list \<Rightarrow> u8 list option" where
  "bastion_hash H input = do {
     hash \<leftarrow> sph_run H HEFTY1 input (replicate 64 0);
     hash \<leftarrow> sph_call H LUFFA512 hash 64 hash;
     w \<leftarrow> rd8 0 hash;
     hash \<leftarrow> (if w AND 8 \<noteq> 0 then sph_call H FUGUE512 hash 64 hash
             else sph_call H SKEIN512 hash 64 hash);
     hash \<leftarrow> sph_call H WHIRLPOOL hash 64 hash;
     hash \<leftarrow> sph_call H FUGUE512 hash 64 hash;
     w \<leftarrow> rd8 0 hash;
     hash \<leftarrow> (if w AND 8 \<noteq> 0 then sph_call H ECHO512 hash 64 hash
             else sph_call H LUFFA512 hash 64 hash);
     hash \<leftarrow> sph_call H SHABAL512 hash 64 hash;
     hash \<leftarrow> sph_call H SKEIN512 hash 64 hash;
     w \<leftarrow> rd8 0 hash;
     hash \<leftarrow> (if w AND 8 \<noteq> 0 then sph_call H SHABAL512 hash 64 hash
             else sph_call H WHIRLPOOL hash 64 hash);
     hash \<leftarrow> sph_call H SHABAL512 hash 64 hash;
     w \<leftarrow> rd8 0 hash;
     hash \<leftarrow> (if w AND 8 \<noteq> 0 then sph_call H HAMSI512 hash 64 hash
             else sph_call H LUFFA512 hash 64 hash);
     buf_read 0 32 hash
   }"

text \<open>\<open>jha.c\<close>: the body of the loop over \<open>round\<close>, and the function.\<close>

definition jha_round :: "sph \<Rightarrow> u8 list \<Rightarrow> u8 list option" where
  "jha_round H hash = do {
     w \<leftarrow> rd32 0 hash;
     hash \<leftarrow> (if w AND 1 \<noteq> 0 then sph_call H GROESTL512 hash 64 hash
             else sph_call H SKEIN512 hash 64 hash);
     w \<leftarrow> rd32 0 hash;
     (if w AND 1 \<noteq> 0 then sph_call H BLAKE512 hash 64 hash
      else sph_call H JH512 hash 64 hash)
   }"

definition jha_hash :: "sph \<Rightarrow> u8 list \<Rightarrow> u8 list \<Rightarrow> u8 list option" where
  "jha_hash H hash input = do {
     hash \<leftarrow> sph_call H KECCAK512 input 80 hash;
     hash \<leftarrow> fold_opt (\<lambda>round. jha_round H) [0..<(3::nat)] hash;
     buf_read 0 32 hash
   }"

definition whirlpool_hash :: "sph \<Rightarrow> u8 list \<Rightarrow> u8 list option" where
  "whirlpool_hash H input = do {
     hash \<leftarrow> sph_run H WHIRLPOOL1 input (replicate 64 0);
     hash \<leftarrow> sph_call H WHIRLPOOL1 hash 64 hash;
     hash \<leftarrow> sph_call H WHIRLPOOL1 hash 64 hash;
     hash \<leftarrow> sph_call H WHIRLPOOL1 hash 64 hash;
     buf_read 0 32 hash
   }"

text \<open>\<open>sph_X\<close> from one offset of an array to another offset of the same array.\<close>

definition sph_at :: "sph \<Rightarrow> algo \<Rightarrow> nat \<Rightarrow> nat \<Rightarrow> nat \<Rightarrow> u8 list \<Rightarrow> u8 list option" where
  "sph_at H a src n dst buf = do { m \<leftarrow> buf_read src n buf; buf_write dst (H a m) buf }"

text \<open>\<open>pentablake.c\<close>: \<open>hashB\<close> is the second half of the 128-byte array.\<close>

definition penta_hash :: "sph \<Rightarrow> u8 list \<Rightarrow> u8 list \<Rightarrow> u8 list option" where
  "penta_hash H hash input = do {
     hash \<leftarrow> sph_call H BLAKE512 input 80 hash;
     hash \<leftarrow> sph_at H BLAKE512 0 64 64 hash;
     hash \<leftarrow> sph_at H BLAKE512 64 64 0 hash;
     hash \<leftarrow> sph_at H BLAKE512 0 64 64 hash;
     hash \<leftarrow> sph_at H BLAKE512 64 64 0 hash;
     buf_read 0 32 hash
   }"

text \<open>\<open>skein.c\<close>, \<open>groestl.c\<close>, \<open>sha256t.c\<close>, \<open>sha256q.c\<close>: the last digest goes to the output.\<close>

definition skein_hash :: "sph \<Rightarrow> u8 list \<Rightarrow> u8 list \<Rightarrow> u8 list option" where
  "skein_hash H temp input = do {
     temp \<leftarrow> sph_run H SKEIN512 input temp;
     m \<leftarrow> buf_read 0 64 temp;
     Some (H SHA256 m)
   }"

definition groestlmyriad_hash :: "sph \<Rightarrow> u8 list \<Rightarrow> u8 list \<Rightarrow> u8 list option" where
  "groestlmyriad_hash H temp input = do {
     temp \<leftarrow> sph_run H GROESTL512 input temp;
     m \<leftarrow> buf_read 0 64 temp;
     Some (H SHA256 m)
   }"

definition sha256t_hash :: "sph \<Rightarrow> u8 list \<Rightarrow> u8 list \<Rightarrow> u8 list option" where
  "sha256t_hash H hash input = do {
     hash \<leftarrow> sph_run H SHA256 input hash;
     hash \<leftarrow> sph_call H SHA256 hash 32 hash;
     m \<leftarrow> buf_read 0 32 hash;
     Some (H SHA256 m)
   }"

definition sha256q_hash :: "sph \<Rightarrow> u8 list \<Rightarrow> u8 list \<Rightarrow> u8 list option" where
  "sha256q_hash H hash input = do {
     hash \<leftarrow> sph_run H SHA256 input hash;
     hash \<leftarrow> sph_call H SHA256 hash 32 hash;
     hash \<leftarrow> sph_call H SHA256 hash 32 hash;
     m \<leftarrow> buf_read 0 32 hash;
     Some (H SHA256 m)
   }"

text \<open>\<open>algos/equi.c\<close>: the block hash of the Equihash coins.\<close>

definition equi_hash :: "sph \<Rightarrow> u8 list \<Rightarrow> u8 list \<Rightarrow> u8 list option" where
  "equi_hash H output1 input = do {
     output1 \<leftarrow> sph_run H SHA256 input output1;
     m \<leftarrow> buf_read 0 32 output1;
     Some (H SHA256 m)
   }"

text \<open>\<open>xevan.c\<close>: twice the seventeen primitives over a 128-byte state.\<close>

definition xevan_hash :: "sph \<Rightarrow> u8 list \<Rightarrow> u8 list \<Rightarrow> u8 list option" where
  "xevan_hash H hash input = do {
     hash \<leftarrow> sph_run H BLAKE512 input hash;
     hash \<leftarrow> buf_write 64 (replicate 64 0) hash;
     hash \<leftarrow> sph_call H BMW512 hash 128 hash;
     hash \<leftarrow> sph_call H GROESTL512 hash 128 hash;
     hash \<leftarrow> sph_call H SKEIN512 hash 128 hash;
     hash \<leftarrow> sph_call H JH512 hash 128 hash;
     hash \<leftarrow> sph_call H KECCAK512 hash 128 hash;
     hash \<leftarrow> sph_call H LUFFA512 hash 128 hash;
     hash \<leftarrow> sph_call H CUBEHASH512 hash 128 hash;
     hash \<leftarrow> sph_call H SHAVITE512 hash 128 hash;
     hash \<leftarrow> sph_call H SIMD512 hash 128 hash;
     hash \<leftarrow> sph_call H ECHO512 hash 128 hash;
     hash \<leftarrow> sph_call H HAMSI512 hash 128 hash;
     hash \<leftarrow> sph_call H FUGUE512 hash 128 hash;
     hash \<leftarrow> sph_call H SHABAL512 hash 128 hash;
     hash \<leftarrow> sph_call H WHIRLPOOL hash 128 hash;
     hash \<leftarrow> sph_call H SHA512 hash 128 hash;
     hash \<leftarrow> sph_call H HAVAL256_5 hash 128 hash;
     hash \<leftarrow> buf_write 32 (replicate 96 0) hash;
     hash \<leftarrow> sph_call H BLAKE512 hash 128 hash;
     hash \<leftarrow> sph_call H BMW512 hash 128 hash;
     hash \<leftarrow> sph_call H GROESTL512 hash 128 hash;
     hash \<leftarrow> sph_call H SKEIN512 hash 128 hash;
     hash \<leftarrow> sph_call H JH512 hash 128 hash;
     hash \<leftarrow> sph_call H KECCAK512 hash 128 hash;
     hash \<leftarrow> sph_call H LUFFA512 hash 128 hash;
     hash \<leftarrow> sph_call H CUBEHASH512 hash 128 hash;
     hash \<leftarrow> sph_call H SHAVITE512 hash 128 hash;
     hash \<leftarrow> sph_call H SIMD512 hash 128 hash;
     hash \<leftarrow> sph_call H ECHO512 hash 128 hash;
     hash \<leftarrow> sph_call H HAMSI512 hash 128 hash;
     hash \<leftarrow> sph_call H FUGUE512 hash 128 hash;
     hash \<leftarrow> sph_call H SHABAL512 hash 128 hash;
     hash \<leftarrow> sph_call H WHIRLPOOL hash 128 hash;
     hash \<leftarrow> sph_call H SHA512 hash 128 hash;
     hash \<leftarrow> sph_call H HAVAL256_5 hash 128 hash;
     buf_read 0 32 hash
   }"

section \<open>Specification: chains of digests\<close>

text \<open>
  The contract of the chained functions, without buffers: each step hashes the previous
  64-byte state. \<open>Choose\<close> picks its primitive by the low bits of the state; a digest
  shorter than 64 bytes is extended by zeros, or leaves the end of the state in place
  (\<open>Over\<close>).
\<close>

datatype chain_step = Step algo | Over algo | Choose u32 algo algo

definition zext :: "nat \<Rightarrow> u8 list \<Rightarrow> u8 list" where
  "zext n d = d @ replicate (n - length d) 0"

fun run_step :: "sph \<Rightarrow> chain_step \<Rightarrow> u8 list \<Rightarrow> u8 list" where
  "run_step H (Step a) m = zext 64 (H a m)"
| "run_step H (Over a) m = H a m @ drop (length (H a m)) m"
| "run_step H (Choose k a b) m =
     zext 64 (H (if le32 (take 4 m) AND k \<noteq> 0 then a else b) m)"

definition run_chain :: "sph \<Rightarrow> chain_step list \<Rightarrow> u8 list \<Rightarrow> u8 list" where
  "run_chain H steps input = fold (run_step H) steps input"

section \<open>Every function is its chain\<close>

named_theorems chain_simps \<open>evaluation of one init, update, close on buffers that are large enough\<close>

lemma sph_len: "sph_ok H \<Longrightarrow> length (H a m) = digest_len a"
  by (simp add: sph_ok_def)

lemma digest_len_le: "digest_len a \<le> 64"
  by (cases a) simp_all

lemma length_run_step [chain_simps]:
  "sph_ok H \<Longrightarrow> length (run_step H (Step a) m) = 64"
  "sph_ok H \<Longrightarrow> length m = 64 \<Longrightarrow> length (run_step H (Over a) m) = 64"
  "sph_ok H \<Longrightarrow> length (run_step H (Choose k a b) m) = 64"
  using digest_len_le by (simp_all add: zext_def sph_len)

lemma zext_64: "sph_ok H \<Longrightarrow> digest_len a = 64 \<Longrightarrow> zext 64 (H a m) = H a m"
  by (simp add: zext_def sph_len)

text \<open>One call on a buffer that starts with the state \<open>S\<close> is one step of the chain.\<close>

lemma sph_run_step [chain_simps]:
  "sph_ok H \<Longrightarrow> digest_len a = 64 \<Longrightarrow> 64 \<le> length dst \<Longrightarrow>
   sph_run H a m dst = Some (run_step H (Step a) m @ drop 64 dst)"
  by (simp add: sph_run_def buf_write_def sph_len zext_64)

lemma sph_call_input [chain_simps]:
  "sph_ok H \<Longrightarrow> digest_len a = 64 \<Longrightarrow> n \<le> length m \<Longrightarrow> 64 \<le> length dst \<Longrightarrow>
   sph_call H a m n dst = Some (run_step H (Step a) (take n m) @ drop 64 dst)"
  by (simp add: sph_call_def buf_read_def buf_write_def sph_len zext_64)

lemma sph_call_short [chain_simps]:
  "sph_ok H \<Longrightarrow> digest_len a = 32 \<Longrightarrow> n \<le> length m \<Longrightarrow> 32 \<le> length dst \<Longrightarrow>
   sph_call H a m n dst = Some (H a (take n m) @ drop 32 dst)"
  by (simp add: sph_call_def buf_read_def buf_write_def sph_len)

lemma rd32_ok [chain_simps]: "4 \<le> length buf \<Longrightarrow> rd32 0 buf = Some (le32 (take 4 buf))"
  by (simp add: rd32_def buf_read_def)

lemma take_32_step [chain_simps]:
  "sph_ok H \<Longrightarrow> digest_len a = 32 \<Longrightarrow> take 32 (run_step H (Step a) m) = H a m"
  by (simp add: zext_def sph_len)

lemma take_32_over [chain_simps]:
  "sph_ok H \<Longrightarrow> digest_len a = 32 \<Longrightarrow> take 32 (run_step H (Over a) m) = H a m"
  by (simp add: sph_len)

lemma over_step [chain_simps]:
  "sph_ok H \<Longrightarrow> digest_len a = 32 \<Longrightarrow> H a S @ drop 32 S @ r = run_step H (Over a) S @ r"
  by (simp add: sph_len)

lemma choose_step [chain_simps]:
  "sph_ok H \<Longrightarrow>
   (if le32 (take 4 S) AND k \<noteq> 0 then Some (run_step H (Step a) S @ r) else Some (run_step H (Step b) S @ r)) =
   Some (run_step H (Choose k a b) S @ r)"
  by simp

lemma cleared_step [chain_simps]:
  "sph_ok H \<Longrightarrow> digest_len a = 32 \<Longrightarrow> H a S @ replicate 32 0 @ r = run_step H (Step a) S @ r"
  "sph_ok H \<Longrightarrow> digest_len a = 32 \<Longrightarrow> H a S @ replicate 32 0 = run_step H (Step a) S"
  by (simp_all add: zext_def sph_len)

lemma sph_run_short [chain_simps]:
  "sph_ok H \<Longrightarrow> digest_len a = 32 \<Longrightarrow> 32 \<le> length dst \<Longrightarrow>
   sph_run H a m dst = Some (H a m @ drop 32 dst)"
  by (simp add: sph_run_def buf_write_def sph_len)

lemmas chain_defs [chain_simps] = sph_len run_chain_def buf_read_def buf_write_def

declare run_step.simps [simp del]

definition c11_chain :: "chain_step list" where
  "c11_chain =
     [Step BLAKE512, Step BMW512, Step GROESTL512, Step JH512, Step KECCAK512,
      Step SKEIN512, Step LUFFA512, Step CUBEHASH512, Step SHAVITE512,
      Step SIMD512, Step ECHO512]"

lemma c11_hash_eq:
  assumes "sph_ok H" and "64 \<le> length A"
  shows "c11_hash H A input = Some (take 32 (run_chain H c11_chain input))"
  using assms by (simp add: c11_hash_def c11_chain_def chain_simps split del: if_split)

definition x11_chain :: "chain_step list" where
  "x11_chain =
     [Step BLAKE512, Step BMW512, Step GROESTL512, Step SKEIN512, Step JH512,
      Step KECCAK512, Step LUFFA512, Step CUBEHASH512, Step SHAVITE512,
      Step SIMD512, Step ECHO512]"

lemma x11_hash_eq:
  assumes "sph_ok H" and "64 \<le> length A" and "64 \<le> length B"
  shows "x11_hash H A B input = Some (take 32 (run_chain H x11_chain input))"
  using assms by (simp add: x11_hash_def x11_chain_def chain_simps split del: if_split)

definition x12_chain :: "chain_step list" where
  "x12_chain =
     [Step BLAKE512, Step BMW512, Step LUFFA512, Step CUBEHASH512, Step SHAVITE512,
      Step SIMD512, Step ECHO512, Step GROESTL512, Step SKEIN512, Step JH512,
      Step KECCAK512, Step HAMSI512]"

lemma x12_hash_eq:
  assumes "sph_ok H" and "64 \<le> length A"
  shows "x12_hash H A input = Some (take 32 (run_chain H x12_chain input))"
  using assms by (simp add: x12_hash_def x12_chain_def chain_simps split del: if_split)

definition x13_chain :: "chain_step list" where
  "x13_chain =
     [Step BLAKE512, Step BMW512, Step GROESTL512, Step SKEIN512, Step JH512,
      Step KECCAK512, Step LUFFA512, Step CUBEHASH512, Step SHAVITE512,
      Step SIMD512, Step ECHO512, Step HAMSI512, Step FUGUE512]"

lemma x13_hash_eq:
  assumes "sph_ok H" and "64 \<le> length A" and "64 \<le> length B"
  shows "x13_hash H A B input = Some (take 32 (run_chain H x13_chain input))"
  using assms by (simp add: x13_hash_def x13_chain_def chain_simps split del: if_split)

definition x14_chain :: "chain_step list" where
  "x14_chain =
     [Step BLAKE512, Step BMW512, Step GROESTL512, Step SKEIN512, Step JH512,
      Step KECCAK512, Step LUFFA512, Step CUBEHASH512, Step SHAVITE512,
      Step SIMD512, Step ECHO512, Step HAMSI512, Step FUGUE512, Step SHABAL512]"

lemma x14_hash_eq:
  assumes "sph_ok H" and "64 \<le> length A" and "64 \<le> length B"
  shows "x14_hash H A B input = Some (take 32 (run_chain H x14_chain input))"
  using assms by (simp add: x14_hash_def x14_chain_def chain_simps split del: if_split)

definition x15_chain :: "chain_step list" where
  "x15_chain =
     [Step BLAKE512, Step BMW512, Step GROESTL512, Step SKEIN512, Step JH512,
      Step KECCAK512, Step LUFFA512, Step CUBEHASH512, Step SHAVITE512,
      Step SIMD512, Step ECHO512, Step HAMSI512, Step FUGUE512, Step SHABAL512,
      Step WHIRLPOOL]"

lemma x15_hash_eq:
  assumes "sph_ok H" and "64 \<le> length A" and "64 \<le> length B"
  shows "x15_hash H A B input = Some (take 32 (run_chain H x15_chain input))"
  using assms by (simp add: x15_hash_def x15_chain_def chain_simps split del: if_split)

definition x17_chain :: "chain_step list" where
  "x17_chain =
     [Step BLAKE512, Step BMW512, Step GROESTL512, Step SKEIN512, Step JH512,
      Step KECCAK512, Step LUFFA512, Step CUBEHASH512, Step SHAVITE512,
      Step SIMD512, Step ECHO512, Step HAMSI512, Step FUGUE512, Step SHABAL512,
      Step WHIRLPOOL, Step SHA512, Step HAVAL256_5]"

lemma x17_hash_eq:
  assumes "sph_ok H" and "64 \<le> length A"
  shows "x17_hash H A input = Some (take 32 (run_chain H x17_chain input))"
  using assms by (simp add: x17_hash_def x17_chain_def chain_simps split del: if_split)

definition sib_chain :: "chain_step list" where
  "sib_chain =
     [Step BLAKE512, Step BMW512, Step GROESTL512, Step SKEIN512, Step JH512,
      Step KECCAK512, Step GOST512, Step LUFFA512, Step CUBEHASH512,
      Step SHAVITE512, Step SIMD512, Step ECHO512]"

lemma sib_hash_eq:
  assumes "sph_ok H" and "64 \<le> length A" and "64 \<le> length B" and "80 \<le> length input"
  shows "sib_hash H A B input = Some (take 32 (run_chain H sib_chain (take 80 input)))"
  using assms by (simp add: sib_hash_def sib_chain_def chain_simps split del: if_split)

definition vitalium_chain :: "chain_step list" where
  "vitalium_chain =
     [Step SKEIN512, Step CUBEHASH512, Step FUGUE512, Step GOST512,
      Step ECHO512, Step SHAVITE512, Step LUFFA512, Step GOST512, Step CUBEHASH512,
      Step FUGUE512, Step GOST512, Step ECHO512, Step SHAVITE512, Step LUFFA512]"

lemma vitalium_hash_eq:
  assumes "sph_ok H" and "64 \<le> length A" and "64 \<le> length B"
  shows "vitalium_hash H A B input = Some (take 32 (run_chain H vitalium_chain input))"
  using assms by (simp add: vitalium_hash_def vitalium_chain_def chain_simps split del: if_split)

definition veltor_chain :: "chain_step list" where
  "veltor_chain =
     [Step SKEIN512, Step SHAVITE512, Step SHABAL512, Step GOST512]"

lemma veltor_hash_eq:
  assumes "sph_ok H" and "64 \<le> length A" and "80 \<le> length input"
  shows "veltor_hash H A input = Some (take 32 (run_chain H veltor_chain (take 80 input)))"
  using assms by (simp add: veltor_hash_def veltor_chain_def chain_simps split del: if_split)

definition polytimos_chain :: "chain_step list" where
  "polytimos_chain =
     [Step SKEIN512, Step SHABAL512, Step ECHO512, Step LUFFA512, Step FUGUE512,
      Step GOST512]"

lemma polytimos_hash_eq:
  assumes "sph_ok H" and "64 \<le> length A" and "80 \<le> length input"
  shows "polytimos_hash H A input = Some (take 32 (run_chain H polytimos_chain (take 80 input)))"
  using assms by (simp add: polytimos_hash_def polytimos_chain_def chain_simps split del: if_split)

definition phi_chain :: "chain_step list" where
  "phi_chain =
     [Step SKEIN512, Step JH512, Step CUBEHASH512, Step FUGUE512, Step GOST512,
      Step ECHO512]"

lemma phi_hash_eq:
  assumes "sph_ok H" and "64 \<le> length A"
  shows "phi_hash H A input = Some (take 32 (run_chain H phi_chain input))"
  using assms by (simp add: phi_hash_def phi_chain_def chain_simps split del: if_split)

definition nist5_chain :: "chain_step list" where
  "nist5_chain =
     [Step BLAKE512, Step GROESTL512, Step JH512, Step KECCAK512, Step SKEIN512]"

lemma nist5_hash_eq:
  assumes "sph_ok H" and "64 \<le> length A"
  shows "nist5_hash H A input = Some (take 32 (run_chain H nist5_chain input))"
  using assms by (simp add: nist5_hash_def nist5_chain_def chain_simps split del: if_split)

definition qubit_chain :: "chain_step list" where
  "qubit_chain =
     [Step LUFFA512, Step CUBEHASH512, Step SHAVITE512, Step SIMD512,
      Step ECHO512]"

lemma qubit_hash_eq:
  assumes "sph_ok H" and "64 \<le> length A" and "64 \<le> length B"
  shows "qubit_hash H A B input = Some (take 32 (run_chain H qubit_chain input))"
  using assms by (simp add: qubit_hash_def qubit_chain_def chain_simps split del: if_split)

definition fresh_chain :: "chain_step list" where
  "fresh_chain =
     [Step SHAVITE512, Step SIMD512, Step SHAVITE512, Step SIMD512,
      Step ECHO512]"

lemma fresh_hash_eq:
  assumes "sph_ok H" and "64 \<le> length A" and "64 \<le> length B"
  shows "fresh_hash H A B input = Some (take 32 (run_chain H fresh_chain input))"
  using assms by (simp add: fresh_hash_def fresh_chain_def chain_simps split del: if_split)

definition skunk_chain :: "chain_step list" where
  "skunk_chain =
     [Step SKEIN512, Step CUBEHASH512, Step FUGUE512, Step GOST512]"

lemma skunk_hash_eq:
  assumes "sph_ok H" and "64 \<le> length A" and "80 \<le> length input"
  shows "skunk_hash H A input = Some (take 32 (run_chain H skunk_chain (take 80 input)))"
  using assms by (simp add: skunk_hash_def skunk_chain_def chain_simps split del: if_split)

definition tribus_chain :: "chain_step list" where
  "tribus_chain =
     [Step JH512, Step KECCAK512, Step ECHO512]"

lemma tribus_hash_eq:
  assumes "sph_ok H" and "64 \<le> length A" and "80 \<le> length input"
  shows "tribus_hash H A input = Some (take 32 (run_chain H tribus_chain (take 80 input)))"
  using assms by (simp add: tribus_hash_def tribus_chain_def chain_simps split del: if_split)

definition deep_chain :: "chain_step list" where
  "deep_chain =
     [Step LUFFA512, Step CUBEHASH512, Step ECHO512]"

lemma deep_hash_eq:
  assumes "sph_ok H" and "64 \<le> length A" and "64 \<le> length B"
  shows "deep_hash H A B input = Some (take 32 (run_chain H deep_chain input))"
  using assms by (simp add: deep_hash_def deep_chain_def chain_simps split del: if_split)

definition groestl_chain :: "chain_step list" where
  "groestl_chain =
     [Step GROESTL512, Step GROESTL512]"

lemma groestl_hash_eq:
  assumes "sph_ok H" and "64 \<le> length A" and "64 \<le> length B"
  shows "groestl_hash H A B input = Some (take 32 (run_chain H groestl_chain input))"
  using assms by (simp add: groestl_hash_def groestl_chain_def chain_simps split del: if_split)

definition luffa_chain :: "chain_step list" where
  "luffa_chain =
     [Step LUFFA512]"

lemma luffa_hash_eq:
  assumes "sph_ok H" and "64 \<le> length A" and "80 \<le> length input"
  shows "luffa_hash H A input = Some (take 32 (run_chain H luffa_chain (take 80 input)))"
  using assms by (simp add: luffa_hash_def luffa_chain_def chain_simps split del: if_split)

definition quark_chain :: "chain_step list" where
  "quark_chain =
     [Step BLAKE512, Step BMW512, Choose 8 GROESTL512 SKEIN512, Step GROESTL512,
      Step JH512, Choose 8 BLAKE512 BMW512, Step KECCAK512, Step SKEIN512,
      Choose 8 KECCAK512 JH512]"

lemma quark_hash_eq:
  assumes "sph_ok H" and "64 \<le> length A" and "64 \<le> length B"
  shows "quark_hash H A B input = Some (take 32 (run_chain H quark_chain input))"
  using assms by (simp add: quark_hash_def quark_chain_def chain_simps cong: if_cong split del: if_split)

definition hmq1725_chain :: "chain_step list" where
  "hmq1725_chain =
     [Step BMW512, Step WHIRLPOOL, Choose 24 GROESTL512 SKEIN512, Step JH512,
      Step KECCAK512, Choose 24 BLAKE512 BMW512, Step LUFFA512, Step CUBEHASH512,
      Choose 24 KECCAK512 JH512, Step SHAVITE512, Step SIMD512, Choose 24 WHIRLPOOL HAVAL256_5,
      Step ECHO512, Step BLAKE512, Choose 24 SHAVITE512 LUFFA512, Step HAMSI512,
      Step FUGUE512, Choose 24 ECHO512 SIMD512, Step SHABAL512, Step WHIRLPOOL,
      Choose 24 FUGUE512 SHA512, Step GROESTL512, Step SHA512, Choose 24 HAVAL256_5 WHIRLPOOL,
      Step BMW512]"

lemma hmq17_hash_eq:
  assumes "sph_ok H" and "64 \<le> length A"
  shows "hmq17_hash H A input = Some (take 32 (run_chain H hmq1725_chain input))"
  using assms by (simp add: hmq17_hash_def hmq1725_chain_def chain_simps cong: if_cong split del: if_split)

definition aergo_chain :: "chain_step list" where
  "aergo_chain =
     [Step ECHO512, Step SIMD512, Step BLAKE512, Step BMW512, Step WHIRLPOOL,
      Step GROESTL512, Step GOST512, Step SKEIN512, Step BMW512, Step JH512,
      Step LUFFA512, Step KECCAK512, Step GOST512, Step CUBEHASH512,
      Step ECHO512, Step SIMD512, Step HAMSI512, Step FUGUE512, Step SHAVITE512,
      Step SHABAL512, Over HAVAL256_5, Step SHAVITE512, Step GOST512,
      Step ECHO512, Step BLAKE512, Step JH512, Step CUBEHASH512, Step SIMD512]"

lemma aergo_hash_eq:
  assumes "sph_ok H" and "64 \<le> length A"
  shows "aergo_hash H A input = Some (take 32 (run_chain H aergo_chain input))"
  using assms by (simp add: aergo_hash_def aergo_chain_def chain_simps split del: if_split)

definition sonoa_chain :: "chain_step list" where
  "sonoa_chain =
     [Step BLAKE512, Step BMW512, Step GROESTL512, Step SKEIN512, Step JH512,
      Step KECCAK512, Step LUFFA512, Step CUBEHASH512, Step SHAVITE512,
      Step SIMD512, Step ECHO512, Step BMW512, Step GROESTL512, Step SKEIN512,
      Step JH512, Step KECCAK512, Step LUFFA512, Step CUBEHASH512, Step SHAVITE512,
      Step SIMD512, Step ECHO512, Step HAMSI512, Step BMW512, Step GROESTL512,
      Step SKEIN512, Step JH512, Step KECCAK512, Step LUFFA512, Step CUBEHASH512,
      Step SHAVITE512, Step SIMD512, Step ECHO512, Step HAMSI512, Step FUGUE512,
      Step BMW512, Step GROESTL512, Step SKEIN512, Step JH512, Step KECCAK512,
      Step LUFFA512, Step CUBEHASH512, Step SHAVITE512, Step SIMD512,
      Step ECHO512, Step HAMSI512, Step FUGUE512, Step SHABAL512, Step HAMSI512,
      Step ECHO512, Step SHAVITE512, Step BMW512, Step SHABAL512, Step GROESTL512,
      Step SKEIN512, Step JH512, Step KECCAK512, Step LUFFA512, Step CUBEHASH512,
      Step SHAVITE512, Step SIMD512, Step ECHO512, Step HAMSI512, Step FUGUE512,
      Step SHABAL512, Step WHIRLPOOL, Step BMW512, Step GROESTL512,
      Step SKEIN512, Step JH512, Step KECCAK512, Step LUFFA512, Step CUBEHASH512,
      Step SHAVITE512, Step SIMD512, Step ECHO512, Step HAMSI512, Step FUGUE512,
      Step SHABAL512, Step WHIRLPOOL, Step SHA512, Step WHIRLPOOL, Step BMW512,
      Step GROESTL512, Step SKEIN512, Step JH512, Step KECCAK512, Step LUFFA512,
      Step CUBEHASH512, Step SHAVITE512, Step SIMD512, Step ECHO512,
      Step HAMSI512, Step FUGUE512, Step SHABAL512, Step WHIRLPOOL,
      Step SHA512, Step HAVAL256_5]"

lemma sonoa_hash_eq:
  assumes "sph_ok H" and "64 \<le> length A" and "80 \<le> length input"
  shows "sonoa_hash H A input = Some (take 32 (run_chain H sonoa_chain (take 80 input)))"
  using assms by (simp add: sonoa_hash_def sonoa_chain_def chain_simps split del: if_split)

definition bmw_chain :: "chain_step list" where
  "bmw_chain =
     [Step BMW256]"

lemma bmw_hash_eq:
  assumes "sph_ok H" and "64 \<le> length A" and "80 \<le> length input"
  shows "bmw_hash H A input = Some (take 32 (run_chain H bmw_chain (take 80 input)))"
  using assms by (simp add: bmw_hash_def bmw_chain_def chain_simps split del: if_split)

definition keccak_chain :: "chain_step list" where
  "keccak_chain =
     [Step KECCAK256]"

lemma keccak256_hash_eq:
  assumes "sph_ok H" and "64 \<le> length A"
  shows "keccak256_hash H A input = Some (take 32 (run_chain H keccak_chain input))"
  using assms by (simp add: keccak256_hash_def keccak_chain_def chain_simps split del: if_split)

section \<open>The remaining functions\<close>

lemma bit_le32: "S \<noteq> [] \<Longrightarrow> n < 8 \<Longrightarrow> bit (le32 S) n \<longleftrightarrow> bit (hd S) n"
proof -
  assume S: "S \<noteq> []" and n: "n < 8"
  obtain b bs where b: "S = b # bs" using S by (cases S) auto
  have "be_val (rev S) = push_bit 8 (be_val (rev bs)) + unat b"
    by (simp add: b push_bit_eq_mult)
  then have "take_bit 8 (be_val (rev S)) = take_bit 8 (unat b)"
    by (simp add: push_bit_eq_mult take_bit_eq_mod)
  then have "bit (be_val (rev S)) n \<longleftrightarrow> bit (unat b) n"
    using n by (metis bit_take_bit_iff)
  then show ?thesis
    using n unfolding le32_def b bit_of_nat_iff by (simp add: bit_unsigned_iff)
qed

lemma rd8_ok [chain_simps]: "1 \<le> length buf \<Longrightarrow> rd8 0 buf = Some (hd buf)"
  by (cases buf) (simp_all add: rd8_def buf_read_def)

lemma and_8_le32: "S \<noteq> [] \<Longrightarrow> hd S AND 8 \<noteq> 0 \<longleftrightarrow> le32 (take 4 S) AND 8 \<noteq> 0"
  using bit_le32 [of "take 4 S" 3] and_exp_eq_0_iff_not_bit [of "hd S" 3]
    and_exp_eq_0_iff_not_bit [of "le32 (take 4 S)" 3] by simp

lemma choose_step_8 [chain_simps]:
  "sph_ok H \<Longrightarrow> length S = 64 \<Longrightarrow>
   (if hd S AND 8 \<noteq> 0 then Some (run_step H (Step a) S) else Some (run_step H (Step b) S)) =
   Some (run_step H (Choose 8 a b) S)"
  using and_8_le32 [of S] by (cases S) (simp_all add: run_step.simps)

definition hsr_chain :: "chain_step list" where
  "hsr_chain =
     [Step BLAKE512, Step BMW512, Step GROESTL512, Step SKEIN512, Step JH512, Step KECCAK512,
      Step LUFFA512, Step CUBEHASH512, Step SHAVITE512, Step SIMD512, Step ECHO512, Step SM3,
      Step HAMSI512, Step FUGUE512]"

lemma hsr_hash_eq:
  assumes "sph_ok H" and "64 \<le> length A"
  shows "hsr_hash H A input = Some (take 32 (run_chain H hsr_chain input))"
  using assms by (simp add: hsr_hash_def hsr_chain_def chain_simps split del: if_split)

definition bastion_chain :: "chain_step list" where
  "bastion_chain =
     [Step HEFTY1, Step LUFFA512, Choose 8 FUGUE512 SKEIN512, Step WHIRLPOOL, Step FUGUE512,
      Choose 8 ECHO512 LUFFA512, Step SHABAL512, Step SKEIN512, Choose 8 SHABAL512 WHIRLPOOL,
      Step SHABAL512, Choose 8 HAMSI512 LUFFA512]"

lemma bastion_hash_eq:
  assumes "sph_ok H"
  shows "bastion_hash H input = Some (take 32 (run_chain H bastion_chain input))"
  using assms by (simp add: bastion_hash_def bastion_chain_def chain_simps cong: if_cong split del: if_split)

definition jha_chain :: "chain_step list" where
  "jha_chain = Step KECCAK512 #
     concat (replicate 3 [Choose 1 GROESTL512 SKEIN512, Choose 1 BLAKE512 JH512])"

lemma jha_round_eq:
  "sph_ok H \<Longrightarrow> length S = 64 \<Longrightarrow>
   jha_round H (S @ r) = Some (run_step H (Choose 1 BLAKE512 JH512) (run_step H (Choose 1 GROESTL512 SKEIN512) S) @ r)"
  by (simp add: jha_round_def chain_simps cong: if_cong split del: if_split)

lemma jha_hash_eq:
  assumes "sph_ok H" and "64 \<le> length A" and "80 \<le> length input"
  shows "jha_hash H A input = Some (take 32 (run_chain H jha_chain (take 80 input)))"
  using assms by (simp add: jha_hash_def jha_chain_def jha_round_eq numeral_3_eq_3 chain_simps
      split del: if_split)

definition whirlpool_chain :: "chain_step list" where
  "whirlpool_chain = [Step WHIRLPOOL1, Step WHIRLPOOL1, Step WHIRLPOOL1, Step WHIRLPOOL1]"

lemma whirlpool_hash_eq:
  assumes "sph_ok H"
  shows "whirlpool_hash H input = Some (take 32 (run_chain H whirlpool_chain input))"
  using assms by (simp add: whirlpool_hash_def whirlpool_chain_def chain_simps
      split del: if_split)

definition penta_chain :: "chain_step list" where
  "penta_chain = [Step BLAKE512, Step BLAKE512, Step BLAKE512, Step BLAKE512, Step BLAKE512]"

lemma penta_hash_eq:
  assumes "sph_ok H" and "128 \<le> length A" and "80 \<le> length input"
  shows "penta_hash H A input = Some (take 32 (run_chain H penta_chain (take 80 input)))"
  using assms by (simp add: penta_hash_def penta_chain_def sph_at_def run_step.simps zext_64 chain_simps
      split del: if_split)

lemma skein_hash_eq:
  assumes "sph_ok H" and "64 \<le> length A"
  shows "skein_hash H A input = Some (take 32 (run_chain H [Step SKEIN512, Step SHA256] input))"
  using assms by (simp add: skein_hash_def chain_simps)

lemma groestlmyriad_hash_eq:
  assumes "sph_ok H" and "64 \<le> length A"
  shows "groestlmyriad_hash H A input = Some (take 32 (run_chain H [Step GROESTL512, Step SHA256] input))"
  using assms by (simp add: groestlmyriad_hash_def chain_simps)


section \<open>The table of chained algorithms\<close>

text \<open>
  The rows of \<open>g_algos\<close> in \<open>stratum.cpp\<close> whose function is one of the chains: name, function
  (\<open>A\<close>, \<open>B\<close> its uninitialised arrays), sizes of the arrays in bytes, number of input bytes read when it is a constant,
  chain.
\<close>

definition chain_table ::
  "(string \<times> (sph \<Rightarrow> u8 list \<Rightarrow> u8 list \<Rightarrow> u8 list \<Rightarrow> u8 list option) \<times> (nat \<times> nat) \<times> nat option \<times> chain_step list) list" where
  "chain_table =
     [(''c11'', \<lambda>H A B. c11_hash H A, (64, 0), None, c11_chain),
      (''x11'', x11_hash, (64, 64), None, x11_chain),
      (''x12'', \<lambda>H A B. x12_hash H A, (64, 0), None, x12_chain),
      (''x13'', x13_hash, (64, 64), None, x13_chain),
      (''x14'', x14_hash, (64, 64), None, x14_chain),
      (''x15'', x15_hash, (64, 64), None, x15_chain),
      (''x17'', \<lambda>H A B. x17_hash H A, (64, 0), None, x17_chain),
      (''sib'', sib_hash, (64, 64), Some 80, sib_chain),
      (''vitalium'', vitalium_hash, (64, 64), None, vitalium_chain),
      (''veltor'', \<lambda>H A B. veltor_hash H A, (64, 0), Some 80, veltor_chain),
      (''polytimos'', \<lambda>H A B. polytimos_hash H A, (64, 0), Some 80, polytimos_chain),
      (''phi'', \<lambda>H A B. phi_hash H A, (64, 0), None, phi_chain),
      (''nist5'', \<lambda>H A B. nist5_hash H A, (64, 0), None, nist5_chain),
      (''qubit'', qubit_hash, (64, 64), None, qubit_chain),
      (''fresh'', fresh_hash, (64, 64), None, fresh_chain),
      (''skunk'', \<lambda>H A B. skunk_hash H A, (64, 0), Some 80, skunk_chain),
      (''tribus'', \<lambda>H A B. tribus_hash H A, (64, 0), Some 80, tribus_chain),
      (''deep'', deep_hash, (64, 64), None, deep_chain),
      (''groestl'', groestl_hash, (64, 64), None, groestl_chain),
      (''luffa'', \<lambda>H A B. luffa_hash H A, (64, 0), Some 80, luffa_chain),
      (''quark'', quark_hash, (64, 64), None, quark_chain),
      (''hmq1725'', \<lambda>H A B. hmq17_hash H A, (128, 0), None, hmq1725_chain),
      (''aergo'', \<lambda>H A B. aergo_hash H A, (64, 0), None, aergo_chain),
      (''sonoa'', \<lambda>H A B. sonoa_hash H A, (64, 0), Some 80, sonoa_chain),
      (''bmw'', \<lambda>H A B. bmw_hash H A, (128, 0), Some 80, bmw_chain),
      (''keccak'', \<lambda>H A B. keccak256_hash H A, (64, 0), None, keccak_chain),
      (''hsr'', \<lambda>H A B. hsr_hash H A, (64, 0), None, hsr_chain),
      (''bastion'', \<lambda>H A B. bastion_hash H, (0, 0), None, bastion_chain),
      (''jha'', \<lambda>H A B. jha_hash H A, (64, 0), Some 80, jha_chain),
      (''whirlpool'', \<lambda>H A B. whirlpool_hash H, (0, 0), None, whirlpool_chain),
      (''penta'', \<lambda>H A B. penta_hash H A, (128, 0), Some 80, penta_chain),
      (''skein'', \<lambda>H A B. skein_hash H A, (64, 0), None, [Step SKEIN512, Step SHA256]),
      (''myr-gr'', \<lambda>H A B. groestlmyriad_hash H A, (64, 0), None, [Step GROESTL512, Step SHA256])]"

lemmas chain_eqs = c11_hash_eq x11_hash_eq x12_hash_eq x13_hash_eq x14_hash_eq x15_hash_eq x17_hash_eq sib_hash_eq vitalium_hash_eq veltor_hash_eq polytimos_hash_eq phi_hash_eq nist5_hash_eq qubit_hash_eq fresh_hash_eq skunk_hash_eq tribus_hash_eq deep_hash_eq groestl_hash_eq luffa_hash_eq quark_hash_eq hmq17_hash_eq aergo_hash_eq sonoa_hash_eq bmw_hash_eq keccak256_hash_eq hsr_hash_eq bastion_hash_eq jha_hash_eq whirlpool_hash_eq penta_hash_eq skein_hash_eq groestlmyriad_hash_eq

definition input_used :: "nat option \<Rightarrow> u8 list \<Rightarrow> u8 list" where
  "input_used pre input = (case pre of None \<Rightarrow> input | Some n \<Rightarrow> take n input)"

definition input_enough :: "nat option \<Rightarrow> u8 list \<Rightarrow> bool" where
  "input_enough pre input = (case pre of None \<Rightarrow> True | Some n \<Rightarrow> n \<le> length input)"

lemma chain_table_all:
  assumes "sph_ok H"
  shows "list_all (\<lambda>(name, f, (nA, nB), pre, steps). nA \<le> length A \<longrightarrow> nB \<le> length B \<longrightarrow> input_enough pre input \<longrightarrow>
           f H A B input = Some (take 32 (run_chain H steps (input_used pre input)))) chain_table"
  using assms by (simp add: chain_table_def input_enough_def input_used_def chain_eqs)

section \<open>Properties\<close>

text \<open>
  C6. Every chained proof-of-work function of the table computes its chain of primitives: on
  arrays of the declared size the function stays inside them, the double buffering hands
  each digest to the next primitive in the stated order and with the stated branch choices,
  and the 32 result bytes are a function of the input alone, whatever the uninitialised
  arrays held.
\<close>

theorem chained_functions_are_chains:
  assumes "sph_ok H" and "(name, f, (nA, nB), pre, steps) \<in> set chain_table"
    and "nA \<le> length A" and "nB \<le> length B" and "input_enough pre input"
  shows "f H A B input = Some (take 32 (run_chain H steps (input_used pre input)))"
  using chain_table_all [OF assms(1), of A B input] assms(2-5) by (auto simp: list_all_iff)

theorem chained_functions_are_chains_witness:
  "quark_hash (\<lambda>a m. replicate (digest_len a) 0) (replicate 64 7) (replicate 64 9) [1, 2] =
   Some (take 32 (run_chain (\<lambda>a m. replicate (digest_len a) 0) quark_chain [1, 2]))"
proof -
  let ?H = "\<lambda>a (m :: u8 list). replicate (digest_len a) (0 :: u8)"
  have "(''quark'', quark_hash, (64, 64), None, quark_chain) \<in> set chain_table"
    by (simp add: chain_table_def)
  from chained_functions_are_chains [OF _ this, of ?H "replicate 64 7" "replicate 64 9" "[1, 2]"]
  show ?thesis by (simp add: sph_ok_def input_enough_def input_used_def)
qed

section \<open>Functions over other states\<close>

definition wide_step :: "sph \<Rightarrow> algo \<Rightarrow> u8 list \<Rightarrow> u8 list" where
  "wide_step H a m = zext 128 (H a m)"

lemma wide_len: "sph_ok H \<Longrightarrow> length (wide_step H a m) = 128"
  using digest_len_le [of a] by (simp add: wide_step_def zext_def sph_len)

lemma wide_tail: "sph_ok H \<Longrightarrow> drop 64 (wide_step H a m) = replicate 64 0"
  using digest_len_le [of a] by (simp add: wide_step_def zext_def sph_len)

lemma wide_call:
  "sph_ok H \<Longrightarrow> digest_len a = 64 \<Longrightarrow>
   sph_call H a (wide_step H b m) 128 (wide_step H b m) = Some (wide_step H a (wide_step H b m))"
  using wide_tail [of H b m]
  by (simp add: sph_call_def buf_read_def buf_write_def wide_len sph_len)
     (simp add: wide_step_def zext_def sph_len)

lemma wide_first:
  "sph_ok H \<Longrightarrow> digest_len a = 64 \<Longrightarrow> length A = 128 \<Longrightarrow>
   (do { hash \<leftarrow> sph_run H a m A; buf_write 64 (replicate 64 0) hash }) = Some (wide_step H a m)"
  by (simp add: sph_run_def buf_write_def sph_len) (simp add: wide_step_def zext_def sph_len)

lemma wide_cleared:
  "sph_ok H \<Longrightarrow> digest_len a = 32 \<Longrightarrow>
   (do { hash \<leftarrow> sph_call H a (wide_step H b m) 128 (wide_step H b m); buf_write 32 (replicate 96 0) hash }) =
   Some (wide_step H a (wide_step H b m))"
  by (simp add: sph_call_def buf_read_def buf_write_def wide_len sph_len)
     (simp add: wide_step_def zext_def sph_len)

lemma wide_last:
  "sph_ok H \<Longrightarrow> digest_len a = 32 \<Longrightarrow>
   (do { hash \<leftarrow> sph_call H a (wide_step H b m) 128 (wide_step H b m); buf_read 0 32 hash }) =
   Some (take 32 (wide_step H a (wide_step H b m)))"
  by (simp add: sph_call_def buf_read_def buf_write_def wide_len sph_len)
     (simp add: wide_step_def zext_def sph_len)

lemma wide_first_then:
  "sph_ok H \<Longrightarrow> digest_len a = 64 \<Longrightarrow> length A = 128 \<Longrightarrow>
   Option.bind (sph_run H a m A) (\<lambda>h. Option.bind (buf_write 64 (replicate 64 0) h) g) = g (wide_step H a m)"
  using wide_first [of H a A m] by (cases "sph_run H a m A") simp_all

lemma wide_cleared_then:
  "sph_ok H \<Longrightarrow> digest_len a = 32 \<Longrightarrow>
   Option.bind (sph_call H a (wide_step H b m) 128 (wide_step H b m))
     (\<lambda>h. Option.bind (buf_write 32 (replicate 96 0) h) g) = g (wide_step H a (wide_step H b m))"
  using wide_cleared [of H a b m] by (cases "sph_call H a (wide_step H b m) 128 (wide_step H b m)") simp_all

definition x17_algos :: "algo list" where
  "x17_algos = [BLAKE512, BMW512, GROESTL512, SKEIN512, JH512, KECCAK512, LUFFA512, CUBEHASH512,
     SHAVITE512, SIMD512, ECHO512, HAMSI512, FUGUE512, SHABAL512, WHIRLPOOL, SHA512, HAVAL256_5]"

text \<open>
  \<open>xevan_hash\<close> runs the seventeen primitives of x17 twice over a 128-byte state in which
  every digest is extended by zeros; what the 128 bytes of its array held before does not
  matter.
\<close>

lemma xevan_hash_twice:
  assumes "sph_ok H" and "length A = 128"
  shows "xevan_hash H A input = Some (take 32 (fold (wide_step H) (x17_algos @ x17_algos) input))"
  using assms by (simp add: xevan_hash_def x17_algos_def wide_first_then wide_cleared_then wide_call wide_last)

text \<open>
  The SHA-256 chains: the block hash of the Equihash coins is the double SHA-256 of the
  whole header with nonce and solution, \<open>sha256t\<close> and \<open>sha256q\<close> iterate three and four times.
\<close>

lemma sha256_chains:
  assumes "sph_ok H" and "32 \<le> length A"
  shows "equi_hash H A input = Some (((H SHA256) ^^ 2) input) \<and>
         sha256t_hash H A input = Some (((H SHA256) ^^ 3) input) \<and>
         sha256q_hash H A input = Some (((H SHA256) ^^ 4) input)"
  using assms
  by (simp add: equi_hash_def sha256t_hash_def sha256q_hash_def sph_run_def sph_call_def buf_write_def
      buf_read_def sph_len eval_nat_numeral(2,3))

end
