(* ===== verification/Hash_Orders.thy ===== *)
theory Hash_Orders
  imports Hash_Chains "HOL-Library.Multiset" "HOL-Library.Signed_Division" "HOL-Library.List_Lexorder"
begin

text \<open>
  The chained proof-of-work functions whose order of primitives depends on the header:
  \<open>x16r.c\<close>, \<open>x16rv2.c\<close>, \<open>x16s.c\<close> (nibbles of the previous block hash), \<open>hex.c\<close> (first byte of
  each state), \<open>timetravel.c\<close>, \<open>bitcore.c\<close>, \<open>exosis.c\<close>, \<open>x11evo.c\<close> (permutations chosen by
  the time stamp) and \<open>zr5.c\<close> (a table of permutations). Primitives and buffers are those
  of \<open>Hash_Chains\<close>.
\<close>

section \<open>Orders from the previous block hash\<close>

text \<open>The \<open>enum Algo\<close> of \<open>x16r.c\<close>, \<open>x16s.c\<close>, \<open>x16rv2.c\<close> and \<open>hex.c\<close>.\<close>

definition x16_algos :: "algo list" where
  "x16_algos = [BLAKE512, BMW512, GROESTL512, JH512, KECCAK512, SKEIN512, LUFFA512, CUBEHASH512,
     SHAVITE512, SIMD512, ECHO512, HAMSI512, FUGUE512, SHABAL512, WHIRLPOOL, SHA512]"

definition algo_digit :: "u8 list \<Rightarrow> nat \<Rightarrow> u8" where
  "algo_digit prevblock j =
     (let b = (15 - j) div 2 in if odd j then prevblock ! b AND 0xF else drop_bit 4 (prevblock ! b))"

definition hex_digit :: "nat \<Rightarrow> char" where
  "hex_digit d = (if 10 \<le> d then char_of (65 + (d - 10)) else char_of (48 + d))"

definition x16r_order :: "u8 list \<Rightarrow> string" where
  "x16r_order prevblock = map (\<lambda>j. hex_digit (unat (algo_digit prevblock j))) [0..<16]"

text \<open>\<open>x16s.c\<close>: the inner loop moves the entries before \<open>offset\<close> one place up.\<close>

definition shift_up :: "nat \<Rightarrow> 'a list \<Rightarrow> 'a list" where
  "shift_up offset output = foldl (\<lambda>out j. out[Suc j := out ! j]) output (rev [0..<offset])"

definition x16s_insert :: "u8 list \<Rightarrow> nat \<Rightarrow> string \<Rightarrow> string" where
  "x16s_insert prevblock i output =
     (let offset = unat (algo_digit prevblock i);
          oldVal = output ! offset
      in (shift_up offset output)[0 := oldVal])"

definition x16s_order :: "u8 list \<Rightarrow> string" where
  "x16s_order prevblock = fold (x16s_insert prevblock) [0..<16] ''0123456789ABCDEF''"

definition order_algo :: "char \<Rightarrow> nat" where
  "order_algo elem =
     (let c = of_char elem :: nat in if 65 \<le> c then c - 65 + 10 else c - 48)"

text \<open>One pass of the loop: the switch has no default, so an index above 15 changes nothing.\<close>

definition x16_round :: "sph \<Rightarrow> u8 list \<Rightarrow> string \<Rightarrow> nat \<Rightarrow> u8 list \<Rightarrow> u8 list option" where
  "x16_round H input hashOrder i hash =
     (let algo = order_algo (hashOrder ! i)
      in if algo < 16 then
           (if i = 0 then sph_run H (x16_algos ! algo) input hash
            else sph_call H (x16_algos ! algo) hash 64 hash)
         else Some hash)"

definition x16r_hash :: "sph \<Rightarrow> u8 list \<Rightarrow> u8 list \<Rightarrow> u8 list option" where
  "x16r_hash H hash input = do {
     prevblock \<leftarrow> buf_read 4 8 input;
     hash \<leftarrow> fold_opt (x16_round H input (x16r_order prevblock)) [0..<16] hash;
     buf_read 0 32 hash
   }"

definition x16s_hash :: "sph \<Rightarrow> u8 list \<Rightarrow> u8 list \<Rightarrow> u8 list option" where
  "x16s_hash H hash input = do {
     prevblock \<leftarrow> buf_read 4 8 input;
     hash \<leftarrow> fold_opt (x16_round H input (x16s_order prevblock)) [0..<16] hash;
     buf_read 0 32 hash
   }"

text \<open>
  \<open>x16rv2.c\<close>: Keccak, Luffa and SHA-512 are preceded by Tiger, whose 24-byte digest
  \<open>padtiger512\<close> extends by zeros.
\<close>

definition tiger_first :: "algo \<Rightarrow> bool" where
  "tiger_first a \<longleftrightarrow> a \<in> {KECCAK512, LUFFA512, SHA512}"

definition x16rv2_round :: "sph \<Rightarrow> u8 list \<Rightarrow> string \<Rightarrow> nat \<Rightarrow> u8 list \<Rightarrow> u8 list option" where
  "x16rv2_round H input hashOrder i hash =
     (let algo = order_algo (hashOrder ! i); a = x16_algos ! algo
      in if algo < 16 then
           (if tiger_first a then do {
              hash \<leftarrow> (if i = 0 then sph_run H TIGER input hash else sph_call H TIGER hash 64 hash);
              hash \<leftarrow> buf_write 24 (replicate 40 0) hash;
              sph_call H a hash 64 hash
            }
            else if i = 0 then sph_run H a input hash
            else sph_call H a hash 64 hash)
         else Some hash)"

definition x16rv2_hash :: "sph \<Rightarrow> u8 list \<Rightarrow> u8 list \<Rightarrow> u8 list option" where
  "x16rv2_hash H hash input = do {
     prevblock \<leftarrow> buf_read 4 8 input;
     hash \<leftarrow> fold_opt (x16rv2_round H input (x16r_order prevblock)) [0..<16] hash;
     buf_read 0 32 hash
   }"

text \<open>\<open>hex.c\<close>: the next primitive is the first byte of the state modulo 16.\<close>

definition hex_round :: "sph \<Rightarrow> u8 list \<Rightarrow> nat \<Rightarrow> nat \<times> u8 list \<Rightarrow> (nat \<times> u8 list) option" where
  "hex_round H input i = (\<lambda>(curr_algo, hash). do {
     hash \<leftarrow> (if curr_algo < 16 then
               (if i = 0 then sph_run H (x16_algos ! curr_algo) input hash
                else sph_call H (x16_algos ! curr_algo) hash 64 hash)
             else Some hash);
     w \<leftarrow> rd8 0 hash;
     Some (unat w mod 16, hash)
   })"

definition hex_hash :: "sph \<Rightarrow> u8 list \<Rightarrow> u8 list \<Rightarrow> u8 list option" where
  "hex_hash H hash input = do {
     prevblock \<leftarrow> buf_read 4 8 input;
     (curr_algo, hash) \<leftarrow> fold_opt (hex_round H input) [0..<16] (unat (drop_bit 4 (prevblock ! 7)), hash);
     buf_read 0 32 hash
   }"

section \<open>Permutations\<close>

definition swap_at :: "nat \<Rightarrow> nat \<Rightarrow> 'a list \<Rightarrow> 'a list" where
  "swap_at i j xs = xs[i := xs ! j, j := xs ! i]"

text \<open>\<open>reverse(pbegin, pend)\<close> with the two pointers as indices.\<close>

function reverse_range :: "'a list \<Rightarrow> nat \<Rightarrow> nat \<Rightarrow> 'a list" where
  "reverse_range xs b e =
     (if b < e \<and> b \<noteq> e - 1 then reverse_range (swap_at b (e - 1) xs) (Suc b) (e - 1) else xs)"
  by pat_completeness auto
termination
  by (relation "measure (\<lambda>(xs, b, e). e - b)") auto

declare reverse_range.simps [simp del]

text \<open>The scan for the last ascent: the index of its first element.\<close>

fun last_ascent :: "'a::linorder list \<Rightarrow> nat \<Rightarrow> nat option" where
  "last_ascent xs 0 = None"
| "last_ascent xs (Suc i) = (if xs ! i < xs ! Suc i then Some i else last_ascent xs i)"

text \<open>\<open>while (!(*i < *--k))\<close> from the end; it stops at the latest at the successor of \<open>i\<close>.\<close>

fun last_greater :: "'a::linorder list \<Rightarrow> nat \<Rightarrow> nat \<Rightarrow> nat" where
  "last_greater xs i 0 = 0"
| "last_greater xs i (Suc k) = (if xs ! i < xs ! k then k else last_greater xs i k)"

definition next_permutation :: "'a::linorder list \<Rightarrow> 'a list" where
  "next_permutation xs =
     (if length xs < 2 then xs
      else (case last_ascent xs (length xs - 1) of
              Some i \<Rightarrow> reverse_range (swap_at i (last_greater xs i (length xs)) xs) (Suc i) (length xs)
            | None \<Rightarrow> reverse_range xs 0 (length xs)))"

text \<open>The loop of \<open>timetravel.c\<close>, \<open>bitcore.c\<close> and \<open>exosis.c\<close> over \<open>cnt\<close> slots of 64 bytes.\<close>

definition travel_algos :: "algo list" where
  "travel_algos = [BLAKE512, BMW512, GROESTL512, SKEIN512, JH512, KECCAK512, LUFFA512, CUBEHASH512,
     SHAVITE512, SIMD512]"

definition travel_round :: "sph \<Rightarrow> nat \<Rightarrow> u8 list \<Rightarrow> nat list \<Rightarrow> nat \<Rightarrow> u8 list \<Rightarrow> u8 list option" where
  "travel_round H cnt input permutation i hash =
     (if permutation ! i < cnt then do {
        m \<leftarrow> (if i = 0 then Some input else buf_read (64 * (i - 1)) 64 hash);
        buf_write (64 * i) (H (travel_algos ! (permutation ! i)) m) hash
      } else Some hash)"

definition travel_hash :: "nat \<Rightarrow> u32 \<Rightarrow> sph \<Rightarrow> u8 list \<Rightarrow> u8 list \<Rightarrow> u8 list option" where
  "travel_hash cnt base H hash input = do {
     timestamp \<leftarrow> rd32 68 input;
     let steps = unat ((timestamp - base) mod 40320);
     let permutation = (next_permutation ^^ steps) [0..<cnt];
     hash \<leftarrow> fold_opt (travel_round H cnt input permutation) [0..<cnt] hash;
     buf_read (64 * (cnt - 1)) 32 hash
   }"

definition timetravel_hash :: "sph \<Rightarrow> u8 list \<Rightarrow> u8 list \<Rightarrow> u8 list option" where
  "timetravel_hash = travel_hash 8 1389040865"

definition timetravel10_hash :: "sph \<Rightarrow> u8 list \<Rightarrow> u8 list \<Rightarrow> u8 list option" where
  "timetravel10_hash = travel_hash 10 1492973331"

definition exosis_hash :: "sph \<Rightarrow> u8 list \<Rightarrow> u8 list \<Rightarrow> u8 list option" where
  "exosis_hash = travel_hash 8 1538556426"

section \<open>x11evo\<close>

definition initPerm :: "nat \<Rightarrow> nat list" where
  "initPerm cnt = [0..<cnt]"

fun scan_tail :: "nat list \<Rightarrow> nat \<Rightarrow> nat" where
  "scan_tail n 0 = 0"
| "scan_tail n (Suc i) = (if n ! Suc i \<le> n ! i then scan_tail n i else Suc i)"

fun scan_swap :: "nat list \<Rightarrow> nat \<Rightarrow> nat \<Rightarrow> nat" where
  "scan_swap n tail 0 = 0"
| "scan_swap n tail (Suc j) =
     (if tail < Suc j \<and> n ! Suc j \<le> n ! (tail - 1) then scan_swap n tail j else Suc j)"

function swap_ends :: "'a list \<Rightarrow> nat \<Rightarrow> nat \<Rightarrow> 'a list" where
  "swap_ends n i j = (if i < j then swap_ends (swap_at i j n) (Suc i) (j - 1) else n)"
  by pat_completeness auto
termination
  by (relation "measure (\<lambda>(n, i, j). j - i)") auto

declare swap_ends.simps [simp del]

definition nextPerm :: "nat list \<Rightarrow> bool \<times> nat list" where
  "nextPerm n =
     (let cnt = length n
      in if cnt \<le> 1 then (False, n)
         else (let tail = scan_tail n (cnt - 1);
                   n = (if 0 < tail then swap_at (tail - 1) (scan_swap n tail (cnt - 1)) n else n)
               in (tail \<noteq> 0, swap_ends n tail (cnt - 1))))"

definition evo_order :: "int \<Rightarrow> string" where
  "evo_order seq = map hex_digit (((\<lambda>n. snd (nextPerm n)) ^^ nat seq) (initPerm 11))"

text \<open>The two static variables.\<close>

record evo_state =
  hashOrder :: string
  s_sequence :: int

definition evo_initial :: evo_state where
  "evo_initial = \<lparr>hashOrder = [], s_sequence = -1\<rparr>"

definition getCurrentAlgoSeq :: "u32 \<Rightarrow> int" where
  "getCurrentAlgoSeq current_time = sint (current_time - 0x57254700) sdiv 86400"

definition evo_twisted_code :: "u32 \<Rightarrow> evo_state \<Rightarrow> evo_state" where
  "evo_twisted_code ntime st =
     (let seq = getCurrentAlgoSeq ntime
      in if s_sequence st \<noteq> seq then \<lparr>hashOrder = evo_order seq, s_sequence = seq\<rparr> else st)"

definition evo_algos :: "algo list" where
  "evo_algos = [BLAKE512, BMW512, GROESTL512, SKEIN512, JH512, KECCAK512, LUFFA512, CUBEHASH512,
     SHAVITE512, SIMD512, ECHO512]"

definition evo_round :: "sph \<Rightarrow> u8 list \<Rightarrow> string \<Rightarrow> nat \<Rightarrow> u8 list \<Rightarrow> u8 list option" where
  "evo_round H input order i hash =
     (let algo = order_algo (order ! i)
      in if algo < 11 then
           (if i = 0 then sph_run H (evo_algos ! algo) input hash
            else sph_call H (evo_algos ! algo) hash 64 hash)
         else Some hash)"

definition x11evo_hash :: "sph \<Rightarrow> evo_state \<Rightarrow> u8 list \<Rightarrow> u8 list \<Rightarrow> (evo_state \<times> u8 list) option" where
  "x11evo_hash H st hash input = do {
     ntime \<leftarrow> rd32 68 input;
     let st = evo_twisted_code ntime st;
     hash \<leftarrow> fold_opt (evo_round H input (hashOrder st)) [0..<length (hashOrder st)] hash;
     out \<leftarrow> buf_read 0 32 hash;
     Some (st, out)
   }"

section \<open>zr5\<close>

definition permut :: "nat list list" where
  "permut =
     [[0, 1, 2, 3], [0, 1, 3, 2], [0, 2, 1, 3], [0, 2, 3, 1], [0, 3, 1, 2], [0, 3, 2, 1],
      [1, 0, 2, 3], [1, 0, 3, 2], [1, 2, 0, 3], [1, 2, 3, 0], [1, 3, 0, 2], [1, 3, 2, 0],
      [2, 0, 1, 3], [2, 0, 3, 1], [2, 1, 0, 3], [2, 1, 3, 0], [2, 3, 0, 1], [2, 3, 1, 0],
      [3, 0, 1, 2], [3, 0, 2, 1], [3, 1, 0, 2], [3, 1, 2, 0], [3, 2, 0, 1], [3, 2, 1, 0]]"

definition zr_algos :: "algo list" where
  "zr_algos = [BLAKE512, GROESTL512, JH512, SKEIN512]"

text \<open>Five slots of 64 bytes; the result replaces the first 32 bytes of the output buffer.\<close>

definition zr5_round :: "sph \<Rightarrow> nat list \<Rightarrow> nat \<Rightarrow> u8 list \<Rightarrow> u8 list option" where
  "zr5_round H order i hash = sph_at H (zr_algos ! (order ! i)) (64 * i) 64 (64 * (i + 1)) hash"

definition zr5_hash_512 :: "sph \<Rightarrow> u8 list \<Rightarrow> u8 list \<Rightarrow> u8 list \<Rightarrow> u8 list option" where
  "zr5_hash_512 H hash output input = do {
     hash \<leftarrow> sph_run H KECCAK512 input hash;
     w \<leftarrow> rd32 0 hash;
     let norder = unat (w mod 24);
     hash \<leftarrow> fold_opt (zr5_round H (permut ! norder)) [0..<4] hash;
     m \<leftarrow> buf_read 256 32 hash;
     buf_write 0 m output
   }"

definition pok_version :: "u32 \<Rightarrow> u32 \<Rightarrow> u32" where
  "pok_version version nPoK =
     (let nPoK = nPoK AND 0xFFFF0000;
          version = version AND NOT 0x00008000
      in version OR (0xFFFF0000 AND nPoK))"

definition zr5_hash :: "sph \<Rightarrow> u8 list \<Rightarrow> u8 list \<Rightarrow> u8 list \<Rightarrow> u8 list option" where
  "zr5_hash H hash output512 input = do {
     version \<leftarrow> rd32 0 input;
     output512 \<leftarrow> zr5_hash_512 H hash output512 input;
     nPoK \<leftarrow> rd32 0 output512;
     input512 \<leftarrow> buf_write 0 (le_bytes 4 (unat (pok_version version nPoK))) input;
     output512 \<leftarrow> zr5_hash_512 H hash output512 input512;
     buf_read 0 32 output512
   }"

section \<open>x22i\<close>

text \<open>
  \<open>x22i.c\<close>: \<open>swifftx\<close> is \<open>ComputeSingleSWIFFTX\<close> (it writes 65 bytes: the 64 of the sum and
  the carry byte), \<open>lyra2\<close> the call of \<open>LYRA2\<close> with 32 bytes of output.
\<close>

definition x22i_hash ::
  "sph \<Rightarrow> (u8 list \<Rightarrow> u8 list) \<Rightarrow> (u8 list \<Rightarrow> u8 list \<Rightarrow> u8 list) \<Rightarrow> u8 list \<Rightarrow> u8 list \<Rightarrow> u8 list option" where
  "x22i_hash H swifftx lyra2 hash2 input = do {
     hash \<leftarrow> sph_run H BLAKE512 input (replicate 256 0);
     hash \<leftarrow> sph_call H BMW512 hash 64 hash;
     hash \<leftarrow> sph_call H GROESTL512 hash 64 hash;
     hash \<leftarrow> sph_call H SKEIN512 hash 64 hash;
     hash \<leftarrow> sph_call H JH512 hash 64 hash;
     hash \<leftarrow> sph_call H KECCAK512 hash 64 hash;
     hash \<leftarrow> sph_call H LUFFA512 hash 64 hash;
     hash \<leftarrow> sph_call H CUBEHASH512 hash 64 hash;
     hash \<leftarrow> sph_call H SHAVITE512 hash 64 hash;
     hash \<leftarrow> sph_call H SIMD512 hash 64 hash;
     hash \<leftarrow> sph_call H ECHO512 hash 64 hash;
     hash \<leftarrow> sph_call H HAMSI512 hash 64 hash;
     hash \<leftarrow> sph_call H FUGUE512 hash 64 hash;
     hash \<leftarrow> sph_at H SHABAL512 0 64 64 hash;
     hash \<leftarrow> sph_at H WHIRLPOOL 64 64 128 hash;
     hash \<leftarrow> sph_at H SHA512 128 64 192 hash;
     m \<leftarrow> buf_read 0 256 hash;
     hash2 \<leftarrow> buf_write 0 (swifftx m) hash2;
     hash \<leftarrow> buf_write 0 (replicate 64 0) hash;
     hash \<leftarrow> sph_call H HAVAL256_5 hash2 64 hash;
     hash2 \<leftarrow> buf_write 0 (replicate 64 0) hash2;
     m \<leftarrow> buf_read 0 64 hash;
     hash2 \<leftarrow> buf_write 0 (H TIGER m) hash2;
     hash \<leftarrow> buf_write 0 (replicate 64 0) hash;
     m \<leftarrow> buf_read 0 32 hash2;
     hash \<leftarrow> buf_write 0 (lyra2 m m) hash;
     hash \<leftarrow> sph_call H GOST512 hash 64 hash;
     hash \<leftarrow> sph_call H SHA256 hash 64 hash;
     buf_read 0 32 hash
   }"

section \<open>Swaps and reversals\<close>

lemma length_swap_at [simp]: "length (swap_at i j xs) = length xs"
  by (simp add: swap_at_def)

lemma mset_swap_at [simp]: "i < length xs \<Longrightarrow> j < length xs \<Longrightarrow> mset (swap_at i j xs) = mset xs"
  by (simp add: swap_at_def mset_swap)

lemma nth_swap_at:
  "i < length xs \<Longrightarrow> j < length xs \<Longrightarrow> k < length xs \<Longrightarrow>
   swap_at i j xs ! k = (if k = j then xs ! i else if k = i then xs ! j else xs ! k)"
  by (auto simp: swap_at_def nth_list_update)

lemma reverse_range_nth:
  "e \<le> length xs \<Longrightarrow> length (reverse_range xs b e) = length xs \<and>
   (\<forall>k < length xs. reverse_range xs b e ! k = (if b \<le> k \<and> k < e then xs ! (b + e - 1 - k) else xs ! k))"
proof (induction xs b e rule: reverse_range.induct)
  case (1 xs b e)
  show ?case
  proof (cases "b < e \<and> b \<noteq> e - 1")
    case True
    let ?ys = "swap_at b (e - 1) xs"
    have IH: "length (reverse_range ?ys (Suc b) (e - 1)) = length xs \<and>
      (\<forall>k < length xs. reverse_range ?ys (Suc b) (e - 1) ! k =
        (if Suc b \<le> k \<and> k < e - 1 then ?ys ! (Suc b + (e - 1) - 1 - k) else ?ys ! k))"
      using "1.IH" [OF True] "1.prems" True by auto
    have e: "reverse_range xs b e = reverse_range ?ys (Suc b) (e - 1)"
      using True by (subst reverse_range.simps) simp
    have at: "reverse_range ?ys (Suc b) (e - 1) ! k = (if b \<le> k \<and> k < e then xs ! (b + e - 1 - k) else xs ! k)"
      if k: "k < length xs" for k
    proof -
      have ys: "?ys ! i = (if i = e - 1 then xs ! b else if i = b then xs ! (e - 1) else xs ! i)" if "i < length xs" for i
        using that True "1.prems" by (intro nth_swap_at) auto
      consider "k < b \<or> e \<le> k" | "k = b" | "k = e - 1" "b < k" | "b < k" "k < e - 1" by linarith
      then show ?thesis
      proof cases
        case 4
        then have "Suc b + (e - 1) - 1 - k = b + e - 1 - k" "b + e - 1 - k < e - 1" "b < b + e - 1 - k" by auto
        then show ?thesis using IH 4 k ys [of "b + e - 1 - k"] "1.prems" by auto
      qed (use IH True k ys [OF k] in auto)
    qed
    show ?thesis unfolding e using IH at by blast
  next
    case False
    then have "reverse_range xs b e = xs" by (subst reverse_range.simps) auto
    moreover have "xs ! k = xs ! (b + e - 1 - k)" if "b \<le> k" "k < e" for k
      using False that by (cases "b = k") auto
    ultimately show ?thesis by auto
  qed
qed

lemma reverse_range_conv:
  "b \<le> e \<Longrightarrow> e \<le> length xs \<Longrightarrow>
   reverse_range xs b e = take b xs @ rev (take (e - b) (drop b xs)) @ drop e xs"
proof -
  assume be: "b \<le> e" "e \<le> length xs"
  have m: "min (length xs - b) (e - b) = e - b" using be by simp
  show ?thesis
    using reverse_range_nth [of e xs b] be
    by (intro nth_equalityI) (auto simp: nth_append rev_nth m add.commute)
qed

lemma reverse_range_mset: "b \<le> e \<Longrightarrow> e \<le> length xs \<Longrightarrow> mset (reverse_range xs b e) = mset xs"
proof -
  assume be: "b \<le> e" "e \<le> length xs"
  have "xs = take b xs @ take (e - b) (drop b xs) @ drop e xs"
    using be by (metis append_take_drop_id drop_drop le_add_diff_inverse2)
  then show ?thesis
    using be by (metis reverse_range_conv mset_append mset_rev)
qed

lemma swap_ends_eq: "swap_ends n i j = reverse_range n i (Suc j)"
proof (induction n i j rule: swap_ends.induct)
  case (1 n i j)
  then show ?case by (subst swap_ends.simps, subst reverse_range.simps) auto
qed

section \<open>The next permutation in lexicographic order\<close>

lemma last_ascent_Some:
  "last_ascent xs m = Some i \<Longrightarrow>
   i < m \<and> xs ! i < xs ! Suc i \<and> (\<forall>k. i < k \<and> k < m \<longrightarrow> xs ! Suc k \<le> xs ! k)"
  by (induction xs m rule: last_ascent.induct) (auto split: if_splits simp: less_Suc_eq not_less)

lemma last_ascent_None: "last_ascent xs m = None \<Longrightarrow> k < m \<Longrightarrow> xs ! Suc k \<le> xs ! k"
  by (induction xs m rule: last_ascent.induct) (auto split: if_splits simp: less_Suc_eq not_less)

lemma last_greater_spec:
  "i < j \<Longrightarrow> j < n \<Longrightarrow> xs ! i < xs ! j \<Longrightarrow>
   j \<le> last_greater xs i n \<and> last_greater xs i n < n \<and> xs ! i < xs ! last_greater xs i n \<and>
   (\<forall>k. last_greater xs i n < k \<and> k < n \<longrightarrow> xs ! k \<le> xs ! i)"
proof (induction n)
  case (Suc n)
  then show ?case
    by (cases "xs ! i < xs ! n") (auto simp: less_Suc_eq not_less)
qed simp

lemma descending_from:
  "(\<And>k. b < k \<Longrightarrow> Suc k < length xs \<Longrightarrow> xs ! Suc k \<le> xs ! k) \<Longrightarrow>
   sorted_wrt (\<ge>) (drop (Suc b) (xs :: 'a::linorder list))"
  by (subst sorted_wrt_iff_nth_Suc_transp) (auto simp: transp_def)

lemma sorted_least: "sorted zs \<Longrightarrow> mset ys = mset zs \<Longrightarrow> zs \<le> (ys :: 'a::linorder list)"
proof (induction zs arbitrary: ys)
  case (Cons z zs)
  then obtain y ys' where ys: "ys = y # ys'" by (cases ys) auto
  have "y \<in> set (z # zs)" using Cons.prems(2) ys by (metis list.set_intros(1) mset_eq_setD)
  then consider "z < y" | "z = y" using Cons.prems(1) by fastforce
  then show ?case
  proof cases
    case 2
    then have "zs \<le> ys'" using Cons ys by simp
    then show ?thesis using 2 ys by simp
  qed (simp add: ys)
qed simp

lemma descending_greatest: "sorted_wrt (\<ge>) zs \<Longrightarrow> mset ys = mset zs \<Longrightarrow> ys \<le> (zs :: 'a::linorder list)"
proof (induction zs arbitrary: ys)
  case (Cons z zs)
  then obtain y ys' where ys: "ys = y # ys'" by (cases ys) auto
  have "y \<in> set (z # zs)" using Cons.prems(2) ys by (metis list.set_intros(1) mset_eq_setD)
  then consider "y < z" | "z = y" using Cons.prems(1) by fastforce
  then show ?case
  proof cases
    case 2
    then have "ys' \<le> zs" using Cons ys by simp
    then show ?thesis using 2 ys by simp
  qed (simp add: ys)
qed simp

text \<open>The shape of a step: pivot \<open>x\<close>, replacement \<open>y\<close>, and the reversed rest.\<close>

lemma successor_least:
  fixes x y :: "'a::linorder"
  assumes desc: "sorted_wrt (\<ge>) (s1 @ y # s2)" and xy: "x < y" and low: "\<forall>z \<in> set s2. z \<le> x"
  shows "mset ys = mset (pre @ x # s1 @ y # s2) \<Longrightarrow> pre @ x # s1 @ y # s2 < ys \<Longrightarrow>
         pre @ y # rev (s1 @ x # s2) \<le> ys"
proof (induction pre arbitrary: ys)
  case Nil
  then obtain b ys' where ys: "ys = b # ys'" by (cases ys) auto
  have parts: "sorted_wrt (\<ge>) s1" "sorted_wrt (\<ge>) s2" "\<forall>a \<in> set s1. y \<le> a \<and> (\<forall>b \<in> set s2. b \<le> a)"
    using desc by (simp_all add: sorted_wrt_append)
  moreover have "\<forall>a \<in> set s1. x \<le> a" using parts(3) xy by (meson le_less_trans less_imp_le less_le_trans)
  ultimately have "sorted_wrt (\<ge>) (s1 @ x # s2)" using low by (simp add: sorted_wrt_append)
  then have rest: "sorted (rev (s1 @ x # s2))" unfolding sorted_wrt_rev .
  show ?case
  proof (cases "x = b")
    case True
    then have "mset ys' = mset (s1 @ y # s2)" "s1 @ y # s2 < ys'" using Nil ys by auto
    then show ?thesis using descending_greatest [OF desc, of ys'] by simp
  next
    case False
    then have b: "x < b" using Nil ys by simp
    have "b \<in> set (x # s1 @ y # s2)" using Nil.prems(1) ys
      by (metis append_Nil list.set_intros(1) mset_eq_setD)
    then have "b \<in> set s1 \<or> b = y" using b low by auto
    then consider "y < b" | "b = y" using desc by (fastforce simp: sorted_wrt_append)
    then show ?thesis
    proof cases
      case 2
      then have "mset ys' = mset (rev (s1 @ x # s2))" using Nil.prems(1) ys by simp
      then show ?thesis using sorted_least [OF rest] 2 ys by simp
    qed (simp add: ys)
  qed
next
  case (Cons p pre)
  then obtain b ys' where ys: "ys = b # ys'" by (cases ys) auto
  then show ?case using Cons by auto
qed

lemma swap_at_split:
  "swap_at (length pre) (length pre + Suc (length s1)) (pre @ x # s1 @ y # s2) = pre @ y # s1 @ x # s2"
  by (simp add: swap_at_def list_update_append nth_append)

lemma next_permutation_cases:
  fixes xs :: "'a::linorder list"
  assumes "2 \<le> length xs"
  obtains (last) "sorted_wrt (\<ge>) xs" "next_permutation xs = rev xs"
    | (step) pre x s1 y s2 where "xs = pre @ x # s1 @ y # s2"
        "sorted_wrt (\<ge>) (s1 @ y # s2)" "x < y" "\<forall>z \<in> set s2. z \<le> x"
        "next_permutation xs = pre @ y # rev (s1 @ x # s2)"
proof (cases "last_ascent xs (length xs - 1)")
  case None
  have "sorted_wrt (\<ge>) xs"
    using last_ascent_None [OF None]
    by (subst sorted_wrt_iff_nth_Suc_transp) (auto simp: transp_def)
  moreover have "next_permutation xs = rev xs"
    using None assms by (simp add: next_permutation_def reverse_range_conv)
  ultimately show thesis by (rule last)
next
  case (Some i)
  note a = last_ascent_Some [OF Some]
  define k where "k = last_greater xs i (length xs)"
  have "Suc i < length xs" using a by linarith
  then have k: "i < k" "k < length xs" "xs ! i < xs ! k" "\<forall>m. k < m \<and> m < length xs \<longrightarrow> xs ! m \<le> xs ! i"
    using last_greater_spec [of i "Suc i" "length xs" xs] a unfolding k_def by auto
  let ?pre = "take i xs" and ?s1 = "take (k - Suc i) (drop (Suc i) xs)" and ?s2 = "drop (Suc k) xs"
  have suf: "drop (Suc i) xs = ?s1 @ xs ! k # ?s2"
    using id_take_nth_drop [of "k - Suc i" "drop (Suc i) xs"] k by simp
  have xs: "xs = ?pre @ xs ! i # ?s1 @ xs ! k # ?s2"
    using id_take_nth_drop [of i xs] k suf by simp
  have desc: "sorted_wrt (\<ge>) (?s1 @ xs ! k # ?s2)"
    unfolding suf [symmetric] using a by (intro descending_from) auto
  have low: "\<forall>z \<in> set ?s2. z \<le> xs ! i"
    using k by (auto simp: in_set_conv_nth)
  have len: "length ?pre = i" "i + Suc (length ?s1) = k" using k by auto
  have "swap_at i k xs = ?pre @ xs ! k # ?s1 @ xs ! i # ?s2"
    using swap_at_split [of ?pre ?s1 "xs ! i" "xs ! k" ?s2] unfolding len xs [symmetric] .
  then have "next_permutation xs = ?pre @ xs ! k # rev (?s1 @ xs ! i # ?s2)"
    using assms Some k len by (simp add: next_permutation_def k_def [symmetric] reverse_range_conv)
  with xs desc k(3) low show thesis by (rule step)
qed

lemma next_permutation_mset [simp]: "mset (next_permutation xs) = mset xs"
proof (cases "length xs < 2")
  case False
  then have "2 \<le> length xs" by simp
  then show ?thesis
  proof (cases rule: next_permutation_cases)
    case (step pre x s1 y s2)
    then show ?thesis by (simp only: step) simp
  qed simp
qed (simp add: next_permutation_def)

lemma next_permutation_length [simp]: "length (next_permutation xs) = length xs"
  by (metis next_permutation_mset size_mset)

lemma scan_tail_conv: "scan_tail n i = (case last_ascent n i of None \<Rightarrow> 0 | Some t \<Rightarrow> Suc t)"
  by (induction n i rule: scan_tail.induct) auto

lemma scan_swap_conv: "t < m \<Longrightarrow> n ! t < n ! Suc t \<Longrightarrow> scan_swap n (Suc t) m = last_greater n t (Suc m)"
proof (induction m)
  case (Suc m)
  show ?case
  proof (cases "t = m")
    case True
    then show ?thesis using Suc.prems by simp
  next
    case False
    then show ?thesis using Suc by (auto simp: not_less)
  qed
qed simp

lemma nextPerm_eq: "snd (nextPerm n) = next_permutation n"
proof (cases "length n \<le> 1")
  case True
  then show ?thesis by (simp add: nextPerm_def next_permutation_def)
next
  case False
  then obtain c where c: "length n = Suc (Suc c)"
    by (metis One_nat_def Suc_le_eq less_Suc_eq_le not_less old.nat.exhaust zero_less_Suc)
  show ?thesis
  proof (cases "last_ascent n (Suc c)")
    case None
    then show ?thesis
      by (simp add: nextPerm_def next_permutation_def c Let_def scan_tail_conv swap_ends_eq)
  next
    case (Some t)
    note a = last_ascent_Some [OF Some]
    then have "scan_swap n (Suc t) (Suc c) = last_greater n t (Suc (Suc c))"
      by (intro scan_swap_conv) auto
    then show ?thesis using Some
      by (simp add: nextPerm_def next_permutation_def c Let_def scan_tail_conv swap_ends_eq
          del: scan_swap.simps last_greater.simps)
  qed
qed

lemma iterate_mset: "mset ((next_permutation ^^ k) xs) = mset xs"
  by (induction k) simp_all

section \<open>Loops over an order\<close>

text \<open>A loop whose first pass hashes the input and whose later passes rewrite the state.\<close>

lemma state_loop:
  assumes first: "f 0 A = Some (g 0 input @ r)"
    and step: "\<And>i S. 0 < i \<Longrightarrow> i < n \<Longrightarrow> length S = 64 \<Longrightarrow> f i (S @ r) = Some (g i S @ r)"
    and len: "\<And>i S. length (g i S) = 64" and n: "0 < n"
  shows "fold_opt f [0..<n] A = Some (fold g [0..<n] input @ r)"
proof -
  have "0 < k \<Longrightarrow> k \<le> n \<Longrightarrow>
      fold_opt f [0..<k] A = Some (fold g [0..<k] input @ r) \<and> length (fold g [0..<k] input) = 64" for k
  proof (induction k)
    case (Suc k)
    show ?case
    proof (cases "k = 0")
      case True
      then show ?thesis using first len by simp
    next
      case False
      then have "fold_opt f [0..<k] A = Some (fold g [0..<k] input @ r)" "length (fold g [0..<k] input) = 64"
        using Suc by auto
      then show ?thesis using step [of k] False Suc.prems len by (simp add: fold_opt_append)
    qed
  qed simp
  then show ?thesis using n by simp
qed

lemma length_chain:
  "sph_ok H \<Longrightarrow> as \<noteq> [] \<Longrightarrow> length (run_chain H (map (\<lambda>x. Step (f x)) as) m) = 64"
  by (cases as rule: rev_cases) (simp_all add: run_chain_def length_run_step)

lemma order_algo_hex_digit: "d < 16 \<Longrightarrow> order_algo (hex_digit d) = d"
  by (auto simp: order_algo_def hex_digit_def Let_def)

lemma algo_digit_less: "unat (algo_digit p j) < 16"
proof -
  have "unat (w AND 0xF) < 16" for w :: u8
    using word_and_le1 [of w 15] by (simp add: word_le_nat_alt)
  moreover have "unat (drop_bit 4 w) < 16" for w :: u8
    using unat_u8_less [of w] by (simp add: drop_bit_eq_div unat_div del: unat_u8_less)
  ultimately show ?thesis by (simp add: algo_digit_def Let_def)
qed

lemma x16_algos_len: "d < 16 \<Longrightarrow> digest_len (x16_algos ! d) = 64"
  by (auto simp: x16_algos_def less_Suc_eq numeral_eq_Suc)

lemma x16_loop:
  assumes H: "sph_ok H" and A: "64 \<le> length A" and n: "length order = 16"
    and d: "\<And>i. i < 16 \<Longrightarrow> order_algo (order ! i) < 16"
  shows "fold_opt (x16_round H input order) [0..<16] A =
    Some (run_chain H (map (\<lambda>c. Step (x16_algos ! order_algo c)) order) input @ drop 64 A)"
proof -
  have "fold_opt (x16_round H input order) [0..<16] A =
      Some (fold (\<lambda>i. run_step H (Step (x16_algos ! order_algo (order ! i)))) [0..<16] input @ drop 64 A)"
    by (rule state_loop)
       (use d H A in \<open>auto simp: x16_round_def x16_algos_len length_run_step sph_run_step sph_call_input\<close>)
  also have "fold (\<lambda>i. run_step H (Step (x16_algos ! order_algo (order ! i)))) [0..<16] input =
      run_chain H (map (\<lambda>c. Step (x16_algos ! order_algo c)) order) input"
  proof -
    have "map (\<lambda>c. Step (x16_algos ! order_algo c)) order =
        map (\<lambda>i. Step (x16_algos ! order_algo (order ! i))) [0..<16]"
      using n by (intro nth_equalityI) auto
    then show ?thesis by (simp add: run_chain_def fold_map comp_def)
  qed
  finally show ?thesis .
qed

section \<open>Each function is a chain in its order\<close>

definition x16r_digits :: "u8 list \<Rightarrow> nat list" where
  "x16r_digits prevblock = map (\<lambda>j. be_val (rev prevblock) div 16 ^ (15 - j) mod 16) [0..<16]"

lemma be_val_byte:
  "b < length bs \<Longrightarrow> be_val (rev bs) div 256 ^ b mod 256 = unat (bs ! b)"
proof -
  assume b: "b < length bs"
  have e: "rev bs = (rev (drop (Suc b) bs) @ [bs ! b]) @ rev (take b bs)"
    using b by (metis id_take_nth_drop rev.simps(2) rev_append)
  have "be_val (rev bs) = (be_val (rev (drop (Suc b) bs)) * 256 + unat (bs ! b)) * 256 ^ b + be_val (rev (take b bs))"
    unfolding e be_val_append using b by (simp add: be_val_def)
  moreover have "be_val (rev (take b bs)) < 256 ^ b"
    using be_val_less [of "rev (take b bs)"] b by simp
  ultimately have "be_val (rev bs) div 256 ^ b = be_val (rev (drop (Suc b) bs)) * 256 + unat (bs ! b)"
    by simp
  then show ?thesis by simp
qed

lemma algo_digit_value:
  assumes "length p = 8" and "j < 16"
  shows "unat (algo_digit p j) = be_val (rev p) div 16 ^ (15 - j) mod 16"
proof -
  define b where "b = (15 - j) div 2"
  define v where "v = be_val (rev p)"
  have byte: "unat (p ! b) = v div 256 ^ b mod 256"
    unfolding v_def by (rule be_val_byte [symmetric]) (use assms in \<open>simp add: b_def\<close>)
  have p256: "(256 :: nat) ^ b = 16 ^ (2 * b)" by (simp add: power_mult)
  show ?thesis
  proof (cases "odd j")
    case True
    then have e: "15 - j = 2 * b" using assms(2) unfolding b_def by presburger
    have "unat (p ! b AND 0xF) = unat (p ! b) mod 16"
    proof -
      have "p ! b AND 0xF = take_bit 4 (p ! b)" by (simp add: take_bit_eq_mask mask_eq_exp_minus_1)
      then show ?thesis by (simp add: unat_mod take_bit_eq_mod)
    qed
    also have "\<dots> = v div 16 ^ (2 * b) mod 16"
      unfolding byte p256 by (simp add: mod_mod_cancel)
    finally show ?thesis using True e by (simp add: algo_digit_def b_def [symmetric] v_def)
  next
    case False
    then have e: "15 - j = Suc (2 * b)" using assms(2) unfolding b_def by presburger
    have "unat (drop_bit 4 (p ! b)) = unat (p ! b) div 16"
      by (simp add: drop_bit_eq_div unat_div)
    also have "\<dots> = (v div 16 ^ (2 * b)) div 16 mod 16"
    proof -
      have "w mod 256 div 16 = w div 16 mod 16" for w :: nat using mod_mult2_eq [of w 16 16] by simp
      then show ?thesis unfolding byte p256 .
    qed
    also have "v div 16 ^ (2 * b) div 16 = v div 16 ^ Suc (2 * b)"
      unfolding power_Suc2 div_mult2_eq ..
    finally show ?thesis using False e by (simp add: algo_digit_def b_def [symmetric] v_def)
  qed
qed

lemma x16r_order_digits:
  "length p = 8 \<Longrightarrow> map order_algo (x16r_order p) = x16r_digits p"
  by (simp add: x16r_order_def x16r_digits_def order_algo_hex_digit algo_digit_less algo_digit_value [symmetric])

lemma x16r_order_less: "i < 16 \<Longrightarrow> order_algo (x16r_order p ! i) < 16"
  by (simp add: x16r_order_def order_algo_hex_digit algo_digit_less)

lemma buf_read_prevblock: "12 \<le> length input \<Longrightarrow> buf_read 4 8 input = Some (take 8 (drop 4 input))"
  by (simp add: buf_read_def)

lemma x16r_hash_eq:
  assumes "sph_ok H" and "64 \<le> length A" and "12 \<le> length input"
  shows "x16r_hash H A input =
    Some (take 32 (run_chain H (map (\<lambda>d. Step (x16_algos ! d)) (x16r_digits (take 8 (drop 4 input)))) input))"
proof -
  let ?p = "take 8 (drop 4 input)"
  have len: "length (run_chain H (map (\<lambda>c. Step (x16_algos ! order_algo c)) (x16r_order ?p)) input) = 64"
    using assms(1) by (intro length_chain) (simp_all add: x16r_order_def)
  show ?thesis
    using x16_loop [OF assms(1,2), of "x16r_order ?p" input] x16r_order_less
      x16r_order_digits [of ?p, symmetric] assms(3) len
    by (simp add: x16r_hash_def buf_read_prevblock buf_read_def x16r_order_def comp_def)
qed

lemma shift_up_spec:
  "offset < length out \<Longrightarrow>
   length (shift_up offset out) = length out \<and>
   (\<forall>i < length out. shift_up offset out ! i =
      (if 0 < i \<and> i \<le> offset then out ! (i - 1) else out ! i))"
proof (induction offset arbitrary: out)
  case (Suc k)
  have e: "shift_up (Suc k) out = shift_up k (out[Suc k := out ! k])"
    by (simp add: shift_up_def)
  show ?case
    using Suc.IH [of "out[Suc k := out ! k]"] Suc.prems unfolding e by (auto simp: nth_list_update le_Suc_eq)
qed (simp add: shift_up_def)

lemma x16s_insert_front:
  assumes "length out = 16"
  shows "x16s_insert p i out =
    (let k = unat (algo_digit p i) in out ! k # take k out @ drop (Suc k) out)"
proof -
  let ?k = "unat (algo_digit p i)"
  have k: "?k < length out" using algo_digit_less [of p i] assms by simp
  show ?thesis
    unfolding x16s_insert_def Let_def
    using shift_up_spec [OF k] k
    by (intro nth_equalityI) (auto simp: nth_list_update nth_Cons nth_append min_def split: nat.splits)
qed

lemma x16s_insert_mset: "length out = 16 \<Longrightarrow> mset (x16s_insert p i out) = mset out"
proof -
  assume out: "length out = 16"
  let ?k = "unat (algo_digit p i)"
  have "?k < length out" using algo_digit_less [of p i] out by simp
  then have "mset out = mset (take ?k out @ out ! ?k # drop (Suc ?k) out)"
    by (metis id_take_nth_drop)
  then show ?thesis by (simp add: x16s_insert_front [OF out] Let_def)
qed

lemma x16s_order_mset: "mset (x16s_order p) = mset ''0123456789ABCDEF''"
proof -
  have "length out = 16 \<Longrightarrow> mset (fold (x16s_insert p) is out) = mset out" for "is" out
  proof (induction "is" arbitrary: out)
    case (Cons i "is")
    then show ?case using x16s_insert_mset [OF Cons.prems, of p i] by (metis fold_simps(2) size_mset)
  qed simp
  then show ?thesis unfolding x16s_order_def by simp
qed

lemma x16s_order_props:
  "length (x16s_order p) = 16"
  "i < 16 \<Longrightarrow> order_algo (x16s_order p ! i) < 16"
  "mset (map (\<lambda>c. x16_algos ! order_algo c) (x16s_order p)) = mset x16_algos"
proof -
  show len: "length (x16s_order p) = 16"
    using arg_cong [OF x16s_order_mset [of p], of size] by simp
  have "set (x16s_order p) = set ''0123456789ABCDEF''"
    using arg_cong [OF x16s_order_mset [of p], of set_mset] by simp
  moreover have "\<forall>c \<in> set ''0123456789ABCDEF''. order_algo c < 16" by (simp add: order_algo_def)
  ultimately show "i < 16 \<Longrightarrow> order_algo (x16s_order p ! i) < 16" using len by (metis nth_mem)
  have "mset (map (\<lambda>c. x16_algos ! order_algo c) (x16s_order p)) =
      image_mset (\<lambda>c. x16_algos ! order_algo c) (mset ''0123456789ABCDEF'')"
    by (simp only: x16s_order_mset mset_map)
  also have "\<dots> = mset (map (\<lambda>c. x16_algos ! order_algo c) ''0123456789ABCDEF'')"
    by (simp only: mset_map)
  also have "map (\<lambda>c. x16_algos ! order_algo c) ''0123456789ABCDEF'' = x16_algos"
    by (simp add: x16_algos_def order_algo_def)
  finally show "mset (map (\<lambda>c. x16_algos ! order_algo c) (x16s_order p)) = mset x16_algos" .
qed

lemma x16s_hash_eq:
  assumes "sph_ok H" and "64 \<le> length A" and "12 \<le> length input"
  shows "x16s_hash H A input = Some (take 32 (run_chain H
    (map (\<lambda>c. Step (x16_algos ! order_algo c)) (x16s_order (take 8 (drop 4 input)))) input))"
proof -
  let ?p = "take 8 (drop 4 input)"
  have "x16s_order ?p \<noteq> []" using x16s_order_props(1) [of ?p] by auto
  then have "length (run_chain H (map (\<lambda>c. Step (x16_algos ! order_algo c)) (x16s_order ?p)) input) = 64"
    using assms(1) by (rule length_chain [rotated])
  then show ?thesis
    using x16_loop [OF assms(1,2), of "x16s_order ?p" input] x16s_order_props(1) [of ?p]
      x16s_order_props(2) [of _ ?p] assms(3)
    by (simp add: x16s_hash_def buf_read_prevblock buf_read_def)
qed

definition rv2_steps :: "algo \<Rightarrow> chain_step list" where
  "rv2_steps a = (if tiger_first a then [Step TIGER, Step a] else [Step a])"

lemma tiger_padded:
  "sph_ok H \<Longrightarrow> 64 \<le> length dst \<Longrightarrow>
   Option.bind (sph_run H TIGER m dst) (\<lambda>h. Option.bind (buf_write 24 (replicate 40 0) h) g) =
   g (run_step H (Step TIGER) m @ drop 64 dst)"
  by (simp add: sph_run_def buf_write_def sph_len run_step.simps zext_def)

lemma tiger_padded_call:
  "sph_ok H \<Longrightarrow> length S = 64 \<Longrightarrow>
   Option.bind (sph_call H TIGER (S @ r) 64 (S @ r)) (\<lambda>h. Option.bind (buf_write 24 (replicate 40 0) h) g) =
   g (run_step H (Step TIGER) S @ r)"
  by (simp add: sph_call_def buf_read_def buf_write_def sph_len run_step.simps zext_def)

lemma x16rv2_hash_eq:
  assumes H: "sph_ok H" and A: "64 \<le> length A" and input: "12 \<le> length input"
  shows "x16rv2_hash H A input =
    Some (take 32 (run_chain H (concat (map (\<lambda>d. rv2_steps (x16_algos ! d))
      (x16r_digits (take 8 (drop 4 input))))) input))"
proof -
  let ?p = "take 8 (drop 4 input)"
  let ?d = "\<lambda>i. order_algo (x16r_order ?p ! i)"
  let ?g = "\<lambda>i m. run_chain H (rv2_steps (x16_algos ! ?d i)) m"
  note d = x16r_order_less [of _ ?p]
  have len: "length (?g i S) = 64" for i S
    using H by (simp add: rv2_steps_def run_chain_def length_run_step)
  have loop: "fold_opt (x16rv2_round H input (x16r_order ?p)) [0..<16] A = Some (fold ?g [0..<16] input @ drop 64 A)"
  proof (rule state_loop)
    show "x16rv2_round H input (x16r_order ?p) 0 A = Some (?g 0 input @ drop 64 A)"
      using d [of 0] H A
      by (simp add: tiger_padded x16rv2_round_def Let_def rv2_steps_def run_chain_def x16_algos_len sph_run_step
          sph_call_input length_run_step)
  next
    fix i :: nat and S :: "u8 list"
    assume "0 < i" "i < 16" "length S = 64"
    then show "x16rv2_round H input (x16r_order ?p) i (S @ drop 64 A) = Some (?g i S @ drop 64 A)"
      using d [of i] H
      by (simp add: tiger_padded_call x16rv2_round_def Let_def rv2_steps_def run_chain_def x16_algos_len
          sph_call_input length_run_step)
  qed (use len in simp_all)
  have "fold ?g [0..<16] input = run_chain H (concat (map (\<lambda>d. rv2_steps (x16_algos ! d)) (x16r_digits ?p))) input"
  proof -
    have m: "x16r_digits ?p = map ?d [0..<16]"
      using input by (subst x16r_order_digits [symmetric]) (auto intro!: nth_equalityI simp: x16r_order_def)
    have "fold ?g is s = run_chain H (concat (map (\<lambda>d. rv2_steps (x16_algos ! d)) (map ?d is))) s" for "is" s
      by (induction "is" arbitrary: s) (simp_all add: run_chain_def)
    then show ?thesis unfolding m .
  qed
  moreover have "length (fold ?g [0..<16] input) = 64"
    using len by (simp add: fold_append numeral_eq_Suc)
  ultimately show ?thesis
    using loop input by (simp add: x16rv2_hash_def buf_read_prevblock buf_read_def)
qed


lemma hex_loop_step:
  "sph_ok H \<Longrightarrow> length S = 64 \<Longrightarrow> cur < 16 \<Longrightarrow> 0 < i \<Longrightarrow>
   hex_round H input i (cur, S @ r) =
   (let S' = run_step H (Step (x16_algos ! cur)) S in Some (unat (hd S') mod 16, S' @ r))"
proof -
  assume H: "sph_ok H" "length S = 64" "cur < 16" "0 < i"
  let ?S = "run_step H (Step (x16_algos ! cur)) S"
  have "length ?S = 64" using H(1) by (simp add: length_run_step)
  then have "hd (?S @ r) = hd ?S" by (cases ?S) simp_all
  then show ?thesis
    using H by (simp add: hex_round_def Let_def x16_algos_len sph_call_input rd8_ok length_run_step)
qed

fun hex_chain :: "sph \<Rightarrow> nat \<Rightarrow> nat \<Rightarrow> u8 list \<Rightarrow> u8 list" where
  "hex_chain H 0 cur m = m"
| "hex_chain H (Suc k) cur m =
     (let m' = run_step H (Step (x16_algos ! cur)) m in hex_chain H k (unat (hd m') mod 16) m')"

lemma hex_loop:
  "sph_ok H \<Longrightarrow> length S = 64 \<Longrightarrow> cur < 16 \<Longrightarrow> 0 < i \<Longrightarrow>
   \<exists>c. fold_opt (hex_round H input) [i..<i + k] (cur, S @ r) = Some (c, hex_chain H k cur S @ r) \<and>
       length (hex_chain H k cur S) = 64"
proof (induction k arbitrary: i cur S)
  case (Suc k)
  let ?S = "run_step H (Step (x16_algos ! cur)) S"
  have S: "length ?S = 64" using Suc.prems(1) by (simp add: length_run_step)
  have "[i..<i + Suc k] = i # [Suc i..<Suc i + k]" by (simp add: upt_conv_Cons)
  moreover have "hex_round H input i (cur, S @ r) = Some (unat (hd ?S) mod 16, ?S @ r)"
    using hex_loop_step [OF Suc.prems] by (simp add: Let_def)
  moreover obtain c where "fold_opt (hex_round H input) [Suc i..<Suc i + k] (unat (hd ?S) mod 16, ?S @ r) =
      Some (c, hex_chain H k (unat (hd ?S) mod 16) ?S @ r)"
      "length (hex_chain H k (unat (hd ?S) mod 16) ?S) = 64"
    using Suc.IH [OF Suc.prems(1) S, of "unat (hd ?S) mod 16" "Suc i"] by auto
  ultimately show ?case by (simp add: Let_def)
qed simp

lemma hex_hash_eq:
  assumes H: "sph_ok H" and A: "64 \<le> length A" and input: "12 \<le> length input"
  shows "hex_hash H A input =
    Some (take 32 (hex_chain H 16 (hd (x16r_digits (take 8 (drop 4 input)))) input))"
proof -
  let ?p = "take 8 (drop 4 input)"
  define c0 where "c0 = unat (drop_bit 4 (?p ! 7))"
  let ?S = "run_step H (Step (x16_algos ! c0)) input"
  have "c0 = unat (algo_digit ?p 0)" by (simp add: algo_digit_def c0_def)
  then have c: "c0 = hd (x16r_digits ?p)" "c0 < 16"
    using algo_digit_less [of ?p 0] algo_digit_value [of ?p 0] input
    by (simp_all add: x16r_digits_def upt_conv_Cons)
  have S: "length ?S = 64" using H by (simp add: length_run_step)
  then have "hd (?S @ drop 64 A) = hd ?S" by (cases ?S) simp_all
  then have first: "hex_round H input 0 (c0, A) = Some (unat (hd ?S) mod 16, ?S @ drop 64 A)"
    using H A c(2) by (simp add: hex_round_def x16_algos_len sph_run_step rd8_ok length_run_step)
  obtain c' where "fold_opt (hex_round H input) [1..<1 + 15] (unat (hd ?S) mod 16, ?S @ drop 64 A) =
      Some (c', hex_chain H 15 (unat (hd ?S) mod 16) ?S @ drop 64 A)"
      and len: "length (hex_chain H 15 (unat (hd ?S) mod 16) ?S) = 64"
    using hex_loop [OF H S, of "unat (hd ?S) mod 16" 1 input 15 "drop 64 A"] by auto
  then have "fold_opt (hex_round H input) [0..<16] (c0, A) =
      Some (c', hex_chain H 15 (unat (hd ?S) mod 16) ?S @ drop 64 A)"
    using first by (simp add: upt_conv_Cons [of 0 16])
  moreover have "hex_chain H 16 c0 input = hex_chain H 15 (unat (hd ?S) mod 16) ?S"
    using hex_chain.simps(2) [of H 15 c0 input] by (simp add: Let_def)
  moreover have "unat (drop_bit 4 (input ! 11)) = c0" using input by (simp add: c0_def)
  ultimately show ?thesis
    using len input by (simp add: hex_hash_def buf_read_prevblock c(1) [symmetric] buf_read_def)
qed

text \<open>The slots of \<open>timetravel.c\<close>, \<open>bitcore.c\<close>, \<open>exosis.c\<close> and \<open>zr5.c\<close>.\<close>

lemma slot_write:
  "length d = 64 \<Longrightarrow> 64 * Suc i \<le> length t \<Longrightarrow>
   \<exists>t'. buf_write (64 * i) d t = Some t' \<and> length t' = length t \<and> take 64 (drop (64 * i) t') = d"
  by (simp add: buf_write_def)

lemma travel_loop:
  assumes H: "sph_ok H" and A: "length A = 64 * cnt" and cnt: "0 < cnt" "cnt \<le> 10"
    and p: "mset p = mset [0..<cnt]"
  shows "\<exists>t. fold_opt (travel_round H cnt input p) [0..<cnt] A = Some t \<and> length t = 64 * cnt \<and>
    take 64 (drop (64 * (cnt - 1)) t) = run_chain H (map (\<lambda>d. Step (travel_algos ! d)) p) input"
proof -
  have len: "length p = cnt" using arg_cong [OF p, of size] by simp
  have small: "p ! i < cnt" if "i < cnt" for i
    using that len arg_cong [OF p, of set_mset] nth_mem [of i p] by auto
  have dig: "digest_len (travel_algos ! d) = 64" if "d < 10" for d
    using that by (auto simp: travel_algos_def less_Suc_eq numeral_eq_Suc)
  let ?chain = "\<lambda>i. run_chain H (map (\<lambda>d. Step (travel_algos ! d)) (take i p)) input"
  let ?I = "\<lambda>i t. length t = 64 * cnt \<and> (0 < i \<longrightarrow> take 64 (drop (64 * (i - 1)) t) = ?chain i)"
  have "\<exists>t. fold_opt (travel_round H cnt input p) [0..<cnt] A = Some t \<and> ?I cnt t"
  proof (rule fold_opt_upt_invariant [where I = ?I])
    show "?I 0 A" using A by simp
  next
    fix i t
    assume i: "i < cnt" and I: "?I i t"
    let ?a = "travel_algos ! (p ! i)"
    have a: "digest_len ?a = 64" using small [OF i] cnt by (intro dig) simp
    define m where "m = (if i = 0 then input else take 64 (drop (64 * (i - 1)) t))"
    have m: "m = ?chain i" using I by (auto simp: m_def run_chain_def)
    have "length (H ?a m) = 64" using H a by (simp add: sph_len)
    moreover have "64 * Suc i \<le> length t" using I i by simp
    ultimately obtain t' where t': "buf_write (64 * i) (H ?a m) t = Some t'" "length t' = length t"
        "take 64 (drop (64 * i) t') = H ?a m"
      using slot_write by blast
    have "travel_round H cnt input p i t = Some t'"
    proof (cases i)
      case 0
      then show ?thesis using t'(1) small [OF i] by (simp add: travel_round_def m_def)
    next
      case (Suc j)
      then have "64 * j + 64 \<le> length t" using I i by simp
      then show ?thesis using t'(1) small [OF i] Suc by (simp add: travel_round_def m_def buf_read_def)
    qed
    moreover have "?chain (Suc i) = H ?a m"
      using i len H a by (simp add: take_Suc_conv_app_nth run_chain_def m run_step.simps zext_64)
    ultimately show "\<exists>t'. travel_round H cnt input p i t = Some t' \<and> ?I (Suc i) t'"
      using t'(2,3) I by auto
  qed
  then show ?thesis using cnt len by auto
qed

lemma rd32_at: "off + 4 \<le> length buf \<Longrightarrow> rd32 off buf = Some (le32 (take 4 (drop off buf)))"
  by (simp add: rd32_def buf_read_def)

definition travel_order :: "nat \<Rightarrow> u32 \<Rightarrow> u8 list \<Rightarrow> nat list" where
  "travel_order cnt base input =
     (next_permutation ^^ unat ((le32 (take 4 (drop 68 input)) - base) mod 40320)) [0..<cnt]"

lemma travel_hash_eq:
  assumes "sph_ok H" and "length A = 64 * cnt" and "0 < cnt" "cnt \<le> 10" and "72 \<le> length input"
  shows "travel_hash cnt base H A input =
    Some (take 32 (run_chain H (map (\<lambda>d. Step (travel_algos ! d)) (travel_order cnt base input)) input))"
proof -
  let ?p = "travel_order cnt base input"
  obtain t where t: "fold_opt (travel_round H cnt input ?p) [0..<cnt] A = Some t" "length t = 64 * cnt"
      "take 64 (drop (64 * (cnt - 1)) t) = run_chain H (map (\<lambda>d. Step (travel_algos ! d)) ?p) input"
    using travel_loop [OF assms(1-4), of ?p input] by (auto simp: travel_order_def iterate_mset)
  have "64 * (cnt - 1) + 32 \<le> length t" using t(2) assms(3) by simp
  moreover have "take 32 (take 64 (drop (64 * (cnt - 1)) t)) = take 32 (drop (64 * (cnt - 1)) t)"
    by simp
  ultimately show ?thesis
    using t(1) assms(5) unfolding t(3)
    by (simp add: travel_hash_def rd32_at travel_order_def [symmetric] buf_read_def)
qed

lemma permut_rows: "i < 24 \<Longrightarrow> mset (permut ! i) = mset [0, 1, 2, 3]"
proof -
  assume "i < 24"
  moreover have "length permut = 24" by (simp add: permut_def)
  ultimately have "permut ! i \<in> set permut" by simp
  moreover have "\<forall>r \<in> set permut. mset r = mset [0, 1, 2, 3]" by (simp add: permut_def)
  ultimately show ?thesis by blast
qed

lemma zr5_hash_512_eq:
  assumes H: "sph_ok H" and A: "length A = 320" and out: "32 \<le> length out"
  shows "zr5_hash_512 H A out input =
    (let s = H KECCAK512 input
     in Some (take 32 (run_chain H (map (\<lambda>d. Step (zr_algos ! d)) (permut ! unat (le32 (take 4 s) mod 24))) s) @ drop 32 out))"
proof -
  define s where "s = H KECCAK512 input"
  define p where "p = permut ! unat (le32 (take 4 s) mod 24)"
  have s: "length s = 64" using H by (simp add: s_def sph_len)
  have "unat (le32 (take 4 s) mod 24) < 24" by (simp add: unat_mod)
  then have p: "mset p = mset [0, 1, 2, 3]" unfolding p_def by (rule permut_rows)
  have len: "length p = 4" using arg_cong [OF p, of size] by simp
  have small: "p ! i < 4" if "i < 4" for i
    using that len arg_cong [OF p, of set_mset] nth_mem [of i p] by auto
  have dig: "digest_len (zr_algos ! d) = 64" if "d < 4" for d
    using that by (auto simp: zr_algos_def less_Suc_eq numeral_eq_Suc)
  let ?chain = "\<lambda>i. run_chain H (map (\<lambda>d. Step (zr_algos ! d)) (take i p)) s"
  let ?I = "\<lambda>i t. length t = 320 \<and> take 64 (drop (64 * i) t) = ?chain i"
  have "\<exists>t. fold_opt (zr5_round H p) [0..<4] (s @ drop 64 A) = Some t \<and> ?I 4 t"
  proof (rule fold_opt_upt_invariant [where I = ?I])
    show "?I 0 (s @ drop 64 A)" using s A by (simp add: run_chain_def)
  next
    fix i t
    assume i: "i < 4" and I: "?I i t"
    let ?a = "zr_algos ! (p ! i)"
    have a: "digest_len ?a = 64" using small [OF i] by (rule dig)
    have "length (H ?a (?chain i)) = 64" using H a by (simp add: sph_len)
    moreover have "64 * Suc (Suc i) \<le> length t" using I i by simp
    ultimately obtain t' where t': "buf_write (64 * Suc i) (H ?a (?chain i)) t = Some t'" "length t' = length t"
        "take 64 (drop (64 * Suc i) t') = H ?a (?chain i)"
      using slot_write by blast
    have "zr5_round H p i t = Some t'"
      using t'(1) I i by (simp add: zr5_round_def sph_at_def buf_read_def)
    moreover have "?chain (Suc i) = H ?a (?chain i)"
      using i len H a by (simp add: take_Suc_conv_app_nth run_chain_def run_step.simps zext_64)
    ultimately show "\<exists>t'. zr5_round H p i t = Some t' \<and> ?I (Suc i) t'"
      using t'(2,3) I by auto
  qed
  then obtain t where t: "fold_opt (zr5_round H p) [0..<4] (s @ drop 64 A) = Some t" "length t = 320"
      "take 64 (drop 256 t) = ?chain 4" by auto
  have run: "sph_run H KECCAK512 input A = Some (s @ drop 64 A)"
    using H A by (simp add: sph_run_def buf_write_def sph_len s_def)
  have "take 32 (drop 256 t) = take 32 (?chain 4)"
    using arg_cong [OF t(3), of "take 32"] by simp
  moreover have "rd32 0 (s @ drop 64 A) = Some (le32 (take 4 s))"
    using s by (simp add: rd32_def buf_read_def)
  moreover have "length (run_chain H (map (\<lambda>d. Step (zr_algos ! d)) p) s) = 64"
    using H len by (intro length_chain) auto
  ultimately show ?thesis
    using t(1,2) out len run
    by (simp add: zr5_hash_512_def Let_def s_def [symmetric] p_def [symmetric] buf_read_def buf_write_def)
qed

lemma evo_order_conv: "evo_order seq = map hex_digit ((next_permutation ^^ nat seq) [0..<11])"
proof -
  have "((\<lambda>n. snd (nextPerm n)) ^^ k) n = (next_permutation ^^ k) n" for k n
    by (simp add: nextPerm_eq)
  then show ?thesis by (simp add: evo_order_def initPerm_def)
qed

lemma evo_memo:
  assumes "st = fold evo_twisted_code ts evo_initial"
  shows "st = (if \<forall>u \<in> set ts. getCurrentAlgoSeq u = -1 then evo_initial
               else \<lparr>hashOrder = evo_order (getCurrentAlgoSeq (last ts)), s_sequence = getCurrentAlgoSeq (last ts)\<rparr>)"
  using assms
proof (induction ts arbitrary: st rule: rev_induct)
  case (snoc t ts)
  define s where "s = fold evo_twisted_code ts evo_initial"
  have st: "st = evo_twisted_code t s" using snoc.prems by (simp add: s_def)
  note IH = snoc.IH [OF s_def]
  show ?case
  proof (cases "\<forall>u \<in> set ts. getCurrentAlgoSeq u = -1")
    case True
    then show ?thesis using IH st by (auto simp: evo_twisted_code_def Let_def evo_initial_def)
  next
    case False
    have "s = \<lparr>hashOrder = evo_order (getCurrentAlgoSeq (last ts)), s_sequence = getCurrentAlgoSeq (last ts)\<rparr>"
      using IH [unfolded if_not_P [OF False]] .
    then show ?thesis using st False by (auto simp: evo_twisted_code_def Let_def)
  qed
qed simp

lemma evo_algos_len: "d < 11 \<Longrightarrow> digest_len (evo_algos ! d) = 64"
  by (auto simp: evo_algos_def less_Suc_eq numeral_eq_Suc)

lemma evo_loop:
  assumes H: "sph_ok H" and A: "64 \<le> length A" and p: "mset p = mset [0..<11]"
  shows "fold_opt (evo_round H input (map hex_digit p)) [0..<11] A =
    Some (run_chain H (map (\<lambda>d. Step (evo_algos ! d)) p) input @ drop 64 A)"
proof -
  have len: "length p = 11" using arg_cong [OF p, of size] by simp
  have d: "p ! i < 11" if "i < 11" for i
    using that len arg_cong [OF p, of set_mset] nth_mem [of i p] by auto
  have o: "order_algo (map hex_digit p ! i) = p ! i" if "i < 11" for i
    using d [OF that] len that by (simp add: order_algo_hex_digit)
  have "fold_opt (evo_round H input (map hex_digit p)) [0..<11] A =
      Some (fold (\<lambda>i. run_step H (Step (evo_algos ! (p ! i)))) [0..<11] input @ drop 64 A)"
    by (rule state_loop)
       (use d o H A in \<open>auto simp: evo_round_def Let_def evo_algos_len length_run_step sph_run_step sph_call_input
          simp del: nth_map\<close>)
  also have "fold (\<lambda>i. run_step H (Step (evo_algos ! (p ! i)))) [0..<11] input =
      run_chain H (map (\<lambda>d. Step (evo_algos ! d)) p) input"
  proof -
    have "map (\<lambda>d. Step (evo_algos ! d)) p = map (\<lambda>i. Step (evo_algos ! (p ! i))) [0..<11]"
      using len by (intro nth_equalityI) auto
    then show ?thesis by (simp add: run_chain_def fold_map comp_def)
  qed
  finally show ?thesis .
qed

section \<open>Properties\<close>

text \<open>
  C7. \<open>next_permutation\<close> (timetravel, bitcore, exosis) and \<open>nextPerm\<close> (x11evo) are the
  lexicographic successor: they only rearrange; a descending list is sent to the sorted one;
  any other list is sent to the least rearrangement above it.
\<close>

theorem next_permutation_successor:
  fixes xs :: "nat list"
  assumes "2 \<le> length xs"
  shows "mset (next_permutation xs) = mset xs \<and> snd (nextPerm xs) = next_permutation xs \<and>
    (if sorted_wrt (\<ge>) xs then sorted (next_permutation xs)
     else xs < next_permutation xs \<and> (\<forall>ys. mset ys = mset xs \<and> xs < ys \<longrightarrow> next_permutation xs \<le> ys))"
  using assms
proof (cases rule: next_permutation_cases)
  case last
  then show ?thesis by (simp add: nextPerm_eq sorted_wrt_rev)
next
  case (step pre x s1 y s2)
  have "\<not> sorted_wrt (\<ge>) xs"
  proof
    assume "sorted_wrt (\<ge>) xs"
    then have "y \<le> x" unfolding step(1) by (simp add: sorted_wrt_append)
    with step(3) show False by simp
  qed
  moreover have "xs < next_permutation xs"
    unfolding step(5) by (subst step(1)) (use step(3) in \<open>induction pre; simp\<close>)
  ultimately show ?thesis
    using successor_least [OF step(2-4), of _ pre] step(1,5) by (simp add: nextPerm_eq)
qed

theorem next_permutation_successor_witness:
  "snd (nextPerm [0, 2, 1]) = next_permutation [0, 2, 1] \<and> next_permutation [0, 2, 1 :: nat] = [1, 0, 2]"
  using next_permutation_successor [of "[0, 2, 1]"]
  by (simp add: next_permutation_def eval_nat_numeral reverse_range_conv swap_at_def)

text \<open>
  The time-travel functions stay inside their slots and compute the chain of a
  permutation of their 8 (or 10) primitives, each used exactly once, chosen by the time
  stamp of the header; stale slot contents never reach the result.
\<close>

lemma travel_functions_are_permuted_chains:
  assumes "sph_ok H" and "72 \<le> length input"
  shows "(length A = 512 \<longrightarrow>
      mset (travel_order 8 1389040865 input) = mset [0..<8] \<and>
      timetravel_hash H A input = Some (take 32 (run_chain H
        (map (\<lambda>d. Step (travel_algos ! d)) (travel_order 8 1389040865 input)) input)) \<and>
      exosis_hash H A input = Some (take 32 (run_chain H
        (map (\<lambda>d. Step (travel_algos ! d)) (travel_order 8 1538556426 input)) input))) \<and>
    (length A = 640 \<longrightarrow>
      mset (travel_order 10 1492973331 input) = mset [0..<10] \<and>
      timetravel10_hash H A input = Some (take 32 (run_chain H
        (map (\<lambda>d. Step (travel_algos ! d)) (travel_order 10 1492973331 input)) input)))"
  using travel_hash_eq [OF assms(1) _ _ _ assms(2), of A 8] travel_hash_eq [OF assms(1) _ _ _ assms(2), of A 10]
  by (simp add: timetravel_hash_def exosis_hash_def timetravel10_hash_def travel_order_def iterate_mset)



text \<open>
  C9. The cached order of x11evo: after any history of time stamps the static string holds
  the order of the day of the last one, and the function is the chain of that permutation of
  its eleven primitives; only when every time stamp so far lies one full day (and less than
  two) before the initial date is the string still empty, and the 32 result bytes are then
  the uninitialised array.
\<close>

theorem x11evo_cached_order:
  fixes ts :: "u32 list"
  assumes "sph_ok H" and "64 \<le> length A" and "72 \<le> length input"
  defines "t \<equiv> le32 (take 4 (drop 68 input))"
  defines "st \<equiv> fold evo_twisted_code ts evo_initial"
  shows "x11evo_hash H st A input = Some (evo_twisted_code t st,
    if \<forall>u \<in> set (t # ts). getCurrentAlgoSeq u = -1 then take 32 A
    else take 32 (run_chain H (map (\<lambda>d. Step (evo_algos ! d))
           ((next_permutation ^^ nat (getCurrentAlgoSeq t)) [0..<11])) input))"
proof -
  have t: "rd32 68 input = Some t" using assms(3) by (simp add: t_def rd32_at)
  let ?st = "evo_twisted_code t st"
  have memo: "?st = (if \<forall>u \<in> set (t # ts). getCurrentAlgoSeq u = -1 then evo_initial
      else \<lparr>hashOrder = evo_order (getCurrentAlgoSeq t), s_sequence = getCurrentAlgoSeq t\<rparr>)"
    using evo_memo [of ?st "ts @ [t]"] by (simp add: st_def)
  show ?thesis
  proof (cases "\<forall>u \<in> set (t # ts). getCurrentAlgoSeq u = -1")
    case True
    then have "hashOrder ?st = []" using memo by (simp add: evo_initial_def)
    then show ?thesis using t assms(2) True by (simp add: x11evo_hash_def buf_read_def)
  next
    case False
    let ?p = "(next_permutation ^^ nat (getCurrentAlgoSeq t)) [0..<11]"
    have o: "hashOrder ?st = map hex_digit ?p"
      using memo False by (auto simp: evo_order_conv)
    have p: "mset ?p = mset [0..<11]" by (rule iterate_mset)
    have l: "length ?p = 11" using arg_cong [OF p, of size] by simp
    then have "length (run_chain H (map (\<lambda>d. Step (evo_algos ! d)) ?p) input) = 64"
      using assms(1) by (intro length_chain) auto
    then show ?thesis
      unfolding if_not_P [OF False]
      using t evo_loop [OF assms(1,2) p, of input] o l
      by (simp add: x11evo_hash_def buf_read_def)
  qed
qed

theorem x11evo_cached_order_witness:
  "\<exists>st. x11evo_hash (\<lambda>a m. replicate (digest_len a) 0) evo_initial (replicate 64 7)
      (replicate 68 0 @ [0x80, 0xF5, 0x23, 0x57]) = Some (st, replicate 32 7)"
proof -
  have t: "le32 (take 4 (drop 68 (replicate 68 0 @ [0x80, 0xF5, 0x23, 0x57]))) = 0x5723F580"
    by (simp add: le32_def be_val_def)
  have "getCurrentAlgoSeq 0x5723F580 = -1" by (simp add: getCurrentAlgoSeq_def)
  then show ?thesis
    using x11evo_cached_order [of "\<lambda>a m. replicate (digest_len a) 0" "replicate 64 7"
        "replicate 68 0 @ [0x80, 0xF5, 0x23, 0x57]" "[]"] unfolding t
    by (simp add: sph_ok_def)
qed

definition zr5_chain :: "sph \<Rightarrow> u8 list \<Rightarrow> u8 list" where
  "zr5_chain H m =
     (let s = H KECCAK512 m
      in take 32 (run_chain H (map (\<lambda>d. Step (zr_algos ! d)) (permut ! unat (le32 (take 4 s) mod 24))) s))"

lemma zr5_512_chain:
  assumes "sph_ok H" and "length A = 320" and "32 \<le> length out"
  shows "zr5_hash_512 H A out input = Some (zr5_chain H input @ drop 32 out)"
  using zr5_hash_512_eq [OF assms, of input] by (simp add: zr5_chain_def Let_def)

lemma zr5_chain_length: "sph_ok H \<Longrightarrow> length (zr5_chain H m) = 32"
proof -
  assume H: "sph_ok H"
  let ?p = "permut ! unat (le32 (take 4 (H KECCAK512 m)) mod 24)"
  have "unat (le32 (take 4 (H KECCAK512 m)) mod 24) < 24" by (simp add: unat_mod)
  from arg_cong [OF permut_rows [OF this], of size] have "?p \<noteq> []" by auto
  from length_chain [OF H this] show ?thesis by (simp add: zr5_chain_def Let_def)
qed

text \<open>
  \<open>zr5_hash\<close>: both passes are Keccak followed by the four primitives in the order of a row
  of the table, and every row uses each of them once; between the passes the version word of
  the header copy loses its flag bit and takes the upper half of the first result. The
  arrays' previous contents do not matter.
\<close>

lemma zr5_hash_two_passes:
  assumes "sph_ok H" and "length A = 320" and "length out = 64" and "4 \<le> length input"
  defines "pok \<equiv> pok_version (le32 (take 4 input)) (le32 (take 4 (zr5_chain H input)))"
  shows "zr5_hash H A out input = Some (zr5_chain H (le_bytes 4 (unat pok) @ drop 4 input)) \<and>
         (\<forall>i < 24. mset (permut ! i) = mset [0, 1, 2, 3])"
proof
  have r: "rd32 0 (zr5_chain H input @ drop 32 out) = Some (le32 (take 4 (zr5_chain H input)))"
    using zr5_chain_length [OF assms(1), of input] by (simp add: rd32_at)
  show "zr5_hash H A out input = Some (zr5_chain H (le_bytes 4 (unat pok) @ drop 4 input))"
    using assms(3,4) zr5_chain_length [OF assms(1)] r
    by (simp add: zr5_hash_def zr5_512_chain [OF assms(1,2)] rd32_at pok_def [symmetric] buf_write_def
        buf_read_def)
qed (use permut_rows in simp)

definition x22i_head :: "chain_step list" where
  "x22i_head = [Step BLAKE512, Step BMW512, Step GROESTL512, Step SKEIN512, Step JH512, Step KECCAK512,
     Step LUFFA512, Step CUBEHASH512, Step SHAVITE512, Step SIMD512, Step ECHO512, Step HAMSI512,
     Step FUGUE512]"

definition x22i_spec :: "sph \<Rightarrow> (u8 list \<Rightarrow> u8 list) \<Rightarrow> (u8 list \<Rightarrow> u8 list \<Rightarrow> u8 list) \<Rightarrow> u8 list \<Rightarrow> u8 list" where
  "x22i_spec H swifftx lyra2 input =
     (let s0 = run_chain H x22i_head input; s1 = H SHABAL512 s0; s2 = H WHIRLPOOL s1; s3 = H SHA512 s2;
          sw = take 64 (swifftx (s0 @ s1 @ s2 @ s3));
          ti = zext 64 (H TIGER (zext 64 (H HAVAL256_5 sw)));
          ly = zext 64 (lyra2 (take 32 ti) (take 32 ti))
      in H SHA256 (H GOST512 ly))"

lemma x22i_head_loop:
  assumes "sph_ok H"
  shows "Option.bind (sph_run H BLAKE512 input (replicate 256 0)) (\<lambda>hash.
     Option.bind (sph_call H BMW512 hash 64 hash) (\<lambda>hash.
     Option.bind (sph_call H GROESTL512 hash 64 hash) (\<lambda>hash.
     Option.bind (sph_call H SKEIN512 hash 64 hash) (\<lambda>hash.
     Option.bind (sph_call H JH512 hash 64 hash) (\<lambda>hash.
     Option.bind (sph_call H KECCAK512 hash 64 hash) (\<lambda>hash.
     Option.bind (sph_call H LUFFA512 hash 64 hash) (\<lambda>hash.
     Option.bind (sph_call H CUBEHASH512 hash 64 hash) (\<lambda>hash.
     Option.bind (sph_call H SHAVITE512 hash 64 hash) (\<lambda>hash.
     Option.bind (sph_call H SIMD512 hash 64 hash) (\<lambda>hash.
     Option.bind (sph_call H ECHO512 hash 64 hash) (\<lambda>hash.
     Option.bind (sph_call H HAMSI512 hash 64 hash) (\<lambda>hash.
     Option.bind (sph_call H FUGUE512 hash 64 hash) g)))))))))))) =
     g (run_chain H x22i_head input @ replicate 192 0)"
  using assms by (simp add: x22i_head_def chain_simps)

text \<open>
  \<open>x22i_hash\<close> declares \<open>hash2\<close> with 64 bytes while \<open>ComputeSingleSWIFFTX\<close> writes 65 (64 and
  the carry byte): with an array of the declared size every call writes past it; with one
  byte more the function stays inside all its arrays and computes the chain of
  \<open>x22i_spec\<close>, whatever the array held.
\<close>

lemma x22i_hash_overflow:
  assumes "sph_ok H" and "\<And>m. length (swifftx m) = 65" and "\<And>p s. length (lyra2 p s) = 32"
  shows "x22i_hash H swifftx lyra2 hash2 input =
    (if length hash2 \<le> 64 then None else Some (x22i_spec H swifftx lyra2 input))"
proof -
  define s0 where "s0 = run_chain H x22i_head input"
  have s0: "length s0 = 64"
    using assms(1) by (simp add: s0_def x22i_head_def run_chain_def length_run_step)
  show ?thesis
    unfolding x22i_hash_def x22i_head_loop [OF assms(1)] x22i_spec_def s0_def [symmetric] Let_def
    by (simp add: sph_at_def sph_call_def buf_read_def buf_write_def sph_len assms s0 zext_def) arith
qed

end
