(* ===== verification/Codecs.thy ===== *)
theory Codecs
  imports Stratum_Prelude
begin

text \<open>
  \<open>util.cpp\<close>: the text and number codecs every message passes through. A C string is a
  \<open>string\<close> without its final NUL, a byte array a \<open>u8 list\<close>; a function that fills a buffer of
  its caller takes the buffer and returns it, \<open>None\<close> when it would write past the end.
\<close>

section \<open>Hexadecimal\<close>

definition hexchar :: "nat \<Rightarrow> char" where
  "hexchar d = ''0123456789abcdef'' ! d"

text \<open>\<open>"%02x"\<close>\<close>

definition hex2 :: "u8 \<Rightarrow> string" where
  "hex2 b = [hexchar (unat (drop_bit 4 b)), hexchar (unat (b AND 0xF))]"

definition hexlify :: "u8 list \<Rightarrow> string" where
  "hexlify bin = concat (map hex2 bin)"

definition binvalue :: "char \<Rightarrow> u8" where
  "binvalue v =
     (let n = of_char v :: nat
      in if 48 \<le> n \<and> n \<le> 57 then of_nat (n - 48)
         else if 97 \<le> n \<and> n \<le> 102 then of_nat (n - 97 + 10)
         else 0)"

fun binlify :: "string \<Rightarrow> u8 list" where
  "binlify (a # b # hex) = (push_bit 4 (binvalue a) OR binvalue b) # binlify hex"
| "binlify _ = []"

definition ishexa :: "string \<Rightarrow> bool" where
  "ishexa hex \<longleftrightarrow> list_all (\<lambda>c. c \<in> set ''0123456789abcdefABCDEF'') hex"

definition strprecatchar :: "string \<Rightarrow> u8 \<Rightarrow> string option" where
  "strprecatchar buffer c = (if length buffer + 3 \<le> 64 then Some (hex2 c @ buffer) else None)"

section \<open>Byte orders of hexadecimal text\<close>

text \<open>\<open>memcpy\<close> of \<open>n\<close> characters from \<open>src\<close> of the input to \<open>dst\<close> of the output.\<close>

definition copy_chars :: "string \<Rightarrow> nat \<Rightarrow> nat \<Rightarrow> nat \<Rightarrow> string \<Rightarrow> string option" where
  "copy_chars input src n dst output = do { m \<leftarrow> buf_read src n input; buf_write dst m output }"

definition ser_string_be :: "string \<Rightarrow> nat \<Rightarrow> string \<Rightarrow> string option" where
  "ser_string_be input len output =
     fold_opt (\<lambda>i. fold_opt (\<lambda>j. copy_chars input (i * 8 + 2 * j) 2 (i * 8 + (6 - 2 * j))) [0..<4])
       [0..<len] output"

definition ser_string_be2 :: "string \<Rightarrow> nat \<Rightarrow> string \<Rightarrow> string option" where
  "ser_string_be2 input len output =
     fold_opt (\<lambda>i. copy_chars input ((len - i - 1) * 8) 8 (i * 8)) [0..<len] output"

definition string_be :: "string \<Rightarrow> string \<Rightarrow> string option" where
  "string_be input output =
     (let len = length input div 2
      in fold_opt (\<lambda>i. copy_chars input (i * 2) 2 ((len - i - 1) * 2)) [0..<len] output)"

text \<open>\<open>string_be1\<close> works on a copy in an array of 1024 characters.\<close>

definition string_be1 :: "string \<Rightarrow> string option" where
  "string_be1 s = (if length s < 1024 then string_be s s else None)"

section \<open>Numbers\<close>

text \<open>The loop of \<open>ser_number\<close>: \<open>s[0]\<close> is the index of the next free byte.\<close>

function ser_loop :: "int \<Rightarrow> u8 list \<Rightarrow> int \<times> u8 list" where
  "ser_loop n s =
     (if 127 < n then ser_loop (n div 256) (s[unat (s ! 0) := of_int (n mod 256), 0 := s ! 0 + 1])
      else (n, s))"
  by pat_completeness auto
termination
  by (relation "measure (\<lambda>(n, s). nat n)") auto

declare ser_loop.simps [simp del]

definition ser_number :: "int \<Rightarrow> string" where
  "ser_number n =
     (let (n, s) = ser_loop n ((replicate 32 0)[0 := 1]);
          s = s[unat (s ! 0) := of_int n]
      in concat (map (\<lambda>i. hex2 (s ! i)) [0..<unat (s ! 0) + 1]))"

definition htoi_skip :: "string \<Rightarrow> string" where
  "htoi_skip s =
     (case s of z # x # r \<Rightarrow> if z = CHR ''0'' \<and> (x = CHR ''x'' \<or> x = CHR ''X'') then r else s | _ \<Rightarrow> s)"

definition hex_digit_value :: "char \<Rightarrow> nat option" where
  "hex_digit_value c =
     (let n = of_char c :: nat
      in if 48 \<le> n \<and> n \<le> 57 then Some (n - 48)
         else if 65 \<le> n \<and> n \<le> 70 then Some (n - 65 + 10)
         else if 97 \<le> n \<and> n \<le> 102 then Some (n - 97 + 10)
         else None)"

text \<open>\<open>val > UINT_MAX\<close> compares an unsigned value with its own maximum.\<close>

fun htoi_loop :: "string \<Rightarrow> 'a::len word \<Rightarrow> 'a word" where
  "htoi_loop [] val = val"
| "htoi_loop (c # s) val =
     (if val > -1 then 0
      else (case hex_digit_value c of Some d \<Rightarrow> htoi_loop s (val * 16 + of_nat d) | None \<Rightarrow> 0))"

definition htoi :: "string \<Rightarrow> u32" where
  "htoi s = htoi_loop (htoi_skip s) 0"

definition htoi64 :: "string \<Rightarrow> u64" where
  "htoi64 s = htoi_loop (htoi_skip s) 0"

section \<open>Block heights and HTTP headers\<close>

text \<open>\<open>strstr\<close>: the rest of the text after the first occurrence, with the text before it.\<close>

fun strstr :: "string \<Rightarrow> string \<Rightarrow> (string \<times> string) option" where
  "strstr [] search = (if search = [] then Some ([], []) else None)"
| "strstr (c # s) search =
     (if take (length search) (c # s) = search then Some ([], drop (length search) (c # s))
      else map_option (\<lambda>(a, b). (c # a, b)) (strstr s search))"

text \<open>The value buffer has room for 1024 characters and a NUL as far as \<open>strncpy\<close> is concerned.\<close>

definition header_value :: "string \<Rightarrow> string \<Rightarrow> string" where
  "header_value data search =
     (case strstr data search of
        None \<Rightarrow> []
      | Some (_, p) \<Rightarrow>
          (let p = dropWhile (\<lambda>c. c = CHR '' '' \<or> c = CHR '':'') p
           in case strstr p [CHR 0x0D, CHR 0x0A] of
                None \<Rightarrow> take 1024 p
              | Some (v, _) \<Rightarrow> take 1023 v))"

text \<open>
  \<open>getblocheight\<close>: \<open>stack\<close> is what the 1024 bytes of the local array hold before \<open>binlify\<close>.
  The two \<open>while\<close> loops stop at \<open>m = 160\<close>.
\<close>

fun scan_bytes :: "(u8 \<Rightarrow> bool) \<Rightarrow> nat \<Rightarrow> nat \<Rightarrow> u8 list \<Rightarrow> nat" where
  "scan_bytes P 0 p bin = p"
| "scan_bytes P (Suc fuel) p bin = (if P (bin ! p) then scan_bytes P fuel (p + 1) bin else p)"

definition le16dec :: "u8 list \<Rightarrow> nat \<Rightarrow> u32" where
  "le16dec bin p = ucast (bin ! p) OR push_bit 8 (ucast (bin ! (p + 1)))"

definition getblocheight :: "u8 list \<Rightarrow> string \<Rightarrow> u32 option" where
  "getblocheight stack coinb1 = do {
     bin \<leftarrow> buf_write 0 (binlify coinb1) stack;
     let p = scan_bytes (\<lambda>b. b \<noteq> 0xff) 128 32 bin;
     let p = scan_bytes (\<lambda>b. b = 0xff) (160 - p) p bin;
     Some (if bin ! (p - 1) = 0xff \<and> bin ! (p - 2) = 0xff then
        (let hlen = bin ! (p + 1); height = le16dec bin (p + 2)
         in if hlen = 4 then height + 0x10000 * le16dec bin (p + 4)
            else if hlen = 3 then height + 0x10000 * ucast (bin ! (p + 4))
            else height)
      else 0)
   }"

section \<open>Base 64\<close>

definition g_base64_tab :: string where
  "g_base64_tab = ''ABCDEFGHIJKLMNOPQRSTUVWXYZabcdefghijklmnopqrstuvwxyz0123456789+/''"

definition b64 :: "u8 \<Rightarrow> char" where
  "b64 b = g_base64_tab ! unat b"

fun base64_encode :: "u8 list \<Rightarrow> string" where
  "base64_encode (n0 # n1 # n2 # normal) =
     b64 (drop_bit 2 n0 AND 0x3F) #
     b64 (push_bit 4 (n0 AND 0x03) OR (drop_bit 4 n1 AND 0x0F)) #
     b64 (push_bit 2 (n1 AND 0x0F) OR (drop_bit 6 n2 AND 0x03)) #
     b64 (n2 AND 0x3F) # base64_encode normal"
| "base64_encode [n0] =
     [b64 (drop_bit 2 n0 AND 0x3F), b64 (push_bit 4 (n0 AND 0x03) OR 0), CHR ''='', CHR ''='']"
| "base64_encode [n0, n1] =
     [b64 (drop_bit 2 n0 AND 0x3F), b64 (push_bit 4 (n0 AND 0x03) OR (drop_bit 4 n1 AND 0x0F)),
      b64 (push_bit 2 (n1 AND 0x0F) OR 0), CHR ''='']"
| "base64_encode [] = []"

text \<open>
  \<open>decoding_tab[base64[i]]\<close> is indexed by a signed \<open>char\<close>: a byte from 128 on reads in front
  of the table.
\<close>

definition decoding_tab :: "char \<Rightarrow> u8 option" where
  "decoding_tab c =
     (if 128 \<le> (of_char c :: nat) then None
      else Some (case List.find (\<lambda>i. g_base64_tab ! i = c) [0..<64] of Some i \<Rightarrow> of_nat i | None \<Rightarrow> 255))"

fun base64_loop :: "string \<Rightarrow> u64 \<Rightarrow> nat \<Rightarrow> u8 list option" where
  "base64_loop [] current bit_filled = Some []"
| "base64_loop (c # s) current bit_filled =
     (if c \<in> {CHR 0x0A, CHR 0x0D, CHR 0x20, CHR 0x09} then base64_loop s current bit_filled
      else if c = CHR ''='' then Some []
      else (case decoding_tab c of
          None \<Rightarrow> None
        | Some digit \<Rightarrow>
            (let current = push_bit 6 current OR ucast digit; bit_filled = bit_filled + 6
             in if 8 \<le> bit_filled
                then map_option ((#) (ucast (drop_bit (bit_filled - 8) current)))
                       (base64_loop s current (bit_filled - 8))
                else base64_loop s current bit_filled)))"

definition base64_decode :: "string \<Rightarrow> u8 list option" where
  "base64_decode base64 = base64_loop base64 0 0"

section \<open>Hexadecimal round trips\<close>

lemma nibble_cases: "(P :: nat \<Rightarrow> bool) 0 \<Longrightarrow> P 1 \<Longrightarrow> P 2 \<Longrightarrow> P 3 \<Longrightarrow> P 4 \<Longrightarrow> P 5 \<Longrightarrow> P 6 \<Longrightarrow> P 7 \<Longrightarrow> P 8 \<Longrightarrow>
  P 9 \<Longrightarrow> P 10 \<Longrightarrow> P 11 \<Longrightarrow> P 12 \<Longrightarrow> P 13 \<Longrightarrow> P 14 \<Longrightarrow> P 15 \<Longrightarrow> n < 16 \<Longrightarrow> P n"
  by (auto simp: less_Suc_eq numeral_eq_Suc)

lemma binvalue_hexchar: "n < 16 \<Longrightarrow> binvalue (hexchar n) = of_nat n"
  by (rule nibble_cases [of "\<lambda>n. binvalue (hexchar n) = of_nat n"])
     (simp_all add: binvalue_def hexchar_def Let_def)

lemma push_drop_nibble: "push_bit 4 (drop_bit 4 b) OR (b AND 0xF) = (b :: u8)"
proof -
  have "b AND 0xF = take_bit 4 b" by (simp add: take_bit_eq_mask mask_eq_exp_minus_1)
  moreover have "push_bit 4 (drop_bit 4 b) OR take_bit 4 b = b"
    by (rule bit_word_eqI) (auto simp: bit_or_iff bit_push_bit_iff bit_drop_bit_eq bit_take_bit_iff)
  ultimately show ?thesis by simp
qed

lemma unat_nibble: "unat (drop_bit 4 (b :: u8)) < 16" "unat (b AND 0xF) < 16"
proof -
  show "unat (drop_bit 4 b) < 16"
    using unat_u8_less [of b] by (simp add: drop_bit_eq_div unat_div del: unat_u8_less)
  show "unat (b AND 0xF) < 16"
    using word_and_le1 [of b 15] by (simp add: word_le_nat_alt)
qed

lemma hexlify_simps [simp]:
  "hexlify [] = []" "hexlify (b # bs) = hex2 b @ hexlify bs" "hexlify (xs @ ys) = hexlify xs @ hexlify ys"
  by (simp_all add: hexlify_def)

lemma binlify_hexlify: "binlify (hexlify bs) = bs"
  by (induction bs) (simp_all add: hex2_def binvalue_hexchar unat_nibble push_drop_nibble)

lemma length_hexlify [simp]: "length (hexlify bs) = 2 * length bs"
  by (induction bs) (simp_all add: hex2_def)

lemma binlify_append: "even (length a) \<Longrightarrow> binlify (a @ b) = binlify a @ binlify b"
  by (induction a rule: binlify.induct) auto

lemma length_binlify [simp]: "length (binlify s) = length s div 2"
  by (induction s rule: binlify.induct) auto

definition lower_hex :: "string \<Rightarrow> bool" where
  "lower_hex s \<longleftrightarrow> list_all (\<lambda>c. c \<in> set ''0123456789abcdef'') s"

lemma hexchar_binvalue:
  "c \<in> set ''0123456789abcdef'' \<Longrightarrow> unat (binvalue c) < 16 \<and> hexchar (unat (binvalue c)) = c"
  by (auto simp: hexchar_def binvalue_def Let_def)

lemma hex2_pair:
  assumes "a \<in> set ''0123456789abcdef''" and "b \<in> set ''0123456789abcdef''"
  shows "hex2 (push_bit 4 (binvalue a) OR binvalue b) = [a, b]"
proof -
  have small: "take_bit 4 (binvalue c) = binvalue c" if "c \<in> set ''0123456789abcdef''" for c
    using hexchar_binvalue [OF that]
    by (simp add: take_bit_eq_mod word_arith_nat_mod)
  let ?w = "push_bit 4 (binvalue a) OR binvalue b"
  have "drop_bit 4 ?w = binvalue a"
  proof (rule bit_word_eqI)
    fix n
    assume "n < LENGTH(8)"
    have "\<not> bit (binvalue b) (4 + n)"
      by (metis small [OF assms(2)] bit_take_bit_iff not_add_less1)
    moreover have "bit (binvalue a) n \<Longrightarrow> n < 4"
      by (metis small [OF assms(1)] bit_take_bit_iff)
    ultimately show "bit (drop_bit 4 ?w) n = bit (binvalue a) n"
      using \<open>n < LENGTH(8)\<close> by (auto simp: bit_drop_bit_eq bit_or_iff bit_push_bit_iff)
  qed
  moreover have "?w AND 0xF = binvalue b"
  proof -
    have "?w AND 0xF = take_bit 4 ?w" by (simp add: take_bit_eq_mask mask_eq_exp_minus_1)
    also have "\<dots> = take_bit 4 (binvalue b)"
      by (rule bit_word_eqI) (auto simp: bit_take_bit_iff bit_or_iff bit_push_bit_iff)
    finally show ?thesis by (simp add: small [OF assms(2)])
  qed
  ultimately show ?thesis
    using hexchar_binvalue [OF assms(1)] hexchar_binvalue [OF assms(2)] unfolding hex2_def by simp
qed

lemma hexlify_binlify: "lower_hex s \<Longrightarrow> even (length s) \<Longrightarrow> hexlify (binlify s) = s"
proof (induction s rule: binlify.induct)
  case (1 a b s)
  then have "a \<in> set ''0123456789abcdef''" "b \<in> set ''0123456789abcdef''" "lower_hex s"
    by (simp_all add: lower_hex_def)
  then show ?case using 1 hex2_pair [of a b] by simp
qed (simp_all add: lower_hex_def)

lemma lower_hex_hexlify: "lower_hex (hexlify bs)"
proof (induction bs)
  case (Cons b bs)
  have "hexchar n \<in> set ''0123456789abcdef''" if "n < 16" for n
    using nth_mem [of n "''0123456789abcdef''"] that unfolding hexchar_def by simp
  then show ?case using Cons unat_nibble [of b] by (simp add: lower_hex_def hex2_def)
qed (simp add: lower_hex_def)

section \<open>Byte orders\<close>

definition pairs :: "string \<Rightarrow> string list" where
  "pairs s = map (\<lambda>i. take 2 (drop (2 * i) s)) [0..<length s div 2]"

lemma pairs_hexlify: "pairs (hexlify bs) = map hex2 bs"
proof -
  have "take 2 (drop (2 * i) (hexlify bs)) = hex2 (bs ! i)" if "i < length bs" for i
    using that
  proof (induction bs arbitrary: i)
    case (Cons b bs)
    then show ?case by (cases i) (simp_all add: hex2_def)
  qed simp
  then show ?thesis by (intro nth_equalityI) (simp_all add: pairs_def)
qed

lemma string_be_spec:
  assumes "2 * (length s div 2) \<le> length out"
  shows "string_be s out = Some (concat (rev (pairs s)) @ drop (2 * (length s div 2)) out)"
proof -
  let ?n = "length s div 2"
  let ?p = "\<lambda>i. take 2 (drop (2 * i) s)"
  let ?I = "\<lambda>k t. t = take (2 * (?n - k)) out @ concat (rev (map ?p [0..<k])) @ drop (2 * ?n) out"
  have "\<exists>t. fold_opt (\<lambda>i. copy_chars s (i * 2) 2 ((?n - i - 1) * 2)) [0..<?n] out = Some t \<and> ?I ?n t"
  proof (rule fold_opt_upt_invariant [where I = ?I])
    show "?I 0 out" using assms by simp
  next
    fix i t
    assume i: "i < ?n" and t: "?I i t"
    have len: "length (concat (rev (map ?p [0..<i]))) = 2 * i"
      using i by (induction i) (auto simp: min_def)
    have p: "buf_read (i * 2) 2 s = Some (?p i)" "length (?p i) = 2"
      using i by (auto simp: buf_read_def mult.commute min_def)
    have split: "take (2 * (?n - i)) out = take (2 * (?n - Suc i)) out @ take 2 (drop (2 * (?n - Suc i)) out)"
    proof -
      have "2 * (?n - i) = 2 * (?n - Suc i) + 2" using i by simp
      then show ?thesis by (simp only: take_add)
    qed
    let ?pre = "take (2 * (?n - Suc i)) out"
    let ?rest = "take 2 (drop (2 * (?n - Suc i)) out) @ concat (rev (map ?p [0..<i])) @ drop (2 * ?n) out"
    have off: "(?n - i - 1) * 2 = length ?pre" using assms i by simp
    have two: "length (take 2 (drop (2 * (?n - Suc i)) out)) = 2" using assms i by simp
    have "drop 2 ?rest = concat (rev (map ?p [0..<i])) @ drop (2 * ?n) out"
      using two by (metis append_eq_conv_conj)
    moreover have "t = ?pre @ ?rest" unfolding t split by simp
    moreover have "2 \<le> length ?rest" unfolding length_append two by simp
    ultimately have "buf_write ((?n - i - 1) * 2) (?p i) t =
        Some (?pre @ ?p i @ concat (rev (map ?p [0..<i])) @ drop (2 * ?n) out)"
      using buf_write_append [of ?pre "(?n - i - 1) * 2" "?p i" ?rest] off p(2) by metis
    then show "\<exists>t'. copy_chars s (i * 2) 2 ((?n - i - 1) * 2) t = Some t' \<and> ?I (Suc i) t'"
      using p by (simp add: copy_chars_def)
  qed
  then show ?thesis by (simp add: string_be_def Let_def pairs_def)
qed

lemma concat_rev_hex2: "concat (rev (map hex2 bs)) = hexlify (rev bs)"
  by (simp add: hexlify_def rev_map)

lemma string_be_hexlify:
  "2 * length bs \<le> length out \<Longrightarrow>
   string_be (hexlify bs) out = Some (hexlify (rev bs) @ drop (2 * length bs) out)"
  using string_be_spec [of "hexlify bs" out] by (simp add: pairs_hexlify concat_rev_hex2)

lemma string_be_overflow:
  assumes "length out < 2 * (length s div 2)"
  shows "string_be s out = None"
proof -
  obtain n where n: "length s div 2 = Suc n" using assms by (cases "length s div 2") auto
  have "2 \<le> length s" using n by linarith
  then have "buf_read 0 2 s = Some (take 2 s)" "length (take 2 s) = 2" by (simp_all add: buf_read_def)
  then show ?thesis
    using assms n by (simp add: string_be_def Let_def upt_conv_Cons copy_chars_def buf_write_def min_def
        del: upt_Suc)
qed

section \<open>Script numbers\<close>

text \<open>The bytes of a script number: low byte first, the last one at most 127.\<close>

function script_num :: "int \<Rightarrow> u8 list" where
  "script_num n = (if 127 < n then of_int (n mod 256) # script_num (n div 256) else [of_int n])"
  by pat_completeness auto
termination
  by (relation "measure nat") auto

declare script_num.simps [simp del]

lemma script_num_small: "n \<le> 127 \<Longrightarrow> script_num n = [of_int n]"
  by (simp add: script_num.simps [of n])

lemma script_num_big: "127 < n \<Longrightarrow> script_num n = of_int (n mod 256) # script_num (n div 256)"
  by (simp add: script_num.simps [of n])

lemma script_num_nonempty [simp]: "script_num n \<noteq> []"
  by (simp add: script_num.simps [of n])

lemma length_script_num: "n < 128 * 256 ^ k \<Longrightarrow> length (script_num n) \<le> Suc k"
proof (induction k arbitrary: n)
  case (Suc k)
  show ?case
  proof (cases "127 < n")
    case True
    moreover have "n div 256 < 128 * 256 ^ k" using Suc.prems by simp
    ultimately show ?thesis using Suc.IH [of "n div 256"] by (simp add: script_num_big)
  qed (simp add: script_num_small)
qed (simp add: script_num_small)

lemma ser_loop_script_num:
  assumes "length (script_num n) \<le> length rest" and "length pre = k" and "k + length (script_num n) < 256"
  shows "(case ser_loop n (of_nat (Suc k) # pre @ rest) of (m, s) \<Rightarrow> s[unat (s ! 0) := of_int m]) =
         of_nat (k + length (script_num n)) # pre @ script_num n @ drop (length (script_num n)) rest"
  using assms
proof (induction n arbitrary: pre rest k rule: script_num.induct)
  case (1 n)
  have k: "unat (of_nat (Suc k) :: u8) = Suc k"
  proof -
    have "0 < length (script_num n)" by simp
    then have "Suc k < 256" using 1(4) by linarith
    then show ?thesis by (simp add: unsigned_of_nat take_bit_eq_mod del: of_nat_Suc)
  qed
  obtain r rs where rest: "rest = r # rs"
    using 1(2) by (cases rest) auto
  show ?case
  proof (cases "127 < n")
    case True
    have upd: "(pre @ r # rs)[k := x] = (pre @ [x]) @ rs" for x
      using 1(3) by (simp add: list_update_append)
    have "ser_loop n (of_nat (Suc k) # pre @ rest) =
        ser_loop (n div 256) (of_nat (Suc (Suc k)) # (pre @ [of_int (n mod 256)]) @ rs)"
      using True by (subst ser_loop.simps) (simp only: rest k nth_Cons_0 list_update.simps nat.case upd
          if_True, simp add: add.commute)
    moreover have "script_num n = of_int (n mod 256) # script_num (n div 256)"
      using True by (rule script_num_big)
    ultimately show ?thesis
      using 1(1) [OF True, of rs "pre @ [of_int (n mod 256)]" "Suc k"] 1(2-4) rest by simp
  next
    case False
    then have "ser_loop n (of_nat (Suc k) # pre @ rest) = (n, of_nat (Suc k) # pre @ rest)"
      by (subst ser_loop.simps) simp
    moreover have "script_num n = [of_int n]" using False by (simp add: script_num_small)
    ultimately show ?thesis
      using 1(3) rest by (simp only: prod.case nth_Cons_0 k list_update.simps nat.case
          list_update_append rest) (simp add: add.commute)
  qed
qed

lemma ser_number_script_num:
  assumes "n < 2 ^ 31"
  shows "ser_number n = hexlify (of_nat (length (script_num n)) # script_num n)"
proof -
  let ?bs = "script_num n"
  have len: "length ?bs \<le> 4" using assms length_script_num [of n 3] by simp
  have start: "(replicate 32 0)[0 := 1] = (of_nat (Suc 0) :: u8) # [] @ replicate 31 0"
    by (simp add: numeral_eq_Suc)
  obtain m s where ms: "ser_loop n ((replicate 32 0)[0 := 1]) = (m, s)" by fastforce
  let ?t = "s[unat (s ! 0) := of_int m]"
  have t: "?t = of_nat (length ?bs) # ?bs @ drop (length ?bs) (replicate 31 0)"
    using ser_loop_script_num [of n "replicate 31 0" "[]" 0] len ms start by simp
  have "unat (?t ! 0) = length ?bs"
    using len unfolding t by (simp add: unsigned_of_nat take_bit_eq_mod)
  moreover have "map (\<lambda>i. hex2 (?t ! i)) [0..<length ?bs + 1] =
      map hex2 (of_nat (length ?bs) # ?bs)"
    unfolding t by (rule nth_equalityI) (auto simp: nth_Cons nth_append split: nat.splits simp del: upt_Suc)
  ultimately show ?thesis
    unfolding ser_number_def ms hexlify_def Let_def prod.case by (simp only:)
qed

lemma le_val_script_num: "0 \<le> n \<Longrightarrow> int (be_val (rev (script_num n))) = n"
proof (induction n rule: script_num.induct)
  case (1 n)
  show ?case
  proof (cases "127 < n")
    case True
    have "uint (of_int (n mod 256) :: u8) = n mod 256"
      by (simp add: unsigned_of_int take_bit_eq_mod)
    then have "int (unat (of_int (n mod 256) :: u8)) = n mod 256" by simp
    then show ?thesis using True 1 by (simp add: script_num_big)
  next
    case False
    then have "uint (of_int n :: u8) = n" using 1(2) by (simp add: unsigned_of_int take_bit_eq_mod)
    then show ?thesis using False by (simp add: script_num_small be_val_def)
  qed
qed

lemma last_script_num: "0 \<le> n \<Longrightarrow> last (script_num n) \<le> 127"
proof (induction n rule: script_num.induct)
  case (1 n)
  show ?case
  proof (cases "127 < n")
    case True
    then show ?thesis using 1 by (simp add: script_num_big)
  next
    case False
    then have "uint (of_int n :: u8) = n" using 1(2) by (simp add: unsigned_of_int take_bit_eq_mod)
    then show ?thesis using False by (simp add: script_num_small word_le_def)
  qed
qed

section \<open>Block heights\<close>

lemma scan_bytes_skip:
  "list_all P xs \<Longrightarrow> \<not> P y \<Longrightarrow> length xs < fuel \<Longrightarrow>
   scan_bytes P fuel (length pre) (pre @ xs @ y # rest) = length pre + length xs"
proof (induction xs arbitrary: pre fuel)
  case Nil
  then show ?case by (cases fuel) (simp_all add: nth_append)
next
  case (Cons x xs)
  then show ?case using Cons.IH [of "fuel - 1" "pre @ [x]"] by (cases fuel) (simp_all add: nth_append)
qed

lemma le16dec_at: "le16dec (pre @ a # b # rest) (length pre) = of_nat (unat a + unat b * 256)"
proof -
  have "le16dec (pre @ a # b # rest) (length pre) = push_bit 8 (of_nat (unat b)) OR of_nat (unat a)"
    by (simp add: le16dec_def nth_append or.commute)
  also have "\<dots> = of_nat (push_bit 8 (unat b) OR unat a)" by (simp add: of_nat_or_eq of_nat_push_bit)
  also have "\<dots> = of_nat (unat a + unat b * 256)" using or_shift_nat [of "unat a" 8 "unat b"] by (simp add: add.commute)
  finally show ?thesis .
qed

lemma getblocheight_bytes:
  assumes pre: "32 \<le> length pre" "length pre < 150" "list_all (\<lambda>b. b \<noteq> 0xff) (drop 32 pre)"
    and slen: "slen \<noteq> 0xff"
    and len: "length bs \<in> {2, 3, 4}"
    and room: "length (pre @ replicate 4 0xff @ slen # of_nat (length bs) # bs @ post) \<le> length stack"
  shows "getblocheight stack (hexlify (pre @ replicate 4 0xff @ slen # of_nat (length bs) # bs @ post)) =
         Some (of_nat (be_val (rev bs)))"
proof -
  let ?msg = "pre @ replicate 4 0xff @ slen # of_nat (length bs) # bs @ post"
  let ?tail = "bs @ post @ drop (length ?msg) stack"
  define bin where "bin = pre @ replicate 4 0xff @ slen # of_nat (length bs) # ?tail"
  have wr: "buf_write 0 (binlify (hexlify ?msg)) stack = Some bin"
    using room unfolding binlify_hexlify by (simp add: buf_write_def bin_def)
  have split: "take 32 pre @ drop 32 pre @ xs = pre @ xs" for xs by (simp flip: append_assoc)
  have ff: "replicate 4 (0xff :: u8) = 0xff # replicate 3 0xff" by (simp add: numeral_eq_Suc)
  have p1: "scan_bytes (\<lambda>b. b \<noteq> 0xff) 128 32 bin = length pre"
    using scan_bytes_skip [of "\<lambda>b. b \<noteq> 0xff" "drop 32 pre" "0xff" 128 "take 32 pre"
        "replicate 3 0xff @ slen # of_nat (length bs) # ?tail"] pre
    unfolding bin_def ff by (simp add: split)
  have p2: "scan_bytes (\<lambda>b. b = 0xff) (160 - length pre) (length pre) bin = length pre + 4"
    using scan_bytes_skip [of "\<lambda>b. b = 0xff" "replicate 4 0xff" slen "160 - length pre" pre
        "of_nat (length bs) # ?tail"] pre slen
    unfolding bin_def by (simp add: list_all_iff)
  let ?q = "length pre + 4"
  have at: "bin ! (?q - 1) = 0xff" "bin ! (?q - 2) = 0xff" "bin ! (?q + 1) = of_nat (length bs)"
    by (simp_all add: bin_def nth_append numeral_eq_Suc)
  obtain a b r where bs: "bs = a # b # r" using len by (cases bs rule: remdups_adj.cases) auto
  let ?pre = "pre @ replicate 4 0xff @ [slen, of_nat (length bs)]"
  have bin2: "bin = ?pre @ a # b # r @ post @ drop (length ?msg) stack"
    unfolding bin_def by (simp add: bs)
  have h: "le16dec bin (?q + 2) = of_nat (unat a + unat b * 256)"
    using le16dec_at [of ?pre a b] by (simp add: bin2 add.commute)
  have h4: "le16dec bin (?q + 4) = of_nat (unat c + unat d * 256)" if "r = [c, d]" for c d
    using le16dec_at [of "?pre @ [a, b]" c d] that by (simp add: bin2 add.commute)
  have h3: "bin ! (?q + 4) = c" if "r = [c]" for c
    using nth_append_length [of "?pre @ [a, b]" c] that by (simp add: bin2 add.commute)
  consider "r = []" | c where "r = [c]" | c d where "r = [c, d]"
    using len by (auto simp: bs length_Suc_conv numeral_eq_Suc)
  then show ?thesis
    using wr p1 p2 at h h3 h4
    by cases (simp_all add: getblocheight_def bs be_val_def Let_def)
qed

lemma getblocheight_ser_number:
  assumes n: "128 \<le> n" "n < 2 ^ 31"
    and pre: "32 \<le> length pre" "length pre < 150" "list_all (\<lambda>b. b \<noteq> 0xff) (drop 32 pre)"
    and slen: "slen \<noteq> 0xff"
    and room: "length pre + length post + 10 \<le> length stack"
  shows "getblocheight stack (hexlify (pre @ replicate 4 0xff @ [slen]) @ ser_number n @ hexlify post) =
         Some (of_int n)"
proof -
  let ?bs = "script_num n"
  have "length ?bs \<le> 4" using n(2) length_script_num [of n 3] by simp
  moreover have "2 \<le> length ?bs"
    using n(1) by (simp add: script_num_big numeral_2_eq_2 Suc_le_eq)
  ultimately have "length ?bs \<in> {2, 3, 4}" by auto
  moreover have "hexlify (pre @ replicate 4 0xff @ [slen]) @ ser_number n @ hexlify post =
      hexlify (pre @ replicate 4 0xff @ slen # of_nat (length ?bs) # ?bs @ post)"
    unfolding ser_number_script_num [OF n(2)] by simp
  moreover have "length (pre @ replicate 4 0xff @ slen # of_nat (length ?bs) # ?bs @ post) \<le> length stack"
    using room \<open>length ?bs \<le> 4\<close> by simp
  moreover have "(of_nat (be_val (rev ?bs)) :: u32) = of_int n"
    using le_val_script_num [of n] n(1) by (metis of_int_of_nat_eq order_trans zero_le_numeral)
  ultimately show ?thesis using getblocheight_bytes [OF pre slen] by metis
qed

section \<open>Hexadecimal numbers\<close>

definition hex_value :: "string \<Rightarrow> nat" where
  "hex_value s = foldl (\<lambda>v c. v * 16 + the (hex_digit_value c)) 0 s"

lemma htoi_loop_value:
  "htoi_loop s val =
     (if list_all (\<lambda>c. hex_digit_value c \<noteq> None) s
      then of_nat (foldl (\<lambda>v c. v * 16 + the (hex_digit_value c)) (unat val) s) else 0)"
proof (induction s arbitrary: val)
  case (Cons c s)
  have "\<not> - 1 < val" by simp
  show ?case
  proof (cases "hex_digit_value c")
    case (Some d)
    have "(of_nat (foldl (\<lambda>v c. v * 16 + the (hex_digit_value c)) x s) :: 'a word) =
        of_nat (foldl (\<lambda>v c. v * 16 + the (hex_digit_value c)) y s)" if "(of_nat x :: 'a word) = of_nat y" for x y
      using that by (induction s arbitrary: x y) simp_all
    from this [of "unat (val * 16 + of_nat d)" "unat val * 16 + d"]
    show ?thesis using Some Cons [of "val * 16 + of_nat d"] \<open>\<not> - 1 < val\<close> by simp
  qed (simp add: \<open>\<not> - 1 < val\<close>)
qed simp

section \<open>Base 64\<close>

lemma find_nth_distinct:
  assumes "distinct xs" and "i < length xs"
  shows "List.find (\<lambda>j. xs ! j = xs ! i) [0..<length xs] = Some i"
proof -
  have "\<exists>k < length [0..<length xs]. xs ! ([0..<length xs] ! k) = xs ! i \<and> i = [0..<length xs] ! k \<and>
      (\<forall>j < k. xs ! ([0..<length xs] ! j) \<noteq> xs ! i)"
    using assms by (intro exI [of _ i]) (auto simp: nth_eq_iff_index_eq)
  then show ?thesis by (simp add: find_Some_iff)
qed

lemma base64_tab_facts:
  "length g_base64_tab = 64" "distinct g_base64_tab"
  "list_all (\<lambda>c. (of_char c :: nat) < 128 \<and> c \<noteq> CHR ''='' \<and> c \<notin> {CHR 0x0A, CHR 0x0D, CHR 0x20, CHR 0x09}) g_base64_tab"
  by (simp_all add: g_base64_tab_def)

lemma decode_b64:
  assumes "unat x < 64"
  shows "decoding_tab (b64 x) = Some x" "b64 x \<noteq> CHR ''=''" "b64 x \<notin> {CHR 0x0A, CHR 0x0D, CHR 0x20, CHR 0x09}"
proof -
  have "g_base64_tab ! unat x \<in> set g_base64_tab" using assms base64_tab_facts(1) by simp
  then have c: "(of_char (b64 x) :: nat) < 128 \<and> b64 x \<noteq> CHR ''='' \<and> b64 x \<notin> {CHR 0x0A, CHR 0x0D, CHR 0x20, CHR 0x09}"
    using base64_tab_facts(3) unfolding list_all_iff b64_def by blast
  have "List.find (\<lambda>j. g_base64_tab ! j = b64 x) [0..<64] = Some (unat x)"
    using find_nth_distinct [OF base64_tab_facts(2), of "unat x"] assms
    unfolding base64_tab_facts(1) b64_def by blast
  then show "decoding_tab (b64 x) = Some x"
    using c by (simp add: decoding_tab_def)
  show "b64 x \<noteq> CHR ''=''" "b64 x \<notin> {CHR 0x0A, CHR 0x0D, CHR 0x20, CHR 0x09}" using c by blast+
qed

definition push_sextet :: "u64 \<Rightarrow> u8 \<Rightarrow> u64" where
  "push_sextet current x = push_bit 6 current OR ucast x"

lemma base64_loop_sextet:
  assumes "unat x < 64"
  shows "base64_loop (b64 x # s) c 0 = base64_loop s (push_sextet c x) 6"
    and "base64_loop (b64 x # s) c 6 = map_option ((#) (ucast (drop_bit 4 (push_sextet c x)))) (base64_loop s (push_sextet c x) 4)"
    and "base64_loop (b64 x # s) c 4 = map_option ((#) (ucast (drop_bit 2 (push_sextet c x)))) (base64_loop s (push_sextet c x) 2)"
    and "base64_loop (b64 x # s) c 2 = map_option ((#) (ucast (push_sextet c x))) (base64_loop s (push_sextet c x) 0)"
  using decode_b64 [OF assms] by (simp_all add: push_sextet_def Let_def)

text \<open>The four sextets of three bytes.\<close>

definition sextets :: "u8 \<Rightarrow> u8 \<Rightarrow> u8 \<Rightarrow> u8 list" where
  "sextets n0 n1 n2 =
     [drop_bit 2 n0 AND 0x3F, push_bit 4 (n0 AND 0x03) OR (drop_bit 4 n1 AND 0x0F),
      push_bit 2 (n1 AND 0x0F) OR (drop_bit 6 n2 AND 0x03), n2 AND 0x3F]"

lemma sextets_take:
  "sextets n0 n1 n2 =
     [take_bit 6 (drop_bit 2 n0), push_bit 4 (take_bit 2 n0) OR take_bit 4 (drop_bit 4 n1),
      push_bit 2 (take_bit 4 n1) OR take_bit 2 (drop_bit 6 n2), take_bit 6 n2]"
  by (simp add: sextets_def take_bit_eq_mask mask_eq_exp_minus_1)

lemmas word_bit_simps = bit_take_bit_iff bit_or_iff bit_drop_bit_eq bit_push_bit_iff bit_ucast_iff

lemma sextet_less:
  assumes "x \<in> set (sextets a b c)"
  shows "unat x < 64"
proof -
  have "take_bit 6 x = x"
    using assms unfolding sextets_take by (auto intro!: bit_word_eqI simp: word_bit_simps)
  then have "unat x = take_bit 6 (unat x)" by (metis unsigned_take_bit_eq)
  then show ?thesis using take_bit_nat_less_exp [of 6 "unat x"] by simp
qed

lemma minus_two_Suc: "\<not> n < 2 \<Longrightarrow> Suc (Suc (n - 2)) = n" "\<not> n < 4 \<Longrightarrow> Suc (Suc (n - 2)) = n" "2 \<le> n \<Longrightarrow> Suc (Suc (n - 2)) = n"
  by simp_all

lemma sextets_join:
  fixes n0 n1 n2 :: u8 and c :: u64
  defines "x \<equiv> sextets n0 n1 n2"
  shows "ucast (drop_bit 4 (push_sextet (push_sextet c (x ! 0)) (x ! 1))) = n0"
    and "ucast (drop_bit 2 (push_sextet (push_sextet c (x ! 1)) (x ! 2))) = n1"
    and "ucast (push_sextet (push_sextet c (x ! 2)) (x ! 3)) = n2"
proof -
  show "ucast (drop_bit 4 (push_sextet (push_sextet c (x ! 0)) (x ! 1))) = n0"
    unfolding x_def sextets_take push_sextet_def by (rule bit_word_eqI) (auto simp: word_bit_simps minus_two_Suc)
  show "ucast (drop_bit 2 (push_sextet (push_sextet c (x ! 1)) (x ! 2))) = n1"
    unfolding x_def sextets_take push_sextet_def by (rule bit_word_eqI) (auto simp: word_bit_simps minus_two_Suc)
  show "ucast (push_sextet (push_sextet c (x ! 2)) (x ! 3)) = n2"
    unfolding x_def sextets_take push_sextet_def by (rule bit_word_eqI) (auto simp: word_bit_simps minus_two_Suc)
qed

lemma base64_encode_sextets:
  "base64_encode (n0 # n1 # n2 # s) =
   b64 (sextets n0 n1 n2 ! 0) # b64 (sextets n0 n1 n2 ! 1) # b64 (sextets n0 n1 n2 ! 2) #
   b64 (sextets n0 n1 n2 ! 3) # base64_encode s"
  by (simp add: sextets_def)

lemma sextet_nth: "i < 4 \<Longrightarrow> unat (sextets a b c ! i) < 64"
  by (rule sextet_less, rule nth_mem) (simp add: sextets_def)

lemma sextets_partial:
  "base64_encode [n0] = [b64 (sextets n0 0 0 ! 0), b64 (sextets n0 0 0 ! 1), CHR ''='', CHR ''='']"
  "base64_encode [n0, n1] = [b64 (sextets n0 n1 0 ! 0), b64 (sextets n0 n1 0 ! 1), b64 (sextets n0 n1 0 ! 2), CHR ''='']"
  by (simp_all add: sextets_def)

lemma base64_loop_end: "base64_loop (CHR ''='' # s) current filled = Some []"
  by simp

lemma base64_round_trip_from: "base64_loop (base64_encode bs) current 0 = Some bs"
proof (induction bs arbitrary: current rule: base64_encode.induct)
  case (1 n0 n1 n2 s)
  show ?case
    unfolding base64_encode_sextets
    by (simp only: base64_loop_sextet sextet_nth sextets_join 1 option.map)
next
  case (2 n0)
  show ?case
    unfolding sextets_partial
    by (simp only: base64_loop_sextet base64_loop_end sextet_nth sextets_join option.map)
next
  case (3 n0 n1)
  show ?case
    unfolding sextets_partial
    by (simp only: base64_loop_sextet base64_loop_end sextet_nth sextets_join option.map)
qed simp

section \<open>The properties of the codecs\<close>

text \<open>
  \<open>hexlify\<close> and \<open>binlify\<close> are inverse to each other on bytes and on lower-case
  hexadecimal text of even length.
\<close>

lemma hex_round_trip:
  "lower_hex s \<Longrightarrow> even (length s) \<Longrightarrow> hexlify (binlify s) = s \<and> binlify (hexlify bs) = bs"
  by (simp add: binlify_hexlify hexlify_binlify)

text \<open>
  \<open>string_be\<close> writes the bytes of its text in the opposite order, and it writes past its
  output exactly when that output is shorter than the text: it never looks at the size of the
  buffer it fills.
\<close>

lemma string_be_reverses:
  "string_be (hexlify bs) out =
   (if 2 * length bs \<le> length out then Some (hexlify (rev bs) @ drop (2 * length bs) out) else None)"
  using string_be_hexlify [of bs out] string_be_overflow [of out "hexlify bs"] by auto

text \<open>
  Upper-case digits pass \<open>ishexa\<close> but \<open>binlify\<close> reads each of them as zero.
\<close>

lemma binlify_upper_case:
  "list_all (\<lambda>c. c \<in> set ''ABCDEF'') s \<Longrightarrow> ishexa s \<and> binlify s = replicate (length s div 2) 0"
proof (induction s rule: binlify.induct)
  case (1 a b s)
  have "binvalue c = 0" if "c \<in> set ''ABCDEF''" for c
    using that by (auto simp: binvalue_def Let_def)
  then show ?case using 1 by (simp add: ishexa_def)
qed (auto simp: ishexa_def)

text \<open>
  C10. The height \<open>ser_number\<close> writes into a coinbase is the height \<open>getblocheight\<close> reads
  back: the outpoint of a coinbase ends in four \<open>0xff\<close> bytes, the script length follows, then
  the script number. Heights from 128 up to 2^31, whatever the stack held before.
\<close>

theorem block_height_round_trip:
  assumes "128 \<le> n" and "n < 2 ^ 31"
    and "32 \<le> length pre" and "length pre < 150" and "list_all (\<lambda>b. b \<noteq> 0xff) (drop 32 pre)"
    and "slen \<noteq> 0xff"
    and "length pre + length post + 10 \<le> length stack"
  shows "getblocheight stack (hexlify (pre @ replicate 4 0xff @ [slen]) @ ser_number n @ hexlify post) =
         Some (of_int n)"
  using assms by (rule getblocheight_ser_number)

theorem block_height_round_trip_witness:
  "getblocheight (replicate 1024 7)
     (hexlify (replicate 41 0 @ replicate 4 0xff @ [20]) @ ser_number 700000 @ hexlify [4]) =
   Some (of_int 700000)"
  by (rule block_height_round_trip) (simp_all add: list_all_iff)

text \<open>
  \<open>ser_number\<close> writes a number below 2^31 as its length and its little-endian bytes: their
  value is the number, the last byte is below 128 so that the script number is positive, and
  there are at most four of them.
\<close>

lemma ser_number_encodes:
  assumes "0 \<le> n" and "n < 2 ^ 31"
  shows "\<exists>bs. ser_number n = hexlify (of_nat (length bs) # bs) \<and> int (be_val (rev bs)) = n \<and>
           bs \<noteq> [] \<and> last bs \<le> 127 \<and> length bs \<le> 4"
  using ser_number_script_num [OF assms(2)] le_val_script_num [OF assms(1)] last_script_num [OF assms(1)]
    length_script_num [of n 3] assms(2) script_num_nonempty [of n]
  by (intro exI [of _ "script_num n"]) simp

text \<open>
  \<open>htoi\<close> and \<open>htoi64\<close> give the value of a hexadecimal number modulo the width of their
  result and zero for a text with any other character. The test for a value above the maximum
  never holds, so a number that does not fit wraps instead of giving zero.
\<close>

lemma htoi_value:
  "htoi s = (if list_all (\<lambda>c. hex_digit_value c \<noteq> None) (htoi_skip s) then of_nat (hex_value (htoi_skip s)) else 0) \<and>
   htoi64 s = (if list_all (\<lambda>c. hex_digit_value c \<noteq> None) (htoi_skip s) then of_nat (hex_value (htoi_skip s)) else 0)"
  by (simp add: htoi_def htoi64_def hex_value_def htoi_loop_value)

text \<open>
  \<open>base64_decode\<close> gives back what \<open>base64_encode\<close> wrote, for any bytes.
\<close>

lemma base64_round_trip:
  "base64_decode (base64_encode bs) = Some bs"
  by (simp add: base64_decode_def base64_round_trip_from)

text \<open>
  A byte of 128 or more in the text indexes the decoding table with a negative number.
\<close>

lemma base64_decode_negative_index:
  assumes "128 \<le> (of_char c :: nat)"
  shows "base64_decode (c # s) = None"
proof -
  have "c \<notin> {CHR 0x0A, CHR 0x0D, CHR 0x20, CHR 0x09}" "c \<noteq> CHR ''=''"
    using assms by auto
  then show ?thesis using assms by (simp add: base64_decode_def decoding_tab_def)
qed

end
