(* ===== verification/Targets.thy ===== *)
theory Targets
  imports Codecs
begin

text \<open>
  \<open>util.cpp\<close>: the difficulty of a hash and the two directions of the compact form of a
  256-bit target (\<open>bits2target\<close>, \<open>target2bits\<close>).
\<close>

section \<open>The leading words of a hash\<close>

definition get_hash_difficulty :: "u8 list \<Rightarrow> u64" where
  "get_hash_difficulty p =
     push_bit 56 (ucast (p ! 29)) OR push_bit 48 (ucast (p ! 28)) OR push_bit 40 (ucast (p ! 27)) OR
     push_bit 32 (ucast (p ! 26)) OR push_bit 24 (ucast (p ! 25)) OR push_bit 16 (ucast (p ! 24)) OR
     push_bit 8 (ucast (p ! 23)) OR push_bit 0 (ucast (p ! 22))"

section \<open>Compact targets\<close>

text \<open>An array write at a computed (possibly negative) index.\<close>

definition write_at :: "int \<Rightarrow> 'a \<Rightarrow> 'a list \<Rightarrow> 'a list option" where
  "write_at i x xs = (if 0 \<le> i \<and> i < int (length xs) then Some (xs[nat i := x]) else None)"

definition bits2target :: "u32 \<Rightarrow> string \<Rightarrow> string option" where
  "bits2target nbits out_target = do {
     bin \<leftarrow> (if nbits \<noteq> 0 then do {
         let e = int (unat (drop_bit 24 nbits));
         b \<leftarrow> write_at (e - 1) (ucast (drop_bit 16 nbits AND 0xff)) (replicate 32 0);
         b \<leftarrow> write_at (e - 2) (ucast (drop_bit 8 nbits AND 0xff)) b;
         write_at (e - 3) (ucast (nbits AND 0xff)) b
       } else Some (replicate 32 (0 :: u8)));
     string_be (hexlify bin) out_target
   }"

text \<open>
  \<open>target2bits\<close>: \<open>pn\<close> is the little-endian array of eight words; \<open>beyond\<close> is the word in
  memory behind it, which \<open>pn[pos + 1]\<close> reads when \<open>pos\<close> is 7.
\<close>

definition words_of :: "u8 list \<Rightarrow> u32 list" where
  "words_of bs = map (\<lambda>i. of_nat (be_val (rev (take 4 (drop (4 * i) bs))))) [0..<8]"

fun top_bit :: "u32 \<Rightarrow> nat \<Rightarrow> nat option" where
  "top_bit w 0 = None"
| "top_bit w (Suc b) = (if w AND push_bit (Suc b) 1 \<noteq> 0 then Some (Suc b) else top_bit w b)"

fun significant_bits :: "u32 list \<Rightarrow> nat \<Rightarrow> nat" where
  "significant_bits pn 0 = 0"
| "significant_bits pn (Suc pos) =
     (if pn ! pos \<noteq> 0 then
        (case top_bit (pn ! pos) 31 of Some b \<Rightarrow> 32 * pos + b + 1 | None \<Rightarrow> 32 * pos + 1)
      else significant_bits pn pos)"

definition target2bits :: "u32 \<Rightarrow> string \<Rightarrow> u32 option" where
  "target2bits beyond target = do {
     target_rev \<leftarrow> string_be target (replicate 64 (CHR 0x00));
     bytes \<leftarrow> buf_write 0 (binlify (takeWhile (\<lambda>c. c \<noteq> CHR 0x00) target_rev)) (replicate 32 0);
     let pn = words_of bytes;
     let bits_res = significant_bits pn 8;
     let nSize = (bits_res + 7) div 8;
     let nCompact = ((if nSize \<le> 3 then
           ucast (push_bit (8 * (3 - nSize)) (ucast (pn ! 0) OR push_bit 32 (ucast (pn ! 1)) :: u64))
         else
           (let pos = 8 * (nSize - 3); shr_bytes = pos div 8 mod 4; pos = pos div 8 div 4;
                hi = (if pos + 1 < 8 then pn ! (pos + 1) else beyond)
            in ucast (drop_bit (shr_bytes * 8) (ucast (pn ! pos) OR push_bit 32 (ucast hi) :: u64)))) :: u32);
     (nCompact, nSize) \<leftarrow>
       Some (if nCompact AND 0x00800000 \<noteq> 0 then (drop_bit 8 nCompact, nSize + 1) else (nCompact, nSize));
     Some (nCompact OR push_bit 24 (of_nat nSize))
   }"

section \<open>Words read from bytes\<close>

lemma of_nat_be_step: "(of_nat (v * 256 + unat (b :: u8)) :: 'a::len word) = push_bit 8 (of_nat v) OR ucast b"
proof -
  have "v * 256 + unat b = (push_bit 8 v OR unat b)"
    using or_shift_nat [of "unat b" 8 v] by simp
  then show ?thesis by (simp add: of_nat_or_eq of_nat_push_bit)
qed

lemma of_nat_be_val:
  "(of_nat (be_val bs) :: 'a::len word) = foldl (\<lambda>v b. push_bit 8 v OR ucast b) 0 bs"
proof (induction bs rule: rev_induct)
  case (snoc b bs)
  have "(of_nat (be_val (bs @ [b])) :: 'a word) = push_bit 8 (of_nat (be_val bs)) OR ucast b"
    unfolding be_val_snoc by (rule of_nat_be_step)
  then show ?case unfolding snoc by simp
qed simp

lemma get_hash_difficulty_val:
  assumes "32 \<le> length p"
  shows "get_hash_difficulty p = of_nat (be_val (rev (take 8 (drop 22 p))))"
proof -
  have "take 8 (drop 22 p) = map (\<lambda>i. p ! i) [22..<30]"
    using assms by (intro nth_equalityI) (auto simp del: upt_Suc upt_rec_numeral)
  then have "rev (take 8 (drop 22 p)) = [p ! 29, p ! 28, p ! 27, p ! 26, p ! 25, p ! 24, p ! 23, p ! 22]"
    by (simp add: upt_rec)
  then show ?thesis
    by (simp only: of_nat_be_val) (simp add: get_hash_difficulty_def push_bit_or or.assoc)
qed

lemma get_hash_difficulty_div:
  assumes "length p = 32"
  shows "unat (get_hash_difficulty p) = be_val (rev p) div 2 ^ 176 mod 2 ^ 64"
proof -
  let ?m = "take 8 (drop 22 p)"
  have "rev p = rev (drop 30 p) @ rev ?m @ rev (take 22 p)"
  proof -
    have "drop 22 p = ?m @ drop 30 p" using append_take_drop_id [of 8 "drop 22 p"] by simp
    then have "p = take 22 p @ ?m @ drop 30 p" using append_take_drop_id [of 22 p] by simp
    then show ?thesis by (metis rev_append append_assoc)
  qed
  then have "be_val (rev p) = (be_val (rev (drop 30 p)) * 256 ^ 8 + be_val (rev ?m)) * 256 ^ 22 +
      be_val (rev (take 22 p))"
    using assms by (simp add: be_val_append algebra_simps)
  moreover have "be_val (rev (take 22 p)) < 256 ^ 22" using be_val_less [of "rev (take 22 p)"] assms by simp
  ultimately have "be_val (rev p) div 256 ^ 22 = be_val (rev (drop 30 p)) * 256 ^ 8 + be_val (rev ?m)"
    by simp
  moreover have "be_val (rev ?m) < 256 ^ 8" using be_val_less [of "rev ?m"] assms by simp
  ultimately have "be_val (rev p) div 256 ^ 22 mod 256 ^ 8 = be_val (rev ?m)" by simp
  moreover have "(256 :: nat) ^ 22 = 2 ^ 176" "(256 :: nat) ^ 8 = 2 ^ 64" by simp_all
  ultimately show ?thesis
    using assms by (simp add: get_hash_difficulty_val unsigned_of_nat take_bit_eq_mod)
qed

section \<open>From the compact form to the target\<close>

lemma be_bytes_be_val: "be_bytes (length bs) (be_val bs) = bs"
proof (induction bs rule: rev_induct)
  case (snoc b bs)
  have "(of_nat (be_val bs * 256 + unat b) :: u8) = b"
    by (simp add: word_unat_eq_iff unsigned_of_nat take_bit_eq_mod del: of_nat_add of_nat_mult)
  then show ?case using snoc by (simp add: be_bytes_Suc del: of_nat_add of_nat_mult)
qed simp

lemma be_val_zeros [simp]: "be_val (replicate n 0 @ bs) = be_val bs"
proof -
  have "be_val (replicate n 0) = 0" by (induction n) (simp_all add: replicate_append_same [symmetric])
  then show ?thesis by (simp add: be_val_append)
qed

lemma be_val_pad: "be_val (bs @ replicate n 0) = be_val bs * 256 ^ n"
  using be_val_zeros [of n "[]"] by (simp add: be_val_append)

lemma unat_byte_at: "unat (ucast (drop_bit k (w :: u32) AND 0xff) :: u8) = unat w div 2 ^ k mod 256"
proof -
  have "drop_bit k w AND 0xff = take_bit 8 (drop_bit k w)"
    by (simp add: take_bit_eq_mask mask_eq_exp_minus_1)
  moreover have "(ucast (take_bit 8 (drop_bit k w)) :: u8) = ucast (drop_bit k w)"
    by (rule bit_word_eqI) (simp add: bit_take_bit_iff bit_ucast_iff)
  ultimately show ?thesis
    by (simp add: unsigned_ucast_eq take_bit_eq_mod unat_drop_bit_eq) (simp add: drop_bit_eq_div)
qed

lemma compact_bytes:
  "unat (w :: u32) mod 2 ^ 24 = be_val [ucast (drop_bit 16 w AND 0xff), ucast (drop_bit 8 w AND 0xff), ucast (w AND 0xff)]"
proof -
  have three: "(a div 65536 mod 256) * 65536 + (a div 256 mod 256) * 256 + a mod 256 = a mod 16777216" for a :: nat
  proof -
    have "a mod 16777216 = 65536 * (a div 65536 mod 256) + a mod 65536"
      using mod_mult2_eq [of a 65536 256] by simp
    moreover have "a mod 65536 = 256 * (a div 256 mod 256) + a mod 256"
      using mod_mult2_eq [of a 256 256] by simp
    ultimately show ?thesis by simp
  qed
  show ?thesis
    using unat_byte_at [of 16 w] unat_byte_at [of 8 w] unat_byte_at [of 0 w] three [of "unat w"]
    by (simp add: be_val_def)
qed

lemma update_three:
  "(replicate k (0 :: u8) @ [x, y, z] @ r)[k + 2 := a, k + 1 := b, k := c] = replicate k 0 @ [c, b, a] @ r"
  by (simp add: list_update_append)

lemma bits2target_value:
  assumes e: "e = unat (drop_bit 24 nbits)" "3 \<le> e" "e \<le> 32" and out: "64 \<le> length out"
  shows "bits2target nbits out =
         Some (hexlify (be_bytes 32 (unat nbits mod 2 ^ 24 * 256 ^ (e - 3))) @ drop 64 out)"
proof -
  define a b c :: u8 where "a = ucast (drop_bit 16 nbits AND 0xff)"
    and "b = ucast (drop_bit 8 nbits AND 0xff)" and "c = ucast (nbits AND 0xff)"
  define bin where "bin = replicate (e - 3) 0 @ [c, b, a] @ replicate (32 - e) 0"
  have nz: "nbits \<noteq> 0" using e by auto
  have e_minus: "e - 3 + 2 = e - 1" "e - 3 + 1 = e - 2" using e(2) by simp_all
  have idx: "nat (int e - 1) = e - 1" "nat (int e - 2) = e - 2" "nat (int e - 3) = e - 3" by simp_all
  have bin: "((replicate 32 0)[e - 1 := a])[e - 2 := b, e - 3 := c] = bin"
  proof -
    have "replicate 32 0 = replicate (e - 3) 0 @ replicate 3 0 @ replicate (32 - e) (0 :: u8)"
      unfolding replicate_add [symmetric] using e(2,3) by simp
    also have "replicate 3 0 = [0, 0, 0 :: u8]" by (simp add: numeral_eq_Suc)
    finally show ?thesis
      using update_three [of "e - 3" 0 0 0 "replicate (32 - e) 0" a b c] e(2) e_minus by (simp add: bin_def)
  qed
  have len: "length bin = 32" using e(2,3) by (simp add: bin_def)
  have "rev bin = replicate (32 - e) 0 @ [a, b, c] @ replicate (e - 3) 0" by (simp add: bin_def)
  then have "be_val (rev bin) = be_val [a, b, c] * 256 ^ (e - 3)" by (simp only: be_val_zeros be_val_pad)
  then have "rev bin = be_bytes 32 (unat nbits mod 2 ^ 24 * 256 ^ (e - 3))"
    using be_bytes_be_val [of "rev bin"] len compact_bytes [of nbits] by (simp add: a_def b_def c_def)
  moreover have "bits2target nbits out = string_be (hexlify bin) out"
    unfolding bits2target_def Let_def e(1) [symmetric] a_def [symmetric] b_def [symmetric] c_def [symmetric]
    using nz e(2,3) bin by (simp add: write_at_def idx)
  ultimately show ?thesis using out len by (simp add: string_be_hexlify)
qed

text \<open>An exponent below 3 or above 32 writes outside the 32 bytes.\<close>

lemma bits2target_outside:
  assumes "nbits \<noteq> 0" and e: "e = unat (drop_bit 24 nbits)" and "e < 3 \<or> 32 < e"
  shows "bits2target nbits out = None"
  unfolding bits2target_def Let_def e [symmetric]
  using assms(1,3) by (auto simp: write_at_def split: bind_splits)

section \<open>From the target to the compact form\<close>

text \<open>The number of significant bytes, and \<open>arith_uint256::GetCompact\<close> on numbers.\<close>

fun byte_size :: "nat \<Rightarrow> nat" where
  "byte_size v = (if v = 0 then 0 else Suc (byte_size (v div 256)))"

declare byte_size.simps [simp del]

definition get_compact :: "nat \<Rightarrow> nat" where
  "get_compact v =
     (let size = byte_size v;
          m = (if size \<le> 3 then v * 256 ^ (3 - size) else v div 256 ^ (size - 3))
      in if 2 ^ 23 \<le> m then m div 256 + (size + 1) * 2 ^ 24 else m + size * 2 ^ 24)"

lemma byte_size_0 [simp]: "byte_size 0 = 0"
  by (simp add: byte_size.simps)

lemma byte_size_bounds: "v < 256 ^ byte_size v \<and> (0 < v \<longrightarrow> 0 < byte_size v \<and> 256 ^ (byte_size v - 1) \<le> v)"
proof (induction v rule: byte_size.induct)
  case (1 v)
  show ?case
  proof (cases "v = 0")
    case False
    have size: "byte_size v = Suc (byte_size (v div 256))" using False by (simp add: byte_size.simps [of v])
    have IH: "v div 256 < 256 ^ byte_size (v div 256)"
      "0 < v div 256 \<Longrightarrow> 0 < byte_size (v div 256) \<and> 256 ^ (byte_size (v div 256) - 1) \<le> v div 256"
      using 1 [OF False] by blast+
    have "v < 256 * 256 ^ byte_size (v div 256)" using IH(1) by (simp add: div_less_iff_less_mult)
    moreover have "256 ^ byte_size (v div 256) \<le> v"
    proof (cases "v div 256 = 0")
      case False
      then obtain n where n: "byte_size (v div 256) = Suc n" using IH(2) by (cases "byte_size (v div 256)") auto
      with IH(2) False have "256 ^ n * 256 \<le> v" by (simp add: less_eq_div_iff_mult_less_eq)
      then show ?thesis by (simp add: n mult.commute)
    next
      case True
      then show ?thesis using False by simp
    qed
    ultimately show ?thesis using size by simp
  qed simp
qed

lemma byte_size_unique: "256 ^ (n - 1) \<le> v \<Longrightarrow> v < 256 ^ n \<Longrightarrow> 0 < v \<Longrightarrow> 0 < n \<Longrightarrow> byte_size v = n"
proof -
  assume a: "256 ^ (n - 1) \<le> v" "v < 256 ^ n" "0 < v" "0 < n"
  have b: "v < 256 ^ byte_size v" "0 < byte_size v" "256 ^ (byte_size v - 1) \<le> v"
    using byte_size_bounds [of v] a(3) by auto
  have "(256 :: nat) ^ (n - 1) < 256 ^ byte_size v" "(256 :: nat) ^ (byte_size v - 1) < 256 ^ n"
    using a b by linarith+
  then have "n - 1 < byte_size v" "byte_size v - 1 < n" by simp_all
  then show ?thesis using a(4) b(2) by linarith
qed

lemma byte_size_bits:
  assumes "2 ^ (s - 1) \<le> v" and "v < 2 ^ s" and "0 < s"
  shows "(s + 7) div 8 = byte_size v"
proof -
  let ?n = "(s + 7) div 8"
  have pow: "(256 :: nat) ^ k = 2 ^ (8 * k)" for k by (simp add: power_mult)
  have "0 < v" using assms(1) by (metis gr0I not_less zero_less_numeral zero_less_power)
  have "8 * (?n - 1) \<le> s - 1" "s \<le> 8 * ?n" "0 < ?n" using assms(3) by linarith+
  then have "(256 :: nat) ^ (?n - 1) \<le> 2 ^ (s - 1)" "(2 :: nat) ^ s \<le> 256 ^ ?n"
    unfolding pow by (intro power_increasing; simp)+
  then show ?thesis
    using byte_size_unique [of ?n v] assms \<open>0 < v\<close> \<open>0 < ?n\<close> by simp
qed

lemma bit_top: "unat (w :: u32) < 2 ^ Suc b \<Longrightarrow> b < 32 \<Longrightarrow> (w AND push_bit b 1 \<noteq> 0) \<longleftrightarrow> 2 ^ b \<le> unat w"
proof -
  assume w: "unat w < 2 ^ Suc b" and b: "b < 32"
  have "(w AND push_bit b 1 \<noteq> 0) \<longleftrightarrow> bit w b"
    by (simp add: push_bit_eq_mult and_exp_eq_0_iff_not_bit)
  also have "bit w b \<longleftrightarrow> bit (unat w) b" by (simp add: bit_unsigned_iff)
  also have "\<dots> \<longleftrightarrow> odd (unat w div 2 ^ b)" by (simp add: bit_iff_odd)
  also have "\<dots> \<longleftrightarrow> 2 ^ b \<le> unat w"
  proof (cases "2 ^ b \<le> unat w")
    case True
    then have "unat w div 2 ^ b = 1" using w by (intro div_nat_eqI) simp_all
    then show ?thesis using True by simp
  qed simp
  finally show ?thesis .
qed

lemma top_bit_spec:
  "unat w < 2 ^ Suc b \<Longrightarrow> b < 32 \<Longrightarrow>
   (case top_bit w b of Some c \<Rightarrow> 2 ^ c \<le> unat w \<and> unat w < 2 ^ Suc c | None \<Rightarrow> unat w < 2)"
proof (induction b)
  case (Suc b)
  then show ?case using bit_top [of w "Suc b"] by (cases "2 ^ Suc b \<le> unat w") auto
qed simp

definition words_le :: "nat \<Rightarrow> u32 list" where
  "words_le v = map (\<lambda>i. of_nat (v div 2 ^ (32 * i))) [0..<8]"

lemma significant_bits_spec:
  "k \<le> 8 \<Longrightarrow> V = v mod 2 ^ (32 * k) \<Longrightarrow> s = significant_bits (words_le v) k \<Longrightarrow>
   (V = 0 \<and> s = 0) \<or> (0 < s \<and> 2 ^ (s - 1) \<le> V \<and> V < 2 ^ s)"
proof (induction k arbitrary: V s)
  case (Suc k)
  let ?w = "words_le v ! k" and ?L = "v mod 2 ^ (32 * k)"
  have W: "unat ?w = v div 2 ^ (32 * k) mod 2 ^ 32"
    using Suc.prems(1) by (simp add: words_le_def unsigned_of_nat take_bit_eq_mod del: upt_Suc)
  have V: "V = unat ?w * 2 ^ (32 * k) + ?L"
    unfolding Suc.prems(2) W using mod_mult2_eq [of v "2 ^ (32 * k)" "2 ^ 32"]
    by (simp add: power_add mult.commute)
  have L: "?L < 2 ^ (32 * k)" by simp
  show ?case
  proof (cases "?w = 0")
    case True
    then have "V = ?L" "s = significant_bits (words_le v) k" using V Suc.prems(3) by simp_all
    then show ?thesis using Suc.IH [of ?L s] Suc.prems(1) by simp
  next
    case False
    have range: "2 ^ (32 * k + c) \<le> V \<and> V < 2 ^ (32 * k + Suc c)" if "2 ^ c \<le> unat ?w" "unat ?w < 2 ^ Suc c" for c
    proof
      have "2 ^ c * 2 ^ (32 * k) \<le> unat ?w * 2 ^ (32 * k)" using that(1) by (rule mult_right_mono) simp
      moreover have "2 ^ (32 * k + c) = (2 ^ c * 2 ^ (32 * k) :: nat)" by (simp add: power_add)
      ultimately show "2 ^ (32 * k + c) \<le> V" unfolding V by linarith
      have "V < (unat ?w + 1) * 2 ^ (32 * k)" unfolding V using L by simp
      also have "\<dots> \<le> 2 ^ Suc c * 2 ^ (32 * k)" using that(2) by (intro mult_right_mono) simp_all
      finally show "V < 2 ^ (32 * k + Suc c)" by (simp add: power_add mult.commute)
    qed
    have "unat ?w < 2 ^ Suc 31" using unsigned_less [of ?w] by simp
    then have top: "case top_bit ?w 31 of Some c \<Rightarrow> 2 ^ c \<le> unat ?w \<and> unat ?w < 2 ^ Suc c | None \<Rightarrow> unat ?w < 2"
      by (rule top_bit_spec) simp
    show ?thesis
    proof (cases "top_bit ?w 31")
      case None
      then have "unat ?w = 1" using top False by (simp add: unat_eq_0 [symmetric] less_2_cases_iff del: unat_eq_0)
      then show ?thesis using range [of 0] None False Suc.prems(3) by simp
    next
      case (Some c)
      then show ?thesis using range [of c] top False Suc.prems(3) by simp
    qed
  qed
qed simp

lemma le_bytes_append: "le_bytes (a + b) v = le_bytes a v @ le_bytes b (v div 256 ^ a)"
proof (induction a arbitrary: v)
  case (Suc a)
  show ?case using Suc [of "v div 256"] by (simp add: le_bytes_Suc div_mult2_eq)
qed (simp add: le_bytes_def)

lemma words_of_le_bytes: "words_of (le_bytes 32 v) = words_le v"
proof -
  have "of_nat (be_val (rev (take 4 (drop (4 * i) (le_bytes 32 v))))) = (of_nat (v div 2 ^ (32 * i)) :: u32)"
    if "i < 8" for i
  proof -
    have "(32 :: nat) = 4 * i + (4 + (28 - 4 * i))" using that by simp
    then have "le_bytes 32 v = le_bytes (4 * i) v @ le_bytes 4 (v div 256 ^ (4 * i)) @
        le_bytes (28 - 4 * i) (v div 256 ^ (4 * i) div 256 ^ 4)"
      using le_bytes_append [of "4 * i" "4 + (28 - 4 * i)" v] le_bytes_append [of 4 "28 - 4 * i" "v div 256 ^ (4 * i)"]
      by metis
    then have "take 4 (drop (4 * i) (le_bytes 32 v)) = le_bytes 4 (v div 256 ^ (4 * i))" by simp
    then have "be_val (rev (take 4 (drop (4 * i) (le_bytes 32 v)))) = v div 256 ^ (4 * i) mod 256 ^ 4"
      using be_val_be_bytes [of 4 "v div 256 ^ (4 * i)"] by (simp add: be_bytes_def)
    moreover have "(256 :: nat) ^ (4 * i) = 2 ^ (32 * i)" using power_mult [of "2 :: nat" 8 "4 * i"] by simp
    ultimately show ?thesis by (simp add: word_unat_eq_iff unsigned_of_nat take_bit_eq_mod)
  qed
  then show ?thesis unfolding words_of_def words_le_def by (intro map_cong) auto
qed

lemma nonzero_hexlify: "takeWhile (\<lambda>c. c \<noteq> CHR 0x00) (hexlify bs) = hexlify bs"
proof -
  have "CHR 0x00 \<notin> set (hexlify bs)"
  proof
    assume "CHR 0x00 \<in> set (hexlify bs)"
    then have "CHR 0x00 \<in> set ''0123456789abcdef''"
      using lower_hex_hexlify [of bs] unfolding lower_hex_def list_all_iff by blast
    then show False by simp
  qed
  then show ?thesis unfolding takeWhile_eq_all_conv by metis
qed

lemma drop_bit_of_nat64: "x < 2 ^ 64 \<Longrightarrow> drop_bit n (of_nat x :: u64) = of_nat (x div 2 ^ n)"
proof -
  assume x: "x < 2 ^ 64"
  then have "x div 2 ^ n < 2 ^ 64" using div_le_dividend [of x "2 ^ n"] by linarith
  then show ?thesis
    using x by (simp add: word_unat_eq_iff unat_drop_bit_eq unsigned_of_nat take_bit_nat_eq_self)
      (simp add: drop_bit_eq_div)
qed

lemma low64:
  "drop_bit n (ucast (a :: u32) OR push_bit 32 (ucast (b :: u32)) :: u64) =
   of_nat ((unat a + unat b * 2 ^ 32) div 2 ^ n)"
proof -
  have a: "unat a < 2 ^ 32" using unsigned_less [of a] by simp
  have b: "unat b < 2 ^ 32" using unsigned_less [of b] by simp
  have "(ucast a OR push_bit 32 (ucast b) :: u64) = of_nat (push_bit 32 (unat b) OR unat a)"
    by (simp add: of_nat_or_eq of_nat_push_bit or.commute)
  then have w: "(ucast a OR push_bit 32 (ucast b) :: u64) = of_nat (unat a + unat b * 2 ^ 32)"
    using or_shift_nat [OF a, of "unat b"] by (simp add: add.commute)
  have "unat a + unat b * 2 ^ 32 < 2 ^ 64" using a b by simp
  then show ?thesis unfolding w by (rule drop_bit_of_nat64)
qed

lemma unat_words_le: "i < 8 \<Longrightarrow> unat (words_le v ! i) = v div 2 ^ (32 * i) mod 2 ^ 32"
  by (simp add: words_le_def unsigned_of_nat take_bit_eq_mod)

lemma target2bits_unfold:
  assumes v: "v < 2 ^ 256"
  shows "target2bits beyond (hexlify (be_bytes 32 v)) =
    (let nSize = byte_size v;
         pn = words_le v;
         nCompact = ((if nSize \<le> 3 then
           ucast (push_bit (8 * (3 - nSize)) (ucast (pn ! 0) OR push_bit 32 (ucast (pn ! 1)) :: u64))
         else
           (let pos = 8 * (nSize - 3); shr_bytes = pos div 8 mod 4; pos = pos div 8 div 4;
                hi = (if pos + 1 < 8 then pn ! (pos + 1) else beyond)
            in ucast (drop_bit (shr_bytes * 8) (ucast (pn ! pos) OR push_bit 32 (ucast hi) :: u64)))) :: u32);
         (m, k) = (if nCompact AND 0x00800000 \<noteq> 0 then (drop_bit 8 nCompact, nSize + 1) else (nCompact, nSize))
     in Some (m OR push_bit 24 (of_nat k)))"
proof -
  let ?s = "significant_bits (words_le v) 8"
  have size: "(?s + 7) div 8 = byte_size v"
    using significant_bits_spec [of 8 "v mod 2 ^ (32 * 8)" v ?s] byte_size_bits [of ?s v] v by auto
  have le: "rev (be_bytes 32 v) = le_bytes 32 v" by (simp add: be_bytes_def)
  have "string_be (hexlify (be_bytes 32 v)) (replicate 64 (CHR 0x00)) = Some (hexlify (le_bytes 32 v))"
    using string_be_hexlify [of "be_bytes 32 v" "replicate 64 (CHR 0x00)"] by (simp add: le)
  moreover have "buf_write 0 (le_bytes 32 v) (replicate 32 0) = Some (le_bytes 32 v)"
    by (simp add: buf_write_def)
  ultimately show ?thesis
    unfolding target2bits_def
    by (simp only: bind.bind_lunit nonzero_hexlify binlify_hexlify words_of_le_bytes Let_def size)
qed

lemma ucast_of_nat64: "(ucast (of_nat x :: u64) :: u32) = of_nat x"
  by (simp add: word_unat_eq_iff unsigned_ucast_eq unsigned_of_nat take_bit_take_bit)

lemma or_exponent: "m < 2 ^ 24 \<Longrightarrow> (of_nat m :: u32) OR push_bit 24 (of_nat k) = of_nat (m + k * 2 ^ 24)"
proof -
  assume m: "m < 2 ^ 24"
  have "(of_nat m :: u32) OR push_bit 24 (of_nat k) = of_nat (push_bit 24 k OR m)"
    by (simp only: of_nat_or_eq of_nat_push_bit or.commute)
  then show ?thesis using or_shift_nat [OF m, of k] by (simp only: add.commute)
qed

lemma drop_bit_of_nat32: "x < 2 ^ 32 \<Longrightarrow> drop_bit n (of_nat x :: u32) = of_nat (x div 2 ^ n)"
proof -
  assume x: "x < 2 ^ 32"
  then have "x div 2 ^ n < 2 ^ 32" using div_le_dividend [of x "2 ^ n"] by linarith
  then show ?thesis
    using x by (simp add: word_unat_eq_iff unat_drop_bit_eq unsigned_of_nat take_bit_nat_eq_self)
      (simp add: drop_bit_eq_div)
qed

lemma sign_bit_of_nat: "m < 2 ^ 24 \<Longrightarrow> (of_nat m :: u32) AND 0x00800000 \<noteq> 0 \<longleftrightarrow> 2 ^ 23 \<le> m"
proof -
  assume m: "m < 2 ^ 24"
  then have "unat (of_nat m :: u32) = m" by (simp add: unsigned_of_nat take_bit_nat_eq_self)
  then show ?thesis using bit_top [of "of_nat m" 23] m by (simp add: push_bit_eq_mult)
qed

lemma compact_finish:
  assumes "m < 2 ^ 24"
  shows "(let (w, j) = (if (of_nat m :: u32) AND 0x00800000 \<noteq> 0 then (drop_bit 8 (of_nat m), k + 1) else (of_nat m, k))
          in Some ((w :: u32) OR push_bit 24 (of_nat j))) =
         Some (of_nat (if 2 ^ 23 \<le> m then m div 256 + (k + 1) * 2 ^ 24 else m + k * 2 ^ 24))"
proof (cases "2 ^ 23 \<le> m")
  case True
  have "m div 2 ^ 8 < 2 ^ 24" using assms div_le_dividend [of m "2 ^ 8"] by linarith
  then show ?thesis
    using True sign_bit_of_nat [OF assms] drop_bit_of_nat32 [of m 8] or_exponent [of "m div 2 ^ 8" "k + 1"] assms
    by (simp only: Let_def prod.case if_True simp_thms) simp_all
next
  case False
  then show ?thesis
    using sign_bit_of_nat [OF assms] or_exponent [OF assms, of k] by (simp only: Let_def prod.case if_False simp_thms)
qed

text \<open>For a target of at most 31 significant bytes the result is that of \<open>GetCompact\<close>.\<close>

lemma mantissa_small:
  assumes "v < 2 ^ 24"
  shows "(ucast (push_bit n (ucast (words_le v ! 0) OR push_bit 32 (ucast (words_le v ! 1)) :: u64)) :: u32) =
         of_nat (v * 2 ^ n)"
proof -
  have "unat (words_le v ! 0) = v" "unat (words_le v ! 1) = 0"
    using assms unat_words_le [of 0 v] unat_words_le [of 1 v] by simp_all
  then have "(ucast (words_le v ! 0) OR push_bit 32 (ucast (words_le v ! 1)) :: u64) = of_nat v"
    using low64 [of 0 "words_le v ! 0" "words_le v ! 1"] by simp
  moreover have "push_bit n (of_nat v :: u64) = of_nat (v * 2 ^ n)" by (simp add: push_bit_eq_mult)
  ultimately show ?thesis using ucast_of_nat64 [of "v * 2 ^ n"] by (simp only:)
qed

lemma mantissa_large:
  assumes q: "q < 32" and pos: "q div 4 + 1 < 8 \<or> q mod 4 = 0"
    and v: "v div 256 ^ q < 2 ^ 24" and v32: "v < 2 ^ 256"
  shows "(ucast (drop_bit (q mod 4 * 8) (ucast (words_le v ! (q div 4)) OR push_bit 32
          (ucast (if q div 4 + 1 < 8 then words_le v ! (q div 4 + 1) else beyond)) :: u64)) :: u32) =
         of_nat (v div 256 ^ q)"
proof -
  let ?p = "q div 4" and ?r = "q mod 4"
  let ?hi = "if ?p + 1 < 8 then words_le v ! (?p + 1) else beyond"
  let ?x = "v div 2 ^ (32 * ?p)"
  have split: "v div 256 ^ q = ?x div 2 ^ (?r * 8)"
  proof -
    have "(256 :: nat) ^ q = 2 ^ (8 * q)" using power_mult [of "2 :: nat" 8 q] by simp
    moreover have "8 * q = 32 * ?p + ?r * 8" by presburger
    ultimately have "(256 :: nat) ^ q = 2 ^ (32 * ?p) * 2 ^ (?r * 8)" by (simp only: power_add)
    then show ?thesis by (simp only: div_mult2_eq)
  qed
  have lo: "unat (words_le v ! ?p) = ?x mod 2 ^ 32" using q by (intro unat_words_le) simp
  have w: "(ucast (drop_bit (?r * 8) (ucast (words_le v ! ?p) OR push_bit 32 (ucast ?hi) :: u64)) :: u32) =
      of_nat ((?x mod 2 ^ 32 + unat ?hi * 2 ^ 32) div 2 ^ (?r * 8))"
    by (simp only: low64 ucast_of_nat64 lo)
  show ?thesis
  proof (cases "?r = 0")
    case True
    have "(of_nat (?x mod 2 ^ 32 + unat ?hi * 2 ^ 32) :: u32) = of_nat ?x"
      by (simp add: word_unat_eq_iff unsigned_of_nat take_bit_eq_mod del: of_nat_add of_nat_mult)
    then show ?thesis using w True split by simp
  next
    case False
    then have p: "?p + 1 < 8" using pos by simp
    have "unat ?hi = v div 2 ^ (32 * (?p + 1)) mod 2 ^ 32" using p unat_words_le [of "?p + 1" v] by simp
    also have "v div 2 ^ (32 * (?p + 1)) = ?x div 2 ^ 32"
    proof -
      have "(2 :: nat) ^ (32 * (?p + 1)) = 2 ^ (32 * ?p) * 2 ^ 32" by (simp only: power_add [symmetric]) simp
      then show ?thesis by (simp only: div_mult2_eq)
    qed
    finally have hi: "unat ?hi = ?x div 2 ^ 32 mod 2 ^ 32" .
    have "?x < 2 ^ 24 * 2 ^ (?r * 8)" using v unfolding split by (simp add: div_less_iff_less_mult)
    also have "\<dots> \<le> 2 ^ 24 * 2 ^ 24" by (intro mult_left_mono power_increasing) simp_all
    finally have "?x div 2 ^ 32 < 2 ^ 32" by (simp add: div_less_iff_less_mult)
    then have "?x mod 2 ^ 32 + unat ?hi * 2 ^ 32 = ?x" unfolding hi by simp
    then show ?thesis using w split by simp
  qed
qed

lemma target2bits_compact:
  assumes v: "v < 2 ^ 248"
  shows "target2bits beyond (hexlify (be_bytes 32 v)) = Some (of_nat (get_compact v))"
proof -
  let ?n = "byte_size v"
  have n: "?n \<le> 31"
  proof (rule ccontr)
    assume "\<not> ?n \<le> 31"
    then have "0 < v" "31 \<le> ?n - 1" by (auto intro: gr0I)
    then have "(256 :: nat) ^ 31 \<le> 256 ^ (?n - 1)" by (intro power_increasing) simp_all
    moreover have "256 ^ (?n - 1) \<le> v" using byte_size_bounds [of v] \<open>0 < v\<close> by blast
    moreover have "(256 :: nat) ^ 31 = 2 ^ 248" by simp
    ultimately show False using v by linarith
  qed
  have vn: "v < 256 ^ ?n" using byte_size_bounds [of v] by blast
  have v256: "v < 2 ^ 256" using v by simp
  define m where "m = (if ?n \<le> 3 then v * 256 ^ (3 - ?n) else v div 256 ^ (?n - 3))"
  have m: "m < 2 ^ 24"
  proof (cases "?n \<le> 3")
    case True
    have "v * 256 ^ (3 - ?n) < 256 ^ ?n * 256 ^ (3 - ?n)" using vn by simp
    also have "\<dots> = (256 :: nat) ^ 3" using True by (simp only: power_add [symmetric]) simp
    finally show ?thesis using True by (simp add: m_def)
  next
    case False
    then have "(256 :: nat) ^ ?n = 2 ^ 24 * 256 ^ (?n - 3)"
      using power_add [of "256 :: nat" 3 "?n - 3"] by simp
    then show ?thesis using vn False by (simp add: m_def div_less_iff_less_mult)
  qed
  have small: "?n \<le> 3 \<Longrightarrow> (ucast (push_bit (8 * (3 - ?n)) (ucast (words_le v ! 0) OR push_bit 32 (ucast (words_le v ! 1)) :: u64)) :: u32) = of_nat m"
  proof -
    assume le: "?n \<le> 3"
    have "(256 :: nat) ^ ?n \<le> 256 ^ 3" using le by (intro power_increasing) simp_all
    then have "v < 2 ^ 24" using vn by simp
    moreover have "(256 :: nat) ^ (3 - ?n) = 2 ^ (8 * (3 - ?n))" using power_mult [of "2 :: nat" 8] by simp
    ultimately show ?thesis using mantissa_small le unfolding m_def by simp
  qed
  have large: "\<not> ?n \<le> 3 \<Longrightarrow> (ucast (drop_bit ((?n - 3) mod 4 * 8) (ucast (words_le v ! ((?n - 3) div 4)) OR push_bit 32
          (ucast (if (?n - 3) div 4 + 1 < 8 then words_le v ! ((?n - 3) div 4 + 1) else beyond)) :: u64)) :: u32) = of_nat m"
  proof -
    assume gt: "\<not> ?n \<le> 3"
    have "(?n - 3) div 4 + 1 < 8 \<or> (?n - 3) mod 4 = 0" using n by presburger
    then show ?thesis using mantissa_large [of "?n - 3" v beyond] n gt m v256 unfolding m_def by simp
  qed
  have q: "8 * (?n - 3) div 8 = ?n - 3" by simp
  show ?thesis
    using compact_finish [OF m, of ?n] small large
    unfolding target2bits_unfold [OF v256] get_compact_def Let_def m_def [symmetric] q
    by (cases "?n \<le> 3") (simp_all only: if_True if_False simp_thms)
qed

text \<open>A normalised compact value survives the two conversions.\<close>

lemma get_compact_normal:
  assumes m: "2 ^ 15 \<le> m" "m < 2 ^ 23"
  shows "get_compact (m * 256 ^ k) = m + (k + 3) * 2 ^ 24"
proof -
  let ?v = "m * 256 ^ k"
  have pos: "0 < ?v" using m by simp
  have pow: "(256 :: nat) ^ (k + 1) = 2 ^ 8 * 256 ^ k" "(256 :: nat) ^ (k + 2) = 2 ^ 16 * 256 ^ k"
    "(256 :: nat) ^ (k + 3) = 2 ^ 24 * 256 ^ k"
    by (simp_all add: power_add)
  show ?thesis
  proof (cases "2 ^ 16 \<le> m")
    case True
    have "256 ^ (k + 2) \<le> ?v" "?v < 256 ^ (k + 3)"
      unfolding pow using True m(2) by simp_all
    then have "byte_size ?v = k + 3" using pos by (intro byte_size_unique) simp_all
    then show ?thesis using m(2) by (simp add: get_compact_def Let_def)
  next
    case False
    have "256 ^ (k + 1) \<le> ?v" "?v < 256 ^ (k + 2)"
      unfolding pow using False m(1) by simp_all
    then have size: "byte_size ?v = k + 2" using pos by (intro byte_size_unique) simp_all
    have "(if k + 2 \<le> 3 then ?v * 256 ^ (3 - (k + 2)) else ?v div 256 ^ (k + 2 - 3)) = m * 256"
    proof (cases k)
      case (Suc j)
      have "?v = m * 256 * 256 ^ j" unfolding Suc by simp
      then show ?thesis unfolding Suc by simp
    qed simp
    then show ?thesis using m(1) unfolding get_compact_def Let_def size by simp
  qed
qed

lemma target2bits_bits2target:
  assumes e: "e = unat (drop_bit 24 nbits)" "3 \<le> e" "e \<le> 31"
    and m: "2 ^ 15 \<le> unat nbits mod 2 ^ 24" "unat nbits mod 2 ^ 24 < 2 ^ 23"
    and out: "length out = 64"
  shows "bits2target nbits out \<bind> target2bits beyond = Some nbits"
proof -
  let ?m = "unat nbits mod 2 ^ 24" and ?k = "e - 3"
  have "?m * 256 ^ ?k < 2 ^ 23 * 256 ^ ?k" using m(2) by simp
  also have "\<dots> \<le> 2 ^ 23 * 256 ^ 28" using e(3) by (intro mult_left_mono power_increasing) simp_all
  finally have "?m * 256 ^ ?k < 2 ^ 248" by simp
  then have "bits2target nbits out \<bind> target2bits beyond = Some (of_nat (get_compact (?m * 256 ^ ?k)))"
    using bits2target_value [OF e(1,2), of out] target2bits_compact [of "?m * 256 ^ ?k" beyond] e(3) out by simp
  also have "get_compact (?m * 256 ^ ?k) = ?m + e * 2 ^ 24"
    using get_compact_normal [OF m, of ?k] e(2) by simp
  also have "\<dots> = unat nbits"
  proof -
    have "e = unat nbits div 2 ^ 24" unfolding e(1) unat_drop_bit_eq by (simp add: drop_bit_eq_div)
    then show ?thesis using mod_div_mult_eq [of "unat nbits" "2 ^ 24"] by (simp only: add.commute)
  qed
  finally show ?thesis by simp
qed

text \<open>
  A target that fills its 32 bytes: \<open>pn[8]\<close> is read, and the exponent of the result is spoilt
  by what it holds.
\<close>

lemma be_val_replicate: "255 * be_val (replicate n b) + unat b = unat b * 256 ^ n"
proof (induction n)
  case (Suc n)
  then show ?case by (simp add: replicate_append_same [symmetric] algebra_simps)
qed simp

lemma target2bits_beyond:
  "target2bits beyond (hexlify (replicate 32 0x0f)) = Some (0x200f0f0f OR push_bit 24 beyond)"
proof -
  define v :: nat where "v = 0x0f0f0f0f0f0f0f0f0f0f0f0f0f0f0f0f0f0f0f0f0f0f0f0f0f0f0f0f0f0f0f0f"
  have v256: "v < 2 ^ 256" by (simp add: v_def)
  have "be_val (replicate 32 0x0f) = v"
    using be_val_replicate [of 32 "0x0f"] by (simp add: v_def)
  then have hex: "replicate 32 0x0f = be_bytes 32 v"
    using be_bytes_be_val [of "replicate 32 0x0f"] by simp
  have size: "byte_size v = 32" by (rule byte_size_unique) (simp_all add: v_def)
  have w: "words_le v ! 7 = 0x0f0f0f0f" by (simp add: words_le_def v_def)
  let ?n = "ucast (drop_bit 8 (ucast (0x0f0f0f0f :: u32) OR push_bit 32 (ucast beyond) :: u64)) :: u32"
  have "(0x0f0f0f0f + unat beyond * 2 ^ 32) div 2 ^ 8 = 0x0f0f0f + unat beyond * 2 ^ 24"
    using div_mult_self2 [of 256 "0x0f0f0f0f" "unat beyond * 2 ^ 24"] by (simp add: mult.left_commute)
  then have n: "?n = 0x000f0f0f OR push_bit 24 beyond"
    using low64 [of 8 "0x0f0f0f0f" beyond] or_exponent [of "0x0f0f0f" "unat beyond"]
    by (simp add: ucast_of_nat64 del: of_nat_add of_nat_mult)
  have "\<not> bit (0x000f0f0f OR push_bit 24 beyond) 23"
    by (simp add: bit_or_iff bit_push_bit_iff)
  then have sign: "(0x000f0f0f OR push_bit 24 beyond) AND 0x00800000 = 0"
    using and_exp_eq_0_iff_not_bit [of "0x000f0f0f OR push_bit 24 beyond" 23] by simp
  have "(0x000f0f0f OR push_bit 24 beyond) OR push_bit 24 (of_nat 32) = 0x200f0f0f OR push_bit 24 beyond"
    using or.assoc [of "push_bit 24 beyond" "0x000f0f0f" "0x20000000"] by (simp add: or.commute [of _ "push_bit 24 beyond"])
  then show ?thesis
    unfolding hex target2bits_unfold [OF v256] size Let_def
    using n sign by (simp add: w)
qed

section \<open>The properties\<close>

text \<open>
  C11. A target survives the two conversions: for a positive mantissa without a leading zero byte
  and an exponent from 3 to 31, \<open>target2bits\<close> of the output of \<open>bits2target\<close> is the compact
  value itself, whatever lies behind the array \<open>pn\<close>.
\<close>

theorem compact_round_trip:
  assumes "e = unat (drop_bit 24 nbits)" and "3 \<le> e" and "e \<le> 31"
    and "2 ^ 15 \<le> unat nbits mod 2 ^ 24" and "unat nbits mod 2 ^ 24 < 2 ^ 23"
    and "length out = 64"
  shows "bits2target nbits out \<bind> target2bits beyond = Some nbits"
  using assms by (rule target2bits_bits2target)

theorem compact_round_trip_witness:
  "bits2target 0x1d00ffff (replicate 64 CHR ''x'') \<bind> target2bits 0 = Some 0x1d00ffff"
  by (rule compact_round_trip [of 29]) (simp_all add: unat_drop_bit_eq drop_bit_eq_div)

text \<open>
  \<open>bits2target\<close> writes the mantissa times 256 to the power of the exponent less 3, as 64
  hexadecimal digits; an exponent below 3 or above 32 makes it write outside its array, since
  nothing tests the exponent the peer or the daemon sent.
\<close>

lemma bits2target_meaning:
  assumes "e = unat (drop_bit 24 nbits)" and "nbits \<noteq> 0" and "64 \<le> length out"
  shows "bits2target nbits out =
    (if 3 \<le> e \<and> e \<le> 32
     then Some (hexlify (be_bytes 32 (unat nbits mod 2 ^ 24 * 256 ^ (e - 3))) @ drop 64 out) else None)"
  using assms bits2target_value [of e nbits out] bits2target_outside [of nbits e out] by auto

text \<open>
  On a target of at most 31 significant bytes \<open>target2bits\<close> computes \<open>GetCompact\<close> of
  \<open>arith_uint256\<close>, the function its comment says it comes from.
\<close>

lemma target2bits_is_get_compact:
  assumes "v < 2 ^ 248"
  shows "target2bits beyond (hexlify (be_bytes 32 v)) = Some (of_nat (get_compact v))"
  using assms by (rule target2bits_compact)

text \<open>
  On the target of 32 bytes \<open>0x0f\<close>, the easiest target of the Zcash test networks,
  \<open>target2bits\<close> reads the word behind \<open>pn\<close> and its low byte is mixed into the exponent: the
  result is right only when that byte is zero.
\<close>

lemma target2bits_reads_beyond:
  "target2bits beyond (hexlify (replicate 32 0x0f)) = Some (0x200f0f0f OR push_bit 24 beyond)"
  by (rule target2bits_beyond)

text \<open>
  \<open>get_hash_difficulty\<close> is the hash as a little-endian number divided by 2^176, modulo 2^64:
  the two most significant bytes do not count.
\<close>

lemma hash_difficulty_window:
  assumes "length p = 32"
  shows "unat (get_hash_difficulty p) = be_val (rev p) div 2 ^ 176 mod 2 ^ 64"
  using assms by (rule get_hash_difficulty_div)

end
