(* ===== verification/Merkle.thy ===== *)
theory Merkle
  imports Codecs
begin

text \<open>
  \<open>merkle.cpp\<close>: the branch a coinbase needs to reach the Merkle root (\<open>merkle_steps\<close>, computed
  once per block template) and the root of a given coinbase (\<open>merkle_with_first\<close>, computed for
  every share), against the recursive definition of the root. \<open>dsha\<close> is the double SHA-256;
  \<open>stack\<close> is what the 64 bytes of \<open>bin\<close> hold before \<open>binlify\<close>.
\<close>

section \<open>The code\<close>

text \<open>\<open>binlify\<close> into the 64 bytes of \<open>bin\<close>, then \<open>sha256_double_hash_hex\<close>.\<close>

definition hash_pair :: "(u8 list \<Rightarrow> u8 list) \<Rightarrow> u8 list \<Rightarrow> string \<Rightarrow> string option" where
  "hash_pair dsha stack s = map_option (\<lambda>bin. hexlify (dsha bin)) (buf_write 0 (binlify s) stack)"

text \<open>The inner loop: \<open>n\<close> pairs of the list from index \<open>2 * i\<close> on.\<close>

fun hash_level :: "(string \<Rightarrow> string option) \<Rightarrow> string list \<Rightarrow> nat \<Rightarrow> nat \<Rightarrow> string list option" where
  "hash_level h L i 0 = Some []"
| "hash_level h L i (Suc n) = do {
     out \<leftarrow> h (L ! (i * 2) @ L ! (i * 2 + 1));
     Ld \<leftarrow> hash_level h L (i + 1) n;
     Some (out # Ld)
   }"

lemma length_hash_level: "hash_level h L i n = Some Ld \<Longrightarrow> length Ld = n"
  by (induction n arbitrary: i Ld) (auto split: bind_splits)

definition pad_odd :: "'a list \<Rightarrow> 'a list" where
  "pad_odd L = (if odd (length L) then L @ [L ! (length L - 1)] else L)"

text \<open>\<open>PreL\<close>, the empty string, stands for the coinbase in every level.\<close>

function merkle_steps :: "(string \<Rightarrow> string option) \<Rightarrow> string list \<Rightarrow> string list option" where
  "merkle_steps h L =
     (if 1 < length L then do {
        Ld \<leftarrow> hash_level h (pad_odd L) 1 (length (pad_odd L) div 2 - 1);
        steps \<leftarrow> merkle_steps h ([] # Ld);
        Some (L ! 1 # steps)
      } else Some [])"
  by pat_completeness auto
termination
proof (relation "measure (\<lambda>(h, L). length L)")
  fix h L Ld
  assume "1 < length (L :: string list)"
    and "hash_level h (pad_odd L) 1 (length (pad_odd L) div 2 - 1) = Some Ld"
  then show "((h, [] # Ld), h, L) \<in> measure (\<lambda>(h, L). length L)"
    by (auto simp: length_hash_level pad_odd_def elim!: oddE)
qed simp

declare merkle_steps.simps [simp del]

definition merkle_with_first :: "(string \<Rightarrow> string option) \<Rightarrow> string list \<Rightarrow> string \<Rightarrow> string option" where
  "merkle_with_first h steps f = fold_opt (\<lambda>s f. h (f @ s)) steps f"

section \<open>The Merkle root\<close>

fun pair_up :: "(string \<Rightarrow> string) \<Rightarrow> string list \<Rightarrow> string list" where
  "pair_up h (a # b # xs) = h (a @ b) # pair_up h xs"
| "pair_up h xs = []"

lemma length_pair_up [simp]: "length (pair_up h xs) = length xs div 2"
  by (induction h xs rule: pair_up.induct) auto

function merkle_root :: "(string \<Rightarrow> string) \<Rightarrow> string list \<Rightarrow> string" where
  "merkle_root h xs = (if 1 < length xs then merkle_root h (pair_up h (pad_odd xs)) else hd xs)"
  by pat_completeness auto
termination
  by (relation "measure (\<lambda>(h, xs). length xs)") (auto simp: pad_odd_def elim!: oddE)

declare merkle_root.simps [simp del]

section \<open>The branch leads to the root\<close>

lemma hash_level_pair_up:
  assumes "\<And>s. length s = 128 \<Longrightarrow> h s = Some (H s)"
  shows "\<forall>x\<in>set (drop (2 * i) L). length x = 64 \<Longrightarrow> 2 * i + 2 * n \<le> length L \<Longrightarrow>
    hash_level h L i n = Some (pair_up H (take (2 * n) (drop (2 * i) L)))"
proof (induction n arbitrary: i)
  case (Suc n)
  have split: "drop (2 * i) L = L ! (i * 2) # L ! (i * 2 + 1) # drop (2 * (i + 1)) L"
    using Suc.prems(2) by (simp add: Cons_nth_drop_Suc mult.commute)
  then have "length (L ! (i * 2)) = 64" "length (L ! (i * 2 + 1)) = 64"
    and rest: "\<forall>x\<in>set (drop (2 * (i + 1)) L). length x = 64"
    using Suc.prems(1) by simp_all
  then have "h (L ! (i * 2) @ L ! (i * 2 + 1)) = Some (H (L ! (i * 2) @ L ! (i * 2 + 1)))"
    by (intro assms) simp
  moreover have "hash_level h L (i + 1) n = Some (pair_up H (take (2 * n) (drop (2 * (i + 1)) L)))"
    using Suc.IH [OF rest] Suc.prems(2) by simp
  ultimately show ?case using split by simp
qed simp

lemma pad_odd_two:
  obtains R m where "\<And>f. pad_odd (f # t # ts) = f # t # R" "length R = 2 * m" "m < length (t # ts)"
    "set R \<subseteq> set (t # ts)"
proof (cases "odd (length ts)")
  case True
  then have "ts \<noteq> []" by auto
  then have "pad_odd (f # t # ts) = f # t # (ts @ [last ts])" for f
    using True \<open>ts \<noteq> []\<close> by (simp add: pad_odd_def nth_append last_conv_nth nth_Cons')
  moreover have "length (ts @ [last ts]) = 2 * (Suc (length ts) div 2)" "Suc (length ts) div 2 < length (t # ts)"
    using True by (auto elim!: oddE)
  ultimately show ?thesis using that \<open>ts \<noteq> []\<close> by (metis Un_insert_right append_Nil2 insert_subset last_in_set
        list.set(1,2) set_append subset_insertI2 subset_refl sup_bot.right_neutral list.set_intros(2) subset_insertI)
next
  case False
  then show ?thesis using that [of ts "length ts div 2"]
    by (simp add: pad_odd_def subset_insertI le_imp_less_Suc)
qed

lemma length_pair_up_elem: "(\<And>s. length (H s) = 64) \<Longrightarrow> \<forall>x\<in>set (pair_up H xs). length x = 64"
  by (induction H xs rule: pair_up.induct) auto

lemma merkle_branch_root:
  assumes "\<And>s. length s = 128 \<Longrightarrow> h s = Some (H s)" and "\<And>s. length (H s) = 64"
    and "\<forall>x\<in>set txs. length x = 64" and "length f = 64"
  shows "\<exists>steps. merkle_steps h ([] # txs) = Some steps \<and>
           merkle_with_first h steps f = Some (merkle_root H (f # txs))"
  using assms(3,4)
proof (induction "length txs" arbitrary: txs f rule: less_induct)
  case less
  show ?case
  proof (cases txs)
    case Nil
    then show ?thesis by (simp add: merkle_steps.simps [of h "[[]]"] merkle_with_first_def merkle_root.simps [of H "[f]"])
  next
    case (Cons t ts)
    obtain R m where R: "\<And>f. pad_odd (f # t # ts) = f # t # R" "length R = 2 * m" "m < length (t # ts)"
      "set R \<subseteq> set (t # ts)"
      using pad_odd_two [of t ts] by blast
    have level: "hash_level h ([] # t # R) 1 m = Some (pair_up H R)"
      using hash_level_pair_up [of h H 1 "[] # t # R" m] assms(1) less.prems(1) R(2,4) Cons
      by (auto simp: numeral_2_eq_2)
    have "length (pair_up H R) < length txs" "\<forall>x\<in>set (pair_up H R). length x = 64"
      using R(2,3) Cons length_pair_up_elem [OF assms(2)] by simp_all
    then obtain steps where steps: "merkle_steps h ([] # pair_up H R) = Some steps"
      "merkle_with_first h steps (H (f @ t)) = Some (merkle_root H (H (f @ t) # pair_up H R))"
      using less.hyps [of "pair_up H R" "H (f @ t)"] assms(2) by blast
    have "merkle_steps h ([] # txs) = Some (t # steps)"
      using level steps(1) R(1) [of "[]"] R(2) unfolding Cons by (subst merkle_steps.simps) simp
    moreover have "h (f @ t) = Some (H (f @ t))"
      using assms(1) less.prems Cons by simp
    moreover have "merkle_root H (f # txs) = merkle_root H (H (f @ t) # pair_up H R)"
      using R(1) [of f] unfolding Cons by (subst merkle_root.simps) simp
    ultimately show ?thesis using steps(2) by (simp add: merkle_with_first_def)
  qed
qed

text \<open>
  C12. The branch computed once per template leads every coinbase to the Merkle root: hashing the
  coinbase with the steps of \<open>merkle_steps\<close> gives the root of the tree over the coinbase and all
  the transactions, with the last hash of an odd level doubled. Neither function leaves its
  arrays, and what \<open>bin\<close> held before does not matter.
\<close>

theorem merkle_steps_lead_to_root:
  assumes "\<And>bs. length (dsha bs) = 32" and "length stack = 64"
    and "\<forall>x\<in>set txs. length x = 64" and "length f = 64"
  shows "\<exists>steps. merkle_steps (hash_pair dsha stack) ([] # txs) = Some steps \<and>
           merkle_with_first (hash_pair dsha stack) steps f =
             Some (merkle_root (\<lambda>s. hexlify (dsha (binlify s))) (f # txs))"
proof (rule merkle_branch_root)
  show "hash_pair dsha stack s = Some (hexlify (dsha (binlify s)))" if "length s = 128" for s
    using that assms(2) by (simp add: hash_pair_def buf_write_def)
  show "length (hexlify (dsha (binlify s))) = 64" for s
    by (simp add: assms(1))
qed (use assms in auto)

theorem merkle_steps_lead_to_root_witness:
  "\<exists>steps. merkle_steps (hash_pair (\<lambda>bs. take 32 (drop 16 bs @ replicate 32 1)) (replicate 64 0))
       ([] # map (\<lambda>c. replicate 64 c) ''123'') = Some steps \<and>
     merkle_with_first (hash_pair (\<lambda>bs. take 32 (drop 16 bs @ replicate 32 1)) (replicate 64 0)) steps
       (replicate 64 CHR ''0'') =
     Some (merkle_root (\<lambda>s. hexlify (take 32 (drop 16 (binlify s) @ replicate 32 1)))
       (replicate 64 CHR ''0'' # map (\<lambda>c. replicate 64 c) ''123''))"
  by (rule merkle_steps_lead_to_root) (simp_all add: list_all_iff)

end
