(* ===== verification/Common_List.thy ===== *)
theory Common_List
  imports Stratum_Prelude "HOL-Library.Multiset"
begin

text \<open>
  \<open>list.cpp\<close>: \<open>CommonList\<close>, the doubly linked list behind every global list of the server, on an
  explicit heap. An address is a number, a pointer an address or NULL (\<open>None\<close>); an access to an
  item that is not allocated is \<open>None\<close>. \<open>new\<close> is the argument \<open>a\<close>, the address the allocator
  returns. The mutex of the list is not part of the model: an operation is one step.
\<close>

section \<open>The code\<close>

type_synonym pointer = "nat option"

record 'a item =
  data :: 'a
  prev :: pointer
  nxt :: pointer

record 'a common_list =
  heap :: "nat \<Rightarrow> 'a item option"
  count_of :: int
  first :: pointer
  last_item :: pointer

definition new_list :: "'a common_list" where
  "new_list = \<lparr>heap = (\<lambda>_. None), count_of = 0, first = None, last_item = None\<rparr>"

text \<open>\<open>p->field = v\<close>, and the same behind an \<open>if(p)\<close>.\<close>

definition update_item :: "nat \<Rightarrow> ('a item \<Rightarrow> 'a item) \<Rightarrow> 'a common_list \<Rightarrow> 'a common_list option" where
  "update_item a f L = map_option (\<lambda>it. L\<lparr>heap := (heap L)(a \<mapsto> f it)\<rparr>) (heap L a)"

definition if_item :: "pointer \<Rightarrow> ('a item \<Rightarrow> 'a item) \<Rightarrow> 'a common_list \<Rightarrow> 'a common_list option" where
  "if_item p f L = (case p of None \<Rightarrow> Some L | Some a \<Rightarrow> update_item a f L)"

definition AddTail :: "nat \<Rightarrow> 'a \<Rightarrow> 'a common_list \<Rightarrow> 'a common_list option" where
  "AddTail a d L =
     (let L = L\<lparr>heap := (heap L)(a \<mapsto> \<lparr>data = d, prev = last_item L, nxt = None\<rparr>),
                count_of := count_of L + 1\<rparr>;
          p = last_item L;
          L = L\<lparr>last_item := Some a\<rparr>;
          L = (if first L = None then L\<lparr>first := Some a\<rparr> else L)
      in if_item p (\<lambda>it. it\<lparr>nxt := Some a\<rparr>) L)"

definition Delete :: "nat \<Rightarrow> 'a common_list \<Rightarrow> 'a common_list option" where
  "Delete a L = do {
     it \<leftarrow> heap L a;
     L \<leftarrow> Some (if first L = Some a then L\<lparr>first := nxt it\<rparr> else L);
     L \<leftarrow> Some (if last_item L = Some a then L\<lparr>last_item := prev it\<rparr> else L);
     L \<leftarrow> if_item (prev it) (\<lambda>p. p\<lparr>nxt := nxt it\<rparr>) L;
     L \<leftarrow> if_item (nxt it) (\<lambda>n. n\<lparr>prev := prev it\<rparr>) L;
     Some (L\<lparr>count_of := count_of L - 1, heap := (heap L)(a := None)\<rparr>)
   }"

text \<open>\<open>Find\<close> may run for ever on a list that loops.\<close>

partial_function (option) find_from :: "(nat \<Rightarrow> 'a item option) \<Rightarrow> 'a \<Rightarrow> pointer \<Rightarrow> pointer option" where
  "find_from h d p =
     (case p of None \<Rightarrow> Some None
      | Some a \<Rightarrow> (case h a of None \<Rightarrow> None
          | Some it \<Rightarrow> if d = data it then Some (Some a) else find_from h d (nxt it)))"

definition Find :: "'a \<Rightarrow> 'a common_list \<Rightarrow> pointer option" where
  "Find d L = find_from (heap L) d (first L)"

definition Delete_data :: "'a \<Rightarrow> 'a common_list \<Rightarrow> 'a common_list option" where
  "Delete_data d L =
     (case Find d L of None \<Rightarrow> None | Some None \<Rightarrow> Some L | Some (Some a) \<Rightarrow> Delete a L)"

partial_function (option) free_from :: "(nat \<Rightarrow> 'a item option) \<Rightarrow> pointer \<Rightarrow> (nat \<Rightarrow> 'a item option) option" where
  "free_from h p =
     (case p of None \<Rightarrow> Some h
      | Some a \<Rightarrow> (case h a of None \<Rightarrow> None | Some it \<Rightarrow> free_from (h(a := None)) (nxt it)))"

text \<open>\<open>DeleteAll\<close> frees the items and sets the count; \<open>first\<close> and \<open>last\<close> stay.\<close>

definition DeleteAll :: "'a common_list \<Rightarrow> 'a common_list option" where
  "DeleteAll L = map_option (\<lambda>h. L\<lparr>heap := h, count_of := 0\<rparr>) (free_from (heap L) (first L))"

definition Swap :: "nat \<Rightarrow> nat \<Rightarrow> 'a common_list \<Rightarrow> 'a common_list option" where
  "Swap i1 i2 L = do {
     it1 \<leftarrow> heap L i1;
     L \<leftarrow> if_item (prev it1) (\<lambda>it. it\<lparr>nxt := Some i2\<rparr>) L;
     it2 \<leftarrow> heap L i2;
     L \<leftarrow> if_item (nxt it2) (\<lambda>it. it\<lparr>prev := Some i1\<rparr>) L;
     it2 \<leftarrow> heap L i2;
     L \<leftarrow> update_item i1 (\<lambda>it. it\<lparr>nxt := nxt it2\<rparr>) L;
     it1 \<leftarrow> heap L i1;
     L \<leftarrow> update_item i2 (\<lambda>it. it\<lparr>prev := prev it1\<rparr>) L;
     L \<leftarrow> update_item i1 (\<lambda>it. it\<lparr>prev := Some i2\<rparr>) L;
     L \<leftarrow> update_item i2 (\<lambda>it. it\<lparr>nxt := Some i1\<rparr>) L;
     it2 \<leftarrow> heap L i2;
     L \<leftarrow> Some (if prev it2 = None then L\<lparr>first := Some i2\<rparr> else L);
     it1 \<leftarrow> heap L i1;
     Some (if nxt it1 = None then L\<lparr>last_item := Some i1\<rparr> else L)
   }"

text \<open>
  The loop shared by \<open>job_sort\<close> and \<open>client_sort\<close>: the first neighbours \<open>swap\<close> asks for are
  exchanged, then the function calls itself and starts again from the head of the list.
\<close>

partial_function (option) swap_sort_from ::
    "('a \<Rightarrow> 'a \<Rightarrow> bool) \<Rightarrow> pointer \<Rightarrow> 'a common_list \<Rightarrow> 'a common_list option" where
  "swap_sort_from swap li L =
     (case li of None \<Rightarrow> Some L
      | Some a \<Rightarrow> (case heap L a of None \<Rightarrow> None
        | Some it1 \<Rightarrow> (case nxt it1 of None \<Rightarrow> Some L
          | Some b \<Rightarrow> (case heap L b of None \<Rightarrow> None
            | Some it2 \<Rightarrow>
                if swap (data it1) (data it2)
                then (case Swap a b L of None \<Rightarrow> None | Some L' \<Rightarrow> swap_sort_from swap (first L') L')
                else swap_sort_from swap (nxt it1) L))))"

definition swap_sort :: "('a \<Rightarrow> 'a \<Rightarrow> bool) \<Rightarrow> 'a common_list \<Rightarrow> 'a common_list option" where
  "swap_sort swap L = swap_sort_from swap (first L) L"

text \<open>The same loop on the sequence a list stands for; \<open>pre\<close> is the part behind it, reversed.\<close>

partial_function (option) swap_sort_seq_from :: "('a \<Rightarrow> 'a \<Rightarrow> bool) \<Rightarrow> 'a list \<Rightarrow> 'a list \<Rightarrow> 'a list option" where
  "swap_sort_seq_from swap pre xs =
     (case xs of
        x # y # zs \<Rightarrow>
          if swap x y then swap_sort_seq_from swap [] (rev pre @ y # x # zs)
          else swap_sort_seq_from swap (x # pre) (y # zs)
      | _ \<Rightarrow> Some (rev pre @ xs))"

definition swap_sort_seq :: "('a \<Rightarrow> 'a \<Rightarrow> bool) \<Rightarrow> 'a list \<Rightarrow> 'a list option" where
  "swap_sort_seq swap = swap_sort_seq_from swap []"

section \<open>Well-formed lists\<close>

definition head_ptr :: "nat list \<Rightarrow> pointer \<Rightarrow> pointer" where
  "head_ptr as n = (if as = [] then n else Some (hd as))"

definition last_ptr :: "pointer \<Rightarrow> nat list \<Rightarrow> pointer" where
  "last_ptr p as = (if as = [] then p else Some (last as))"

fun chain :: "(nat \<Rightarrow> 'a item option) \<Rightarrow> pointer \<Rightarrow> nat list \<Rightarrow> pointer \<Rightarrow> bool" where
  "chain h p [] n \<longleftrightarrow> True"
| "chain h p (a # as) n \<longleftrightarrow>
     (\<exists>d. h a = Some \<lparr>data = d, prev = p, nxt = head_ptr as n\<rparr>) \<and> chain h (Some a) as n"

text \<open>\<open>linked L as\<close>: the items of \<open>L\<close> are those at the addresses \<open>as\<close>, in this order.\<close>

definition linked :: "'a common_list \<Rightarrow> nat list \<Rightarrow> bool" where
  "linked L as \<longleftrightarrow> distinct as \<and> chain (heap L) None as None \<and> first L = head_ptr as None \<and>
     last_item L = last_ptr None as \<and> count_of L = int (length as)"

definition data_at :: "'a common_list \<Rightarrow> nat \<Rightarrow> 'a" where
  "data_at L a = data (the (heap L a))"

abbreviation contents :: "'a common_list \<Rightarrow> nat list \<Rightarrow> 'a list" where
  "contents L as \<equiv> map (data_at L) as"

lemma ptr_simps [simp]:
  "head_ptr [] n = n" "head_ptr (a # as) n = Some a" "last_ptr p [] = p" "last_ptr p (a # as) = last_ptr (Some a) as"
  "last_ptr p (as @ [b]) = Some b"
  by (simp_all add: head_ptr_def last_ptr_def)

lemma head_ptr_append: "head_ptr (as @ bs) n = head_ptr as (head_ptr bs n)"
  by (simp add: head_ptr_def)

lemma last_ptr_append: "last_ptr p (as @ bs) = last_ptr (last_ptr p as) bs"
  by (simp add: last_ptr_def)

lemma chain_append:
  "chain h p (as @ bs) n \<longleftrightarrow> chain h p as (head_ptr bs n) \<and> chain h (last_ptr p as) bs n"
  by (induction as arbitrary: p) (auto simp: head_ptr_append)

lemma chain_cong: "(\<And>x. x \<in> set as \<Longrightarrow> h x = h' x) \<Longrightarrow> chain h p as n \<longleftrightarrow> chain h' p as n"
  by (induction as arbitrary: p) auto

lemma chain_upd [simp]: "a \<notin> set as \<Longrightarrow> chain (h(a := x)) p as n \<longleftrightarrow> chain h p as n"
  by (rule chain_cong) auto

lemma chain_alloc: "chain h p as n \<Longrightarrow> a \<in> set as \<Longrightarrow> \<exists>it. h a = Some it"
  by (induction as arbitrary: p) auto

section \<open>Redirecting one pointer\<close>

text \<open>\<open>L'\<close> differs from \<open>L\<close> in the links of the items at \<open>as\<close> only.\<close>

definition relinked :: "nat list \<Rightarrow> 'a common_list \<Rightarrow> 'a common_list \<Rightarrow> bool" where
  "relinked as L L' \<longleftrightarrow> (\<forall>x. x \<notin> set as \<longrightarrow> heap L' x = heap L x) \<and>
     (\<forall>x. map_option data (heap L' x) = map_option data (heap L x)) \<and>
     first L' = first L \<and> last_item L' = last_item L \<and> count_of L' = count_of L"

lemma relinked_data: "relinked as L L' \<Longrightarrow> map_option data (heap L' x) = map_option data (heap L x)"
  by (simp add: relinked_def)

lemma relinked_other: "relinked as L L' \<Longrightarrow> x \<notin> set as \<Longrightarrow> heap L' x = heap L x"
  by (simp add: relinked_def)

lemma relinked_fields:
  "relinked as L L' \<Longrightarrow> first L' = first L" "relinked as L L' \<Longrightarrow> last_item L' = last_item L"
  "relinked as L L' \<Longrightarrow> count_of L' = count_of L"
  by (simp_all add: relinked_def)

lemma chain_relinked:
  "relinked as L L' \<Longrightarrow> set as \<inter> set bs = {} \<Longrightarrow> chain (heap L') p bs n \<longleftrightarrow> chain (heap L) p bs n"
  by (rule chain_cong) (auto simp: relinked_def)

lemma relink_next:
  assumes "chain (heap L) p as n" and "distinct as"
  shows "\<exists>L'. if_item (last_ptr None as) (\<lambda>it. it\<lparr>nxt := n'\<rparr>) L = Some L' \<and>
           chain (heap L') p as n' \<and> relinked as L L'"
proof (cases as rule: rev_cases)
  case Nil
  then show ?thesis by (simp add: if_item_def relinked_def)
next
  case (snoc bs b)
  then obtain it where it: "heap L b = Some it" using chain_alloc [OF assms(1), of b] by auto
  define L' where "L' = L\<lparr>heap := (heap L)(b \<mapsto> it\<lparr>nxt := n'\<rparr>)\<rparr>"
  have "chain (heap L') p bs (Some b)"
    using assms snoc by (auto simp: L'_def chain_append)
  then have "chain (heap L') p as n'"
    using assms(1) it by (auto simp: snoc chain_append L'_def)
  moreover have "relinked as L L'" using it by (auto simp: relinked_def L'_def snoc)
  moreover have "if_item (last_ptr None as) (\<lambda>it. it\<lparr>nxt := n'\<rparr>) L = Some L'"
    using it by (simp add: snoc if_item_def update_item_def L'_def)
  ultimately show ?thesis by blast
qed

lemma relink_prev:
  assumes "chain (heap L) p as n" and "distinct as"
  shows "\<exists>L'. if_item (head_ptr as None) (\<lambda>it. it\<lparr>prev := p'\<rparr>) L = Some L' \<and>
           chain (heap L') p' as n \<and> relinked as L L'"
proof (cases as)
  case Nil
  then show ?thesis by (simp add: if_item_def relinked_def)
next
  case (Cons b bs)
  then obtain it where it: "heap L b = Some it" using assms(1) by auto
  define L' where "L' = L\<lparr>heap := (heap L)(b \<mapsto> it\<lparr>prev := p'\<rparr>)\<rparr>"
  have "chain (heap L') (Some b) bs n"
    using assms Cons by (auto simp: L'_def)
  then have "chain (heap L') p' as n"
    using assms(1) it by (auto simp: Cons L'_def)
  moreover have "relinked as L L'" using it by (auto simp: relinked_def L'_def Cons)
  moreover have "if_item (head_ptr as None) (\<lambda>it. it\<lparr>prev := p'\<rparr>) L = Some L'"
    using it by (simp add: Cons if_item_def update_item_def L'_def)
  ultimately show ?thesis by blast
qed

section \<open>The operations on well-formed lists\<close>

lemma linked_alloc: "linked L as \<Longrightarrow> x \<in> set as \<Longrightarrow> \<exists>it. heap L x = Some it"
  unfolding linked_def using chain_alloc by blast

lemma linked_new: "linked new_list []"
  by (simp add: linked_def new_list_def)

lemma AddTail_linked:
  assumes L: "linked L as" and a: "a \<notin> set as"
  shows "\<exists>L'. AddTail a d L = Some L' \<and> linked L' (as @ [a]) \<and> data_at L' a = d \<and>
           contents L' as = contents L as"
proof -
  define N where "N = L\<lparr>heap := (heap L)(a \<mapsto> \<lparr>data = d, prev = last_item L, nxt = None\<rparr>),
      count_of := count_of L + 1, last_item := Some a\<rparr>"
  define M where "M = (if first N = None then N\<lparr>first := Some a\<rparr> else N)"
  have heap: "heap M = (heap L)(a \<mapsto> \<lparr>data = d, prev = last_item L, nxt = None\<rparr>)"
    "first M = (if first L = None then Some a else first L)" "last_item M = Some a" "count_of M = count_of L + 1"
    by (simp_all add: M_def N_def)
  have "chain (heap M) None as None"
    using L a by (auto simp: heap linked_def)
  then obtain L' where L': "if_item (last_ptr None as) (\<lambda>it. it\<lparr>nxt := Some a\<rparr>) M = Some L'"
      "chain (heap L') None as (Some a)" "relinked as M L'"
    using relink_next [of M None as None "Some a"] L by (auto simp: linked_def)
  have "heap L' a = Some \<lparr>data = d, prev = last_ptr None as, nxt = None\<rparr>"
    using relinked_other [OF L'(3) a] L by (simp add: heap linked_def)
  moreover have "AddTail a d L = Some L'"
    using L'(1) L by (cases "first L") (auto simp: AddTail_def Let_def M_def N_def linked_def)
  moreover have "data_at L' x = data_at L x" if x: "x \<in> set as" for x
  proof -
    obtain it where "heap L x = Some it" using linked_alloc [OF L x] by blast
    moreover have "x \<noteq> a" using x a by blast
    ultimately show ?thesis using relinked_data [OF L'(3), of x] by (auto simp: data_at_def heap)
  qed
  ultimately show ?thesis
    using L L'(2) a relinked_fields [OF L'(3)]
    by (auto simp: linked_def chain_append data_at_def heap head_ptr_def last_ptr_def)
qed

lemma Delete_linked:
  assumes L: "linked L (xs @ a # ys)"
  shows "\<exists>L'. Delete a L = Some L' \<and> linked L' (xs @ ys) \<and> contents L' (xs @ ys) = contents L (xs @ ys)"
proof -
  have ch: "chain (heap L) None xs (Some a)" "chain (heap L) (Some a) ys None"
    and dist: "distinct xs" "distinct ys" "set xs \<inter> set ys = {}" "a \<notin> set xs" "a \<notin> set ys"
    using L by (auto simp: linked_def chain_append)
  obtain d where it: "heap L a = Some \<lparr>data = d, prev = last_ptr None xs, nxt = head_ptr ys None\<rparr>"
    using L by (auto simp: linked_def chain_append)
  define N where "N = (if first L = Some a then L\<lparr>first := head_ptr ys None\<rparr> else L)"
  define M where "M = (if last_item N = Some a then N\<lparr>last_item := last_ptr None xs\<rparr> else N)"
  have M: "heap M = heap L" "first M = (if first L = Some a then head_ptr ys None else first L)"
    "last_item M = (if last_item L = Some a then last_ptr None xs else last_item L)" "count_of M = count_of L"
    by (simp_all add: M_def N_def)
  obtain L1 where L1: "if_item (last_ptr None xs) (\<lambda>p. p\<lparr>nxt := head_ptr ys None\<rparr>) M = Some L1"
      "chain (heap L1) None xs (head_ptr ys None)" "relinked xs M L1"
    using relink_next [of M None xs "Some a"] ch(1) dist(1) by (auto simp: M)
  have "chain (heap L1) (Some a) ys None"
    using chain_relinked [OF L1(3)] ch(2) dist(3) by (simp add: M)
  then obtain L2 where L2: "if_item (head_ptr ys None) (\<lambda>n. n\<lparr>prev := last_ptr None xs\<rparr>) L1 = Some L2"
      "chain (heap L2) (last_ptr None xs) ys None" "relinked ys L1 L2"
    using relink_prev [of L1 "Some a" ys None] dist(2) by blast
  define L' where "L' = L2\<lparr>count_of := count_of L2 - 1, heap := (heap L2)(a := None)\<rparr>"
  have "Delete a L = Some L'"
    using it L1(1) L2(1) by (cases "first L = Some a"; cases "last_item L = Some a")
      (simp_all add: Delete_def M_def N_def L'_def)
  moreover have "chain (heap L') None (xs @ ys) None"
    using L1(2) L2(2) chain_relinked [OF L2(3), of xs] dist
    by (auto simp: chain_append L'_def)
  moreover have "first L' = head_ptr (xs @ ys) None"
    using relinked_fields [OF L1(3)] relinked_fields [OF L2(3)] L dist
    by (cases xs) (auto simp: L'_def M linked_def)
  moreover have "last_item L' = last_ptr None (xs @ ys)"
    using relinked_fields [OF L1(3)] relinked_fields [OF L2(3)] L dist
    by (cases ys rule: rev_cases) (auto simp: L'_def M linked_def last_ptr_append append_Cons [symmetric]
        append_assoc [symmetric] simp del: append_Cons append_assoc)
  moreover have "count_of L' = int (length (xs @ ys))"
    using relinked_fields [OF L1(3)] relinked_fields [OF L2(3)] L by (simp add: L'_def M linked_def)
  moreover have "data_at L' x = data_at L x" if x: "x \<in> set (xs @ ys)" for x
  proof -
    have "x \<noteq> a" using x dist by auto
    obtain i where "heap L x = Some i" using linked_alloc [OF L, of x] x by auto
    then show ?thesis
      using relinked_data [OF L1(3), of x] relinked_data [OF L2(3), of x] \<open>x \<noteq> a\<close>
      by (auto simp: data_at_def L'_def M)
  qed
  ultimately show ?thesis using dist by (auto simp: linked_def)
qed

lemma update_item_at: "heap L a = Some it \<Longrightarrow> update_item a f L = Some (L\<lparr>heap := (heap L)(a \<mapsto> f it)\<rparr>)"
  by (simp add: update_item_def)

lemma Swap_linked:
  assumes L: "linked L (xs @ a # b # ys)"
  shows "\<exists>L'. Swap a b L = Some L' \<and> linked L' (xs @ b # a # ys) \<and>
           contents L' (xs @ b # a # ys) = contents L (xs @ b # a # ys)"
proof -
  have ch: "chain (heap L) None xs (Some a)" "chain (heap L) (Some b) ys None"
    and dist: "distinct xs" "distinct ys" "set xs \<inter> set ys = {}" "a \<notin> set xs" "a \<notin> set ys" "a \<noteq> b"
      "b \<notin> set xs" "b \<notin> set ys"
    using L by (auto simp: linked_def chain_append)
  obtain d e where it: "heap L a = Some \<lparr>data = d, prev = last_ptr None xs, nxt = Some b\<rparr>"
      "heap L b = Some \<lparr>data = e, prev = Some a, nxt = head_ptr ys None\<rparr>"
    using L by (auto simp: linked_def chain_append)
  obtain L1 where L1: "if_item (last_ptr None xs) (\<lambda>it. it\<lparr>nxt := Some b\<rparr>) L = Some L1"
      "chain (heap L1) None xs (Some b)" "relinked xs L L1"
    using relink_next [of L None xs "Some a"] ch(1) dist(1) by blast
  have "chain (heap L1) (Some b) ys None"
    using chain_relinked [OF L1(3)] ch(2) dist(3) by simp
  then obtain L2 where L2: "if_item (head_ptr ys None) (\<lambda>it. it\<lparr>prev := Some a\<rparr>) L1 = Some L2"
      "chain (heap L2) (Some a) ys None" "relinked ys L1 L2"
    using relink_prev [of L1 "Some b" ys None] dist(2) by blast
  have at1: "heap L1 b = heap L b" using relinked_other [OF L1(3)] dist by simp
  have at2: "heap L2 a = heap L a" "heap L2 b = heap L b"
    using relinked_other [OF L1(3)] relinked_other [OF L2(3)] dist by simp_all
  define h where "h = (heap L2)(a \<mapsto> \<lparr>data = d, prev = Some b, nxt = head_ptr ys None\<rparr>,
      b \<mapsto> \<lparr>data = e, prev = last_ptr None xs, nxt = Some a\<rparr>)"
  define L' where "L' = (let L3 = L2\<lparr>heap := h\<rparr>;
      L4 = (if last_ptr None xs = None then L3\<lparr>first := Some b\<rparr> else L3)
    in if head_ptr ys None = None then L4\<lparr>last_item := Some a\<rparr> else L4)"
  have heap: "heap L' = h" "first L' = (if last_ptr None xs = None then Some b else first L2)"
    "last_item L' = (if head_ptr ys None = None then Some a else last_item L2)" "count_of L' = count_of L2"
    by (simp_all add: L'_def Let_def)
  have "Swap a b L = Some L'"
    unfolding Swap_def using it L1(1) L2(1) at1 at2 dist(6)
    by (simp add: update_item_at L'_def h_def Let_def fun_upd_twist)
  moreover have "chain (heap L') None (xs @ b # a # ys) None"
    using L1(2) L2(2) chain_relinked [OF L2(3), of xs] dist by (auto simp: chain_append heap h_def)
  moreover have "first L' = head_ptr (xs @ b # a # ys) None"
    using relinked_fields [OF L1(3)] relinked_fields [OF L2(3)] L
    by (cases xs) (auto simp: heap linked_def last_ptr_def)
  moreover have "last_item L' = last_ptr None (xs @ b # a # ys)"
    using relinked_fields [OF L1(3)] relinked_fields [OF L2(3)] L
    by (cases ys) (auto simp: heap linked_def last_ptr_append)
  moreover have "count_of L' = int (length (xs @ b # a # ys))"
    using relinked_fields [OF L1(3)] relinked_fields [OF L2(3)] L by (simp add: heap linked_def)
  moreover have "data_at L' x = data_at L x" if x: "x \<in> set (xs @ b # a # ys)" for x
  proof -
    obtain i where "heap L x = Some i" using linked_alloc [OF L, of x] x by auto
    then show ?thesis
      using relinked_data [OF L1(3), of x] relinked_data [OF L2(3), of x] it
      by (auto simp: data_at_def heap h_def)
  qed
  ultimately show ?thesis using dist by (auto simp: linked_def)
qed

text \<open>\<open>Find\<close> returns the first item that holds the datum.\<close>

lemma find_from_chain:
  "chain h p as None \<Longrightarrow>
   find_from h d (head_ptr as None) = Some (List.find (\<lambda>a. map_option data (h a) = Some d) as)"
proof (induction as arbitrary: p)
  case (Cons a as)
  then obtain e where it: "h a = Some \<lparr>data = e, prev = p, nxt = head_ptr as None\<rparr>" "chain h (Some a) as None"
    by auto
  show ?case
    using it Cons.IH [OF it(2)] by (subst find_from.simps) auto
qed (subst find_from.simps, simp)

lemma Find_linked:
  assumes "linked L as"
  shows "Find d L = Some (List.find (\<lambda>a. data_at L a = d) as)"
proof -
  have "List.find (\<lambda>a. map_option data (heap L a) = Some d) as = List.find (\<lambda>a. data_at L a = d) as"
    using linked_alloc [OF assms] by (intro find_cong refl) (force simp: data_at_def)
  then show ?thesis
    using assms find_from_chain [of "heap L" None as d] by (simp add: Find_def linked_def)
qed

text \<open>After \<open>DeleteAll\<close> the list still points at the items it freed.\<close>

lemma free_from_chain:
  "chain h p as None \<Longrightarrow> distinct as \<Longrightarrow> free_from h (head_ptr as None) = Some (\<lambda>x. if x \<in> set as then None else h x)"
proof (induction as arbitrary: p h)
  case (Cons a as)
  then obtain e where it: "h a = Some \<lparr>data = e, prev = p, nxt = head_ptr as None\<rparr>" "chain h (Some a) as None"
    by auto
  have "chain (h(a := None)) (Some a) as None" using it(2) Cons.prems(2) by simp
  then have "free_from (h(a := None)) (head_ptr as None) =
      Some (\<lambda>x. if x \<in> set as then None else (h(a := None)) x)"
    using Cons.prems(2) by (intro Cons.IH [OF \<open>chain (h(a := None)) (Some a) as None\<close>]) simp
  moreover have "(\<lambda>x. if x \<in> set as then None else (h(a := None)) x) =
      (\<lambda>x. if x \<in> set (a # as) then None else h x)"
    by auto
  ultimately show ?case using it(1) by (subst free_from.simps) simp
qed (subst free_from.simps, simp)

lemma DeleteAll_linked:
  assumes "linked L as"
  shows "DeleteAll L = Some (L\<lparr>heap := (\<lambda>x. if x \<in> set as then None else heap L x), count_of := 0\<rparr>)"
  using assms free_from_chain [of "heap L" None as] by (simp add: DeleteAll_def linked_def)

lemma AddTail_after_DeleteAll:
  assumes L: "linked L as" "as \<noteq> []" and a: "a \<notin> set as"
  shows "\<exists>L'. DeleteAll L = Some L' \<and> AddTail a d L' = None"
proof -
  have "last_item L = Some (last as)" "first L = Some (hd as)" "last as \<noteq> a"
    using L a by (auto simp: linked_def last_ptr_def head_ptr_def)
  then show ?thesis
    using L(2) by (simp add: DeleteAll_linked [OF L(1)] AddTail_def Let_def if_item_def update_item_def)
qed


text \<open>The list 10, 20 at the addresses 1 and 2.\<close>

definition two_items :: "int common_list" where
  "two_items = \<lparr>heap = [1 \<mapsto> \<lparr>data = 10, prev = None, nxt = Some 2\<rparr>, 2 \<mapsto> \<lparr>data = 20, prev = Some 1, nxt = None\<rparr>],
     count_of = 2, first = Some 1, last_item = Some 2\<rparr>"


section \<open>Sorting by exchange\<close>

fun inversions :: "'k::linorder list \<Rightarrow> nat" where
  "inversions [] = 0"
| "inversions (x # xs) = length (filter (\<lambda>y. x < y) xs) + inversions xs"

lemma inversions_exchange:
  "x < y \<Longrightarrow> inversions (xs @ y # x # zs) < inversions (xs @ x # y # zs)"
  by (induction xs) auto

text \<open>The loop on the list refines the loop on its sequence.\<close>

lemma swap_sort_refines_from:
  assumes "swap_sort_seq_from swap pre xs = Some qs"
  shows "linked L (as @ bs) \<Longrightarrow> contents L as = rev pre \<Longrightarrow> contents L bs = xs \<Longrightarrow>
    \<exists>M cs. swap_sort_from swap (head_ptr bs None) L = Some M \<and> linked M cs \<and> contents M cs = qs"
proof (induction arbitrary: L as bs rule: swap_sort_seq_from.raw_induct [OF _ assms, consumes 0, case_names step])
  case (step loop swap pre xs qs)
  show ?case
  proof (cases bs)
    case Nil
    then show ?thesis using step.hyps step.prems by (subst swap_sort_from.simps) auto
  next
    case (Cons a bs')
    obtain it where it: "heap L a = Some it" "nxt it = head_ptr bs' None" "data it = data_at L a"
      using step.prems(1) Cons by (auto simp: linked_def chain_append data_at_def)
    show ?thesis
    proof (cases bs')
      case Nil
      then show ?thesis using step.hyps step.prems it Cons by (subst swap_sort_from.simps) auto
    next
      case (Cons b zs)
      note bs = \<open>bs = a # bs'\<close> Cons
      obtain it2 where it2: "heap L b = Some it2" "data it2 = data_at L b"
        using step.prems(1) bs by (auto simp: linked_def chain_append data_at_def)
      have xs: "xs = data_at L a # data_at L b # contents L zs" using step.prems(3) bs by simp
      have unfold: "swap_sort_from swap (head_ptr bs None) L =
        (if swap (data_at L a) (data_at L b)
         then (case Swap a b L of None \<Rightarrow> None | Some L' \<Rightarrow> swap_sort_from swap (first L') L')
         else swap_sort_from swap (head_ptr bs' None) L)"
        using it it2 bs by (subst swap_sort_from.simps) simp
      show ?thesis
      proof (cases "swap (data_at L a) (data_at L b)")
        case True
        obtain L' where L': "Swap a b L = Some L'" "linked L' (as @ b # a # zs)"
            "contents L' (as @ b # a # zs) = contents L (as @ b # a # zs)"
          using Swap_linked [of L as a b zs] step.prems(1) bs by auto
        have rec: "loop swap [] (rev pre @ data_at L b # data_at L a # contents L zs) = Some qs"
          using step.hyps xs True by simp
        have "\<exists>M cs. swap_sort_from swap (head_ptr (as @ b # a # zs) None) L' = Some M \<and> linked M cs \<and> contents M cs = qs"
          by (rule step.IH [OF rec, of _ "[]"]) (use L'(2,3) step.prems(2) in simp_all)
        then show ?thesis using L'(1,2) True unfold by (simp add: linked_def)
      next
        case False
        have rec: "loop swap (data_at L a # pre) (data_at L b # contents L zs) = Some qs"
          using step.hyps xs False by simp
        have "\<exists>M cs. swap_sort_from swap (head_ptr bs' None) L = Some M \<and> linked M cs \<and> contents M cs = qs"
          by (rule step.IH [OF rec, of _ "as @ [a]"]) (use step.prems bs in simp_all)
        then show ?thesis using False unfold by simp
      qed
    qed
  qed
qed

lemma swap_sort_refines:
  assumes "swap_sort_seq swap ps = Some qs" and "linked L as" and "contents L as = ps"
  shows "\<exists>M bs. swap_sort swap L = Some M \<and> linked M bs \<and> contents M bs = qs"
  using swap_sort_refines_from [of swap "[]" ps qs L "[]" as] assms
  by (simp add: swap_sort_seq_def swap_sort_def linked_def)

locale swap_order =
  fixes swap :: "'a \<Rightarrow> 'a \<Rightarrow> bool"
    and key :: "'a \<Rightarrow> 'k::linorder"
    and valid :: "'a \<Rightarrow> bool"
  assumes swap_key: "valid x \<Longrightarrow> valid y \<Longrightarrow> swap x y \<Longrightarrow> key x < key y"
begin

text \<open>One pass from the second part of the list, when all states with fewer inversions are sorted.\<close>

lemma swap_sort_pass:
  assumes less: "\<And>L' cs. linked L' cs \<Longrightarrow> \<forall>x\<in>set (contents L' cs). valid x \<Longrightarrow>
      inversions (map key (contents L' cs)) < inversions (map key (contents L as)) \<Longrightarrow>
      \<exists>M bs. swap_sort_from swap (first L') L' = Some M \<and> linked M bs \<and> mset bs = mset cs \<and>
        contents M bs = contents L' bs \<and> successively (\<lambda>x y. \<not> swap x y) (contents M bs)"
    and L: "linked L as" "\<forall>x\<in>set (contents L as). valid x" and as: "as = xs @ ys"
    and pre: "successively (\<lambda>x y. \<not> swap x y) (contents L (xs @ take 1 ys))"
  shows "\<exists>M bs. swap_sort_from swap (head_ptr ys None) L = Some M \<and> linked M bs \<and> mset bs = mset as \<and>
      contents M bs = contents L bs \<and> successively (\<lambda>x y. \<not> swap x y) (contents M bs)"
  using as pre
proof (induction ys arbitrary: xs)
  case Nil
  then show ?case using L by (subst swap_sort_from.simps) auto
next
  case (Cons a ys)
  obtain it where it: "heap L a = Some it" "nxt it = head_ptr ys None" "data it = data_at L a"
    using L(1) Cons.prems(1) by (auto simp: linked_def chain_append data_at_def)
  show ?case
  proof (cases ys)
    case Nil
    then show ?thesis using L it Cons.prems by (subst swap_sort_from.simps) auto
  next
    case (Cons b zs)
    obtain it2 where it2: "heap L b = Some it2" "data it2 = data_at L b"
      using L(1) Cons.prems(1) Cons by (auto simp: linked_def chain_append data_at_def)
    have unfold: "swap_sort_from swap (head_ptr (a # ys) None) L =
        (if swap (data_at L a) (data_at L b)
         then (case Swap a b L of None \<Rightarrow> None | Some L' \<Rightarrow> swap_sort_from swap (first L') L')
         else swap_sort_from swap (head_ptr ys None) L)"
      using it it2 Cons by (subst swap_sort_from.simps) simp
    show ?thesis
    proof (cases "swap (data_at L a) (data_at L b)")
      case True
      obtain L' where L': "Swap a b L = Some L'" "linked L' (xs @ b # a # zs)"
          "contents L' (xs @ b # a # zs) = contents L (xs @ b # a # zs)"
        using Swap_linked [of L xs a b zs] L(1) Cons.prems(1) Cons by auto
      have "key (data_at L a) < key (data_at L b)"
        using swap_key [OF _ _ True] L(2) Cons.prems(1) Cons by simp
      then have "inversions (map key (contents L' (xs @ b # a # zs))) < inversions (map key (contents L as))"
        using inversions_exchange [of "key (data_at L a)" "key (data_at L b)" "map key (contents L xs)"]
        unfolding L'(3) Cons.prems(1) Cons by simp
      moreover have "\<forall>x\<in>set (contents L' (xs @ b # a # zs)). valid x"
        unfolding L'(3) using L(2) Cons.prems(1) Cons by auto
      ultimately obtain M bs where M: "swap_sort_from swap (first L') L' = Some M" "linked M bs"
          "mset bs = mset (xs @ b # a # zs)" "contents M bs = contents L' bs"
          "successively (\<lambda>x y. \<not> swap x y) (contents M bs)"
        using less [OF L'(2)] by blast
      have "set bs = set (xs @ b # a # zs)" using M(3) by (metis set_mset_mset)
      then have "contents L' bs = contents L bs" using L'(3) by (auto simp: map_eq_conv)
      then show ?thesis
        using M L'(1) True Cons.prems(1) Cons unfold by auto
    next
      case False
      have "successively (\<lambda>x y. \<not> swap x y) (contents L ((xs @ [a]) @ take 1 ys))"
        using Cons.prems(2) False Cons by (auto simp: successively_append_iff)
      then show ?thesis
        using Cons.IH [of "xs @ [a]"] Cons.prems(1) False unfold by simp
    qed
  qed
qed

lemma swap_sort_sorts:
  assumes "linked L as" and "\<forall>x\<in>set (contents L as). valid x"
  shows "\<exists>M bs. swap_sort swap L = Some M \<and> linked M bs \<and> mset bs = mset as \<and>
           contents M bs = contents L bs \<and> successively (\<lambda>x y. \<not> swap x y) (contents M bs)"
  unfolding swap_sort_def using assms
proof (induction "inversions (map key (contents L as))" arbitrary: L as rule: less_induct)
  case less
  have "first L = head_ptr as None" using less.prems(1) by (simp add: linked_def)
  then show ?case
    using swap_sort_pass [of L as "[]" as] less.hyps less.prems by (cases as) auto
qed

lemma swap_sort_seq_pass:
  assumes less: "\<And>zs. \<forall>x\<in>set zs. valid x \<Longrightarrow> inversions (map key zs) < inversions (map key ps) \<Longrightarrow>
      \<exists>qs. swap_sort_seq_from swap [] zs = Some qs \<and> mset qs = mset zs \<and> successively (\<lambda>x y. \<not> swap x y) qs"
    and "\<forall>x\<in>set ps. valid x" and "ps = rev pre @ xs"
    and "successively (\<lambda>x y. \<not> swap x y) (rev pre @ take 1 xs)"
  shows "\<exists>qs. swap_sort_seq_from swap pre xs = Some qs \<and> mset qs = mset ps \<and> successively (\<lambda>x y. \<not> swap x y) qs"
  using assms(3,4)
proof (induction xs arbitrary: pre)
  case Nil
  then show ?case by (subst swap_sort_seq_from.simps) simp
next
  case (Cons x xs)
  show ?case
  proof (cases xs)
    case Nil
    then show ?thesis using Cons.prems by (subst swap_sort_seq_from.simps) simp
  next
    case (Cons y zs)
    show ?thesis
    proof (cases "swap x y")
      case True
      have "key x < key y" using swap_key [OF _ _ True] assms(2) Cons.prems(1) Cons by simp
      then have "inversions (map key (rev pre @ y # x # zs)) < inversions (map key ps)"
        using inversions_exchange [of "key x" "key y" "map key (rev pre)"] Cons.prems(1) Cons by simp
      moreover have "\<forall>x\<in>set (rev pre @ y # x # zs). valid x" using assms(2) Cons.prems(1) Cons by auto
      ultimately obtain qs where "swap_sort_seq_from swap [] (rev pre @ y # x # zs) = Some qs"
          "mset qs = mset (rev pre @ y # x # zs)" "successively (\<lambda>x y. \<not> swap x y) qs"
        using less by blast
      then show ?thesis using True Cons Cons.prems(1) by (subst swap_sort_seq_from.simps) auto
    next
      case False
      have "successively (\<lambda>x y. \<not> swap x y) (rev (x # pre) @ take 1 xs)"
        using Cons.prems(2) False Cons by (auto simp: successively_append_iff)
      then have "\<exists>qs. swap_sort_seq_from swap (x # pre) xs = Some qs \<and> mset qs = mset ps \<and>
          successively (\<lambda>x y. \<not> swap x y) qs"
        using Cons.IH [of "x # pre"] Cons.prems(1) by simp
      then show ?thesis using False Cons by (subst swap_sort_seq_from.simps) simp
    qed
  qed
qed

lemma swap_sort_seq_sorts:
  assumes "\<forall>x\<in>set ps. valid x"
  shows "\<exists>qs. swap_sort_seq swap ps = Some qs \<and> mset qs = mset ps \<and> successively (\<lambda>x y. \<not> swap x y) qs"
  unfolding swap_sort_seq_def using assms
proof (induction "inversions (map key ps)" arbitrary: ps rule: less_induct)
  case less
  show ?case
    using swap_sort_seq_pass [of ps "[]" ps] less.hyps less.prems by (cases ps) auto
qed

end

end
