(* ===== verification/Objects.thy ===== *)
theory Objects
  imports Common_List
begin

text \<open>
  \<open>object.cpp\<close>: the objects every global list holds (clients, jobs, daemons, shares, ...), found
  by id and locked by a counter, marked deleted by any thread and freed by the pruning pass of the
  main loop. \<open>'a objects\<close> is the memory the objects live in; the lists hold pointers to them.
\<close>

section \<open>The code\<close>

record yaamp_object =
  obj_id :: int
  lock_count :: int
  unlock :: bool
  deleted :: bool

type_synonym 'a objects = "nat \<Rightarrow> 'a yaamp_object_scheme option"

text \<open>\<open>if(!object) return; object->field = ...\<close>\<close>

definition object_update :: "('a yaamp_object_scheme \<Rightarrow> 'a yaamp_object_scheme) \<Rightarrow> pointer \<Rightarrow> 'a objects \<Rightarrow> 'a objects option" where
  "object_update f p S =
     (case p of None \<Rightarrow> Some S | Some a \<Rightarrow> map_option (\<lambda>x. S(a \<mapsto> f x)) (S a))"

definition object_lock :: "pointer \<Rightarrow> 'a objects \<Rightarrow> 'a objects option" where
  "object_lock = object_update (\<lambda>x. x\<lparr>lock_count := lock_count x + 1\<rparr>)"

definition object_unlock :: "pointer \<Rightarrow> 'a objects \<Rightarrow> 'a objects option" where
  "object_unlock = object_update (\<lambda>x. x\<lparr>lock_count := lock_count x - 1\<rparr>)"

definition object_delete :: "pointer \<Rightarrow> 'a objects \<Rightarrow> 'a objects option" where
  "object_delete = object_update (\<lambda>x. x\<lparr>deleted := True\<rparr>)"

partial_function (option) object_find_from ::
    "pointer common_list \<Rightarrow> 'a objects \<Rightarrow> int \<Rightarrow> bool \<Rightarrow> pointer \<Rightarrow> (pointer \<times> 'a objects) option" where
  "object_find_from L S i lock li =
     (case li of None \<Rightarrow> Some (None, S)
      | Some a \<Rightarrow> (case heap L a of None \<Rightarrow> None
        | Some it \<Rightarrow> (case data it of None \<Rightarrow> None
          | Some p \<Rightarrow> (case S p of None \<Rightarrow> None
            | Some x \<Rightarrow>
                if obj_id x = i
                then (if lock then map_option (\<lambda>S. (Some p, S)) (object_lock (Some p) S) else Some (Some p, S))
                else object_find_from L S i lock (nxt it)))))"

definition object_find :: "pointer common_list \<Rightarrow> 'a objects \<Rightarrow> int \<Rightarrow> bool \<Rightarrow> (pointer \<times> 'a objects) option" where
  "object_find L S i lock = object_find_from L S i lock (first L)"

text \<open>The body of the pruning loop for the item \<open>todel\<close>; \<open>deletefunc\<close> frees the object.\<close>

definition prune_item :: "nat \<Rightarrow> pointer \<Rightarrow> pointer common_list \<times> 'a objects \<Rightarrow> (pointer common_list \<times> 'a objects) option" where
  "prune_item todel object LS =
     (case LS of (L, S) \<Rightarrow>
       (case object of None \<Rightarrow> Some (L, S)
        | Some p \<Rightarrow> (case S p of None \<Rightarrow> None
          | Some x \<Rightarrow>
              if deleted x \<and> lock_count x = 0 then do {
                L \<leftarrow> update_item todel (\<lambda>it. it\<lparr>data := None\<rparr>) L;
                L \<leftarrow> Delete todel L;
                Some (L, S(p := None))
              }
              else if lock_count x \<noteq> 0 \<and> unlock x
              then Some (L, S(p \<mapsto> x\<lparr>lock_count := lock_count x - 1\<rparr>))
              else Some (L, S))))"

partial_function (option) prune_from ::
    "pointer \<Rightarrow> pointer common_list \<times> 'a objects \<Rightarrow> (pointer common_list \<times> 'a objects) option" where
  "prune_from li LS =
     (case li of None \<Rightarrow> Some LS
      | Some a \<Rightarrow>
          if 0 < count_of (fst LS)
          then (case heap (fst LS) a of None \<Rightarrow> None
            | Some it \<Rightarrow> (case prune_item a (data it) LS of None \<Rightarrow> None | Some LS' \<Rightarrow> prune_from (nxt it) LS'))
          else Some LS)"

definition object_prune :: "pointer common_list \<Rightarrow> 'a objects \<Rightarrow> (pointer common_list \<times> 'a objects) option" where
  "object_prune L S = prune_from (first L) (L, S)"

section \<open>Lists of objects\<close>

text \<open>\<open>holds L S ps\<close>: \<open>L\<close> is a well-formed list of the distinct, allocated objects \<open>ps\<close>.\<close>

definition holds :: "pointer common_list \<Rightarrow> 'a objects \<Rightarrow> nat list \<Rightarrow> bool" where
  "holds L S ps \<longleftrightarrow> (\<exists>as. linked L as \<and> contents L as = map Some ps) \<and> distinct ps \<and>
     (\<forall>p\<in>set ps. S p \<noteq> None)"

lemma object_find_chain:
  "chain (heap L) q as None \<Longrightarrow> contents L as = map Some ps \<Longrightarrow> \<forall>p\<in>set ps. S p \<noteq> None \<Longrightarrow>
   object_find_from L S i lock (head_ptr as None) =
   (case List.find (\<lambda>p. obj_id (the (S p)) = i) ps of
      None \<Rightarrow> Some (None, S)
    | Some p \<Rightarrow> if lock then map_option (\<lambda>S. (Some p, S)) (object_lock (Some p) S) else Some (Some p, S))"
proof (induction as arbitrary: q ps)
  case Nil
  then show ?case by (subst object_find_from.simps) simp
next
  case (Cons a as)
  then obtain p ps' where ps: "ps = p # ps'" "data_at L a = Some p" "contents L as = map Some ps'" by auto
  from Cons.prems(1) obtain d where it: "heap L a = Some \<lparr>data = d, prev = q, nxt = head_ptr as None\<rparr>"
      "chain (heap L) (Some a) as None" by auto
  have d: "d = Some p" using ps(2) it(1) by (simp add: data_at_def)
  obtain x where x: "S p = Some x" using Cons.prems(3) ps(1) by auto
  have "object_find_from L S i lock (head_ptr as None) =
      (case List.find (\<lambda>p. obj_id (the (S p)) = i) ps' of None \<Rightarrow> Some (None, S)
       | Some p \<Rightarrow> if lock then map_option (\<lambda>S. (Some p, S)) (object_lock (Some p) S) else Some (Some p, S))"
    using Cons.IH [OF it(2) ps(3)] Cons.prems(3) ps(1) by simp
  then show ?case using it d x ps(1) by (subst object_find_from.simps) simp
qed

lemma object_find_holds:
  assumes "holds L S ps"
  shows "object_find L S i lock =
    (case List.find (\<lambda>p. obj_id (the (S p)) = i) ps of
       None \<Rightarrow> Some (None, S)
     | Some p \<Rightarrow> Some (Some p, if lock then S(p \<mapsto> (the (S p))\<lparr>lock_count := lock_count (the (S p)) + 1\<rparr>) else S))"
proof -
  obtain as where as: "linked L as" "contents L as = map Some ps" and S: "\<forall>p\<in>set ps. S p \<noteq> None"
    using assms unfolding holds_def by blast
  have "object_lock (Some p) S = Some (S(p \<mapsto> (the (S p))\<lparr>lock_count := lock_count (the (S p)) + 1\<rparr>))"
    if "List.find (\<lambda>p. obj_id (the (S p)) = i) ps = Some p" for p
  proof -
    have "p \<in> set ps" using that by (auto simp: find_Some_iff)
    then show ?thesis using S by (auto simp: object_lock_def object_update_def)
  qed
  then show ?thesis
    using object_find_chain [of L None as ps S i lock] as S
    by (auto simp: object_find_def linked_def split: option.splits)
qed

text \<open>What pruning does to the memory.\<close>

definition doomed :: "'a objects \<Rightarrow> nat \<Rightarrow> bool" where
  "doomed S p \<longleftrightarrow> (\<exists>x. S p = Some x \<and> deleted x \<and> lock_count x = 0)"

definition prune_object :: "'a yaamp_object_scheme \<Rightarrow> 'a yaamp_object_scheme option" where
  "prune_object x =
     (if deleted x \<and> lock_count x = 0 then None
      else if lock_count x \<noteq> 0 \<and> unlock x then Some (x\<lparr>lock_count := lock_count x - 1\<rparr>) else Some x)"

definition pruned :: "nat list \<Rightarrow> 'a objects \<Rightarrow> 'a objects" where
  "pruned ps S = (\<lambda>p. if p \<in> set ps then Option.bind (S p) prune_object else S p)"

lemma update_item_linked:
  assumes "linked L as" and "a \<in> set as"
  shows "\<exists>L'. update_item a (\<lambda>it. it\<lparr>data := d\<rparr>) L = Some L' \<and> linked L' as \<and>
           (\<forall>x. x \<noteq> a \<longrightarrow> data_at L' x = data_at L x)"
proof -
  obtain it where it: "heap L a = Some it" using linked_alloc [OF assms] by blast
  define h where "h = (heap L)(a \<mapsto> it\<lparr>data := d\<rparr>)"
  have "chain h p bs n" if "chain (heap L) p bs n" for p bs n
    using that by (induction bs arbitrary: p) (auto simp: h_def it)
  then have "linked (L\<lparr>heap := h\<rparr>) as" using assms(1) by (simp add: linked_def)
  then show ?thesis using it by (auto simp: update_item_def data_at_def h_def)
qed

lemma prune_item_linked:
  assumes L: "linked L (xs @ a # ys)" and d: "data_at L a = Some p" and S: "S p = Some x"
  shows "\<exists>L'. prune_item a (Some p) (L, S) = Some (L', S(p := prune_object x)) \<and>
           linked L' (if doomed S p then xs @ ys else xs @ a # ys) \<and>
           (\<forall>b \<in> set (xs @ ys). data_at L' b = data_at L b) \<and>
           (\<not> doomed S p \<longrightarrow> L' = L)"
proof (cases "doomed S p")
  case True
  then have dead: "deleted x \<and> lock_count x = 0" using S by (simp add: doomed_def)
  obtain L1 where L1: "update_item a (\<lambda>it. it\<lparr>data := None\<rparr>) L = Some L1" "linked L1 (xs @ a # ys)"
      "\<forall>b. b \<noteq> a \<longrightarrow> data_at L1 b = data_at L b"
    using update_item_linked [OF L, of a None] by auto
  obtain L2 where L2: "Delete a L1 = Some L2" "linked L2 (xs @ ys)" "contents L2 (xs @ ys) = contents L1 (xs @ ys)"
    using Delete_linked [OF L1(2)] by blast
  have "a \<notin> set (xs @ ys)" using L by (auto simp: linked_def)
  then have "\<forall>b \<in> set (xs @ ys). data_at L2 b = data_at L b"
    using L1(3) L2(3) by (metis map_eq_conv)
  then show ?thesis using True dead S L1(1) L2(1,2) by (simp add: prune_item_def prune_object_def)
next
  case False
  then have "\<not> (deleted x \<and> lock_count x = 0)" using S by (simp add: doomed_def)
  then show ?thesis
    using False S L by (auto simp: prune_item_def prune_object_def fun_upd_idem)
qed

lemma pruned_Cons:
  "p \<notin> set qs \<Longrightarrow> S p = Some x \<Longrightarrow> pruned qs (S(p := prune_object x)) = pruned (p # qs) S"
  by (auto simp: pruned_def fun_eq_iff)

lemma prune_from_linked:
  assumes "linked L (xs @ ys)" and "contents L xs = map Some ps" and "contents L ys = map Some qs"
    and "distinct qs" and "\<forall>q\<in>set qs. S q \<noteq> None"
  shows "\<exists>L' as. prune_from (head_ptr ys None) (L, S) = Some (L', pruned qs S) \<and> linked L' as \<and>
           contents L' as = map Some (ps @ filter (\<lambda>q. \<not> doomed S q) qs)"
  using assms
proof (induction ys arbitrary: xs ps qs L S)
  case Nil
  then show ?case by (subst prune_from.simps) (auto simp: pruned_def)
next
  case (Cons a ys)
  obtain p qs' where qs: "qs = p # qs'" "data_at L a = Some p" "contents L ys = map Some qs'"
    using Cons.prems(3) by auto
  obtain x where x: "S p = Some x" using Cons.prems(5) qs(1) by auto
  define T where T: "T = S(p := prune_object x)"
  obtain L1 where L1: "prune_item a (Some p) (L, S) = Some (L1, T)"
      "linked L1 (if doomed S p then xs @ ys else xs @ a # ys)"
      "\<forall>b \<in> set (xs @ ys). data_at L1 b = data_at L b" "\<not> doomed S p \<longrightarrow> L1 = L"
    using prune_item_linked [of L xs a ys p S x] Cons.prems(1) qs(2) x unfolding T by blast
  obtain it where it: "heap L a = Some it" "data it = Some p" "nxt it = head_ptr ys None"
    using Cons.prems(1) qs(2) by (auto simp: linked_def chain_append data_at_def)
  have count: "0 < count_of L" using Cons.prems(1) by (simp add: linked_def)
  have unfold: "prune_from (head_ptr (a # ys) None) (L, S) = prune_from (head_ptr ys None) (L1, T)"
    using it count L1(1) by (subst prune_from.simps) simp
  have S: "\<forall>q\<in>set qs'. T q \<noteq> None" and doomed: "\<forall>q\<in>set qs'. doomed T q = doomed S q"
    using Cons.prems(4,5) qs(1) by (auto simp: doomed_def T)
  have eq: "pruned qs' T = pruned qs S" using pruned_Cons [of p qs' S x] Cons.prems(4) x qs(1) T by simp
  have filter: "filter (\<lambda>q. \<not> doomed T q) qs' = filter (\<lambda>q. \<not> doomed S q) qs'"
    using doomed by (intro filter_cong) auto
  have cont: "contents L1 xs = map Some ps" "contents L1 ys = map Some qs'"
  proof -
    have "contents L1 xs = contents L xs" "contents L1 ys = contents L ys" using L1(3) by simp_all
    then show "contents L1 xs = map Some ps" "contents L1 ys = map Some qs'" using Cons.prems(2) qs(3) by simp_all
  qed
  show ?case
  proof (cases "doomed S p")
    case True
    then have "linked L1 (xs @ ys)" using L1(2) by simp
    from Cons.IH [OF this cont _ S] Cons.prems(4) qs(1) True show ?thesis
      unfolding unfold eq filter by auto
  next
    case False
    then have "linked L1 ((xs @ [a]) @ ys)" "contents L1 (xs @ [a]) = map Some (ps @ [p])"
      using L1(2,4) cont(1) qs(2) by auto
    from Cons.IH [OF this cont(2) _ S] Cons.prems(4) qs(1) False show ?thesis
      unfolding unfold eq filter by auto
  qed
qed

lemma object_prune_holds:
  assumes "holds L S ps"
  shows "\<exists>L'. object_prune L S = Some (L', pruned ps S) \<and>
           holds L' (pruned ps S) (filter (\<lambda>p. \<not> doomed S p) ps)"
proof -
  obtain as where as: "linked L as" "contents L as = map Some ps" and ps: "distinct ps" "\<forall>p\<in>set ps. S p \<noteq> None"
    using assms unfolding holds_def by blast
  obtain L' bs where L': "prune_from (head_ptr as None) (L, S) = Some (L', pruned ps S)" "linked L' bs"
      "contents L' bs = map Some (filter (\<lambda>q. \<not> doomed S q) ps)"
    using prune_from_linked [of L "[]" as "[]" ps S] as ps by auto
  have "pruned ps S p \<noteq> None" if p: "p \<in> set (filter (\<lambda>p. \<not> doomed S p) ps)" for p
  proof -
    obtain x where "S p = Some x" using p ps(2) by auto
    then show ?thesis using p by (auto simp: pruned_def prune_object_def doomed_def)
  qed
  then have "holds L' (pruned ps S) (filter (\<lambda>p. \<not> doomed S p) ps)"
    using L'(2,3) ps(1) unfolding holds_def by auto
  then show ?thesis using L'(1) as(1) by (auto simp: object_prune_def linked_def)
qed

section \<open>Locked objects are not freed\<close>

text \<open>
  The life of a list of objects. A state has the list, the memory and the multiset of the objects
  that threads have found with \<open>lock\<close> and not yet unlocked.
\<close>

type_synonym 'a registry = "pointer common_list \<times> 'a objects \<times> nat multiset"

inductive registry_step :: "'a registry \<Rightarrow> 'a registry \<Rightarrow> bool" where
  add: "heap L a = None \<Longrightarrow> S p = None \<Longrightarrow> lock_count x = 0 \<Longrightarrow> \<not> unlock x \<Longrightarrow> AddTail a (Some p) L = Some L' \<Longrightarrow>
     registry_step (L, S, H) (L', S(p \<mapsto> x), H)"
| find: "object_find L S i True = Some (Some p, S') \<Longrightarrow> registry_step (L, S, H) (L, S', add_mset p H)"
| release: "p \<in># H \<Longrightarrow> object_unlock (Some p) S = Some S' \<Longrightarrow> registry_step (L, S, H) (L, S', H - {#p#})"
| delete: "object_delete (Some p) S = Some S' \<Longrightarrow> registry_step (L, S, H) (L, S', H)"
| prune: "object_prune L S = Some (L', S') \<Longrightarrow> registry_step (L, S, H) (L', S', H)"

inductive_cases registry_stepE [consumes 1, case_names add find release delete prune]: "registry_step (L, S, H) R"

definition registry_inv :: "'a registry \<Rightarrow> bool" where
  "registry_inv R \<longleftrightarrow> (case R of (L, S, H) \<Rightarrow>
     (\<exists>ps. holds L S ps \<and> (\<forall>p. S p \<noteq> None \<longrightarrow> p \<in> set ps)) \<and>
     (\<forall>p x. S p = Some x \<longrightarrow> lock_count x = int (count H p) \<and> \<not> unlock x) \<and>
     (\<forall>p. p \<in># H \<longrightarrow> S p \<noteq> None))"

lemma registry_inv_new: "registry_inv (new_list, (\<lambda>_. None), {#})"
  by (auto simp: registry_inv_def holds_def intro!: exI [of _ "[]"] linked_new)

lemma holds_update: "holds L S ps \<Longrightarrow> p \<in> set ps \<Longrightarrow> holds L (S(p \<mapsto> x)) ps"
  by (auto simp: holds_def)

lemma holds_AddTail:
  assumes "holds L S ps" and "heap L a = None" and "S p = None" and "AddTail a (Some p) L = Some L'"
  shows "holds L' (S(p \<mapsto> x)) (ps @ [p])"
proof -
  obtain as where as: "linked L as" "contents L as = map Some ps" and ps: "distinct ps" "\<forall>p\<in>set ps. S p \<noteq> None"
    using assms(1) unfolding holds_def by blast
  have "a \<notin> set as" using linked_alloc [OF as(1)] assms(2) by fastforce
  then have "linked L' (as @ [a]) \<and> contents L' (as @ [a]) = map Some (ps @ [p])"
    using AddTail_linked [OF as(1), of a "Some p"] assms(4) as(2) by auto
  moreover have "distinct (ps @ [p])" using ps assms(3) by auto
  moreover have "\<forall>q\<in>set (ps @ [p]). (S(p \<mapsto> x)) q \<noteq> None" using ps(2) by auto
  ultimately show ?thesis unfolding holds_def by blast
qed

lemma registry_inv_step:
  assumes "registry_step R R'" and "registry_inv R"
  shows "registry_inv R'"
proof -
  obtain L S H where R: "R = (L, S, H)" by (cases R)
  obtain ps where ps: "holds L S ps" "\<forall>p. S p \<noteq> None \<longrightarrow> p \<in> set ps"
    and locks: "\<forall>p x. S p = Some x \<longrightarrow> lock_count x = int (count H p) \<and> \<not> unlock x"
    and held: "\<forall>p. p \<in># H \<longrightarrow> S p \<noteq> None"
    using assms(2) by (auto simp: registry_inv_def R)
  from assms(1) [unfolded R] show ?thesis
  proof (cases rule: registry_stepE)
    case (add a p x L')
    have "holds L' (S(p \<mapsto> x)) (ps @ [p])"
      using holds_AddTail [OF ps(1)] add by blast
    moreover have "count H p = 0" using add held by (auto simp: not_in_iff)
    ultimately show ?thesis
      using add ps(2) locks held by (auto simp: registry_inv_def intro!: exI [of _ "ps @ [p]"])
  next
    case (find i p S')
    have found: "List.find (\<lambda>p. obj_id (the (S p)) = i) ps = Some p"
      "S' = S(p \<mapsto> (the (S p))\<lparr>lock_count := lock_count (the (S p)) + 1\<rparr>)"
      using find(2) object_find_holds [OF ps(1), of i True] by (auto split: option.splits)
    then have "p \<in> set ps" by (auto simp: find_Some_iff)
    then obtain x where x: "S p = Some x" using ps(1) by (auto simp: holds_def)
    show ?thesis
      using find(1) found(2) x holds_update [OF ps(1) \<open>p \<in> set ps\<close>] ps(2) locks held
      by (auto simp: registry_inv_def intro!: exI [of _ ps])
  next
    case (release p S')
    then obtain x where x: "S p = Some x" "S' = S(p \<mapsto> x\<lparr>lock_count := lock_count x - 1\<rparr>)"
      using held by (auto simp: object_unlock_def object_update_def)
    have "holds L S' ps" using x holds_update [OF ps(1)] ps(2) by auto
    moreover have "int (count (H - {#p#}) q) = int (count H q) - (if q = p then 1 else 0)" for q
      using release(2) by (auto simp: of_nat_diff)
    ultimately show ?thesis
      using release(1) x ps(2) locks held
      by (auto simp: registry_inv_def intro!: exI [of _ ps] dest: in_diffD)
  next
    case (delete p S')
    then obtain x where x: "S p = Some x" "S' = S(p \<mapsto> x\<lparr>deleted := True\<rparr>)"
      by (auto simp: object_delete_def object_update_def)
    then show ?thesis
      using delete(1) holds_update [OF ps(1)] ps(2) locks held
      by (auto simp: registry_inv_def intro!: exI [of _ ps])
  next
    case (prune L' S')
    then have S': "S' = pruned ps S" "holds L' S' (filter (\<lambda>p. \<not> doomed S p) ps)"
      using object_prune_holds [OF ps(1)] by auto
    have same: "S' p = (if doomed S p then None else S p)" for p
    proof (cases "S p")
      case (Some x)
      then have "p \<in> set ps" "\<not> unlock x" using ps(2) locks by auto
      then show ?thesis using Some unfolding S'(1) by (simp add: pruned_def prune_object_def doomed_def)
    qed (simp add: S'(1) pruned_def doomed_def)
    have "\<not> doomed S p" if "p \<in># H" for p
    proof
      assume "doomed S p"
      then obtain x where "S p = Some x" "lock_count x = 0" by (auto simp: doomed_def)
      then show False using locks that by (auto simp: count_eq_zero_iff)
    qed
    then show ?thesis
      using prune(1) S'(2) same locks held ps(2)
      by (auto simp: registry_inv_def intro!: exI [of _ "filter (\<lambda>p. \<not> doomed S p) ps"])
  qed
qed

lemma registry_inv_reachable: "registry_step\<^sup>*\<^sup>* (new_list, (\<lambda>_. None), {#}) R \<Longrightarrow> registry_inv R"
  by (induction rule: rtranclp_induct) (auto intro: registry_inv_new registry_inv_step)

text \<open>
  C14. In every reachable state of a list of objects, whatever the order of additions, locked
  look-ups, unlocks, deletions and prunings: an object some thread holds is still allocated, the
  pruning pass runs to its end, and it frees exactly the objects that are deleted and held by
  nobody.
\<close>

theorem held_objects_stay_allocated:
  assumes "registry_step\<^sup>*\<^sup>* (new_list, (\<lambda>_. None), {#}) (L, S, H)"
  shows "(\<forall>p. p \<in># H \<longrightarrow> S p \<noteq> None) \<and>
    (\<exists>L' S'. object_prune L S = Some (L', S') \<and>
       (\<forall>p x. S p = Some x \<longrightarrow> (S' p = None \<longleftrightarrow> deleted x \<and> p \<notin># H)))"
proof -
  have inv: "registry_inv (L, S, H)" using assms by (rule registry_inv_reachable)
  then obtain ps where ps: "holds L S ps" "\<forall>p. S p \<noteq> None \<longrightarrow> p \<in> set ps"
    and locks: "\<forall>p x. S p = Some x \<longrightarrow> lock_count x = int (count H p) \<and> \<not> unlock x"
    and held: "\<forall>p. p \<in># H \<longrightarrow> S p \<noteq> None"
    by (auto simp: registry_inv_def)
  obtain L' where L': "object_prune L S = Some (L', pruned ps S)"
    using object_prune_holds [OF ps(1)] by blast
  have "pruned ps S p = None \<longleftrightarrow> deleted x \<and> p \<notin># H" if x: "S p = Some x" for p x
  proof -
    have "p \<notin># H \<longleftrightarrow> lock_count x = 0" "\<not> unlock x"
      using locks x by (metis not_in_iff of_nat_eq_0_iff) (use locks x in blast)
    moreover have "p \<in> set ps" using ps(2) x by simp
    ultimately show ?thesis using x by (simp add: pruned_def prune_object_def)
  qed
  then show ?thesis using held L' by blast
qed

text \<open>A list with one object, found by its id and then deleted while it is held.\<close>

definition one_item_list :: "pointer common_list" where
  "one_item_list = \<lparr>heap = [1 \<mapsto> \<lparr>data = Some 7, prev = None, nxt = None\<rparr>], count_of = 1,
     first = Some 1, last_item = Some 1\<rparr>"

definition one_object :: "int \<Rightarrow> bool \<Rightarrow> yaamp_object" where
  "one_object n d = \<lparr>obj_id = 3, lock_count = n, unlock = False, deleted = d\<rparr>"

lemma one_item_reachable:
  "registry_step\<^sup>*\<^sup>* (new_list, (\<lambda>_. None), {#}) (one_item_list, [7 \<mapsto> one_object 1 True], {#7#})"
proof -
  have "registry_step (new_list, (\<lambda>_. None), {#}) (one_item_list, [7 \<mapsto> one_object 0 False], {#})"
    by (rule registry_step.add [of _ 1 _ 7])
       (simp_all add: new_list_def one_item_list_def one_object_def AddTail_def if_item_def)
  moreover have "registry_step (one_item_list, [7 \<mapsto> one_object 0 False], {#})
      (one_item_list, [7 \<mapsto> one_object 1 False], add_mset 7 {#})"
    by (rule registry_step.find [of _ _ 3], unfold object_find_def, subst object_find_from.simps)
       (simp add: one_item_list_def one_object_def object_lock_def object_update_def)
  moreover have "registry_step (one_item_list, [7 \<mapsto> one_object 1 False], {#7#})
      (one_item_list, [7 \<mapsto> one_object 1 True], {#7#})"
    by (rule registry_step.delete [of 7]) (simp add: one_object_def object_delete_def object_update_def)
  ultimately show ?thesis by (meson converse_rtranclp_into_rtranclp r_into_rtranclp)
qed

theorem held_objects_stay_allocated_witness:
  "[7 \<mapsto> one_object 1 True] (7 :: nat) \<noteq> None \<and>
   (\<exists>L' S'. object_prune one_item_list [7 \<mapsto> one_object 1 True] = Some (L', S') \<and> S' 7 \<noteq> None)"
proof -
  obtain L' S' where P: "object_prune one_item_list [7 \<mapsto> one_object 1 True] = Some (L', S')"
    and S': "\<And>p x. [7 \<mapsto> one_object 1 True] p = Some x \<Longrightarrow> (S' p = None \<longleftrightarrow> deleted x \<and> p \<notin># {#7#})"
    using held_objects_stay_allocated [OF one_item_reachable] by blast
  have "(S' 7 = None) = False" using S' [of 7 "one_object 1 True"] by simp
  then show ?thesis unfolding P by simp
qed

end
