(* ===== verification/Difficulty.thy ===== *)
theory Difficulty
  imports Complex_Main Targets
begin

text \<open>
  The conversions between hashes, targets and difficulties that \<open>util.cpp\<close> does in floating
  point. A \<open>double\<close> is a real number and every operation on doubles is rounded by \<open>rnd\<close>; a
  conversion to an unsigned integer truncates, and gives \<open>wild\<close> when the value does not fit,
  which C leaves undefined. The infinity that a division by zero gives is the real 0 here: the
  code only divides by it again, which gives 0 in both readings.
\<close>

section \<open>The code\<close>

record fpu =
  rnd :: "real \<Rightarrow> real"
  wild :: "real \<Rightarrow> u64"

definition to_u64 :: "fpu \<Rightarrow> real \<Rightarrow> u64" where
  "to_u64 F x = (if -1 < x \<and> x < 2 ^ 64 then of_nat (nat \<lfloor>x\<rfloor>) else wild F x)"

text \<open>\<open>mult\<close> is \<open>g_current_algo->diff_multiplier\<close>; the constant is exact in a \<open>double\<close>.\<close>

definition diff_to_target :: "fpu \<Rightarrow> real \<Rightarrow> real \<Rightarrow> u64" where
  "diff_to_target F mult difficulty =
     (if difficulty = 0 then 0 else to_u64 F (rnd F (rnd F (0x0000ffff00000000 * mult) / difficulty)))"

definition target_to_diff :: "fpu \<Rightarrow> u64 \<Rightarrow> real" where
  "target_to_diff F target =
     (if target = 0 then 0 else rnd F (0x0000ffff00000000 / rnd F (real (unat target))))"

definition target_word_equi :: "u8 list \<Rightarrow> u64" where
  "target_word_equi tgt =
     push_bit 24 (ucast (tgt ! 30)) OR push_bit 16 (ucast (tgt ! 29)) OR push_bit 8 (ucast (tgt ! 28)) OR
     push_bit 0 (ucast (tgt ! 27))"

definition target_to_diff_equi :: "fpu \<Rightarrow> u8 list \<Rightarrow> real" where
  "target_to_diff_equi F tgt =
     (let m = target_word_equi tgt in if m = 0 then 0 else rnd F (0xffff0000 / real (unat m)))"

text \<open>The loops \<open>while(nShift < n) { d *= 256.0; nShift++; }\<close> and the one that divides.\<close>

fun scale_up :: "fpu \<Rightarrow> nat \<Rightarrow> real \<Rightarrow> real" where
  "scale_up F 0 d = d"
| "scale_up F (Suc n) d = scale_up F n (rnd F (d * 256))"

fun scale_down :: "fpu \<Rightarrow> nat \<Rightarrow> real \<Rightarrow> real" where
  "scale_down F 0 d = d"
| "scale_down F (Suc n) d = scale_down F n (rnd F (d / 256))"

definition shift_diff :: "fpu \<Rightarrow> nat \<Rightarrow> nat \<Rightarrow> real \<Rightarrow> real" where
  "shift_diff F from_shift to_shift d =
     scale_down F (from_shift - to_shift) (scale_up F (to_shift - from_shift) d)"

definition nbits_to_diff_equi :: "fpu \<Rightarrow> u32 \<Rightarrow> real" where
  "nbits_to_diff_equi F bits =
     (let nShift = unat (drop_bit 24 bits AND 0xff); nShiftAmount = unat (drop_bit 24 (0x200f0f0f :: u32) AND 0xff)
      in shift_diff F nShift nShiftAmount
           (rnd F (real (unat ((0x200f0f0f :: u32) AND 0x00ffffff)) / real (unat (bits AND 0x00ffffff)))))"

definition decode_compact :: "fpu \<Rightarrow> string \<Rightarrow> u64" where
  "decode_compact F input =
     (let c = htoi64 input;
          d = shift_diff F (unat (drop_bit 24 c AND 0xff)) 29 (rnd F (0x0000ffff / real (unat (c AND 0x00ffffff))))
      in to_u64 F (rnd F (0x0000ffff00000000 / d)))"

text \<open>The two numbers \<open>client_do_submit\<close> compares for equihash.\<close>

definition equi_hash_int :: "fpu \<Rightarrow> real \<Rightarrow> u8 list \<Rightarrow> u64" where
  "equi_hash_int F mult hash_bin = diff_to_target F mult (target_to_diff_equi F hash_bin)"

definition equi_coin_target :: "fpu \<Rightarrow> real \<Rightarrow> u32 \<Rightarrow> u64" where
  "equi_coin_target F mult bits = diff_to_target F mult (nbits_to_diff_equi F bits)"

text \<open>
  \<open>diff_to_target_equi\<close>: the words \<open>target[k + 1]\<close> and \<open>target[k + 2]\<close> of an array of eight are
  written; then the leading zero bytes are set, up to the first other byte.
\<close>

fun equi_scale :: "fpu \<Rightarrow> nat \<Rightarrow> real \<Rightarrow> nat \<times> real" where
  "equi_scale F 0 diff = (0, diff)"
| "equi_scale F (Suc k) diff = (if 1 < diff then equi_scale F k (rnd F (diff / 4294967296)) else (Suc k, diff))"

definition put_word :: "nat \<Rightarrow> u64 \<Rightarrow> u8 list \<Rightarrow> u8 list option" where
  "put_word i w target = buf_write (4 * i) (le_bytes 4 (unat w)) target"

fun fill_zeros :: "nat \<Rightarrow> u8 list \<Rightarrow> u8 list" where
  "fill_zeros (Suc n) (b # bs) = (if b = 0 then 0xff # fill_zeros n bs else b # bs)"
| "fill_zeros _ bs = bs"

definition diff_to_target_equi :: "fpu \<Rightarrow> u8 list \<Rightarrow> real \<Rightarrow> u8 list option" where
  "diff_to_target_equi F target diff = do {
     (k, diff) \<leftarrow> Some (equi_scale F 6 diff);
     let m = to_u64 F (rnd F (4294901760 / diff));
     if m = 0 \<and> k = 6 then buf_write 0 (replicate 32 0xff) target
     else do {
       t \<leftarrow> buf_write 0 (replicate 32 0) target;
       t \<leftarrow> put_word (k + 1) (drop_bit 8 m) t;
       t \<leftarrow> put_word (k + 2) (drop_bit 40 m) t;
       Some (fill_zeros 28 t)
     }
   }"

text \<open>\<open>client_normalize_difficulty\<close> with the bounds of the configuration.\<close>

definition client_normalize_difficulty :: "fpu \<Rightarrow> real \<Rightarrow> real \<Rightarrow> real \<Rightarrow> real" where
  "client_normalize_difficulty F g_min g_max difficulty =
     (let d = (if difficulty < g_min then g_min
               else if difficulty < 1
               then rnd F (rnd F (of_int \<lfloor>rnd F (rnd F (difficulty * 1000) / 2)\<rfloor> / 1000) * 2)
               else if 1 < difficulty then rnd F (of_int \<lfloor>rnd F (difficulty / 2)\<rfloor> * 2)
               else difficulty)
      in if g_max < d then g_max else d)"

section \<open>Rounding\<close>

text \<open>The bounds the proofs need are far weaker than those of IEEE doubles.\<close>

definition rounds :: "fpu \<Rightarrow> bool" where
  "rounds F \<longleftrightarrow> (\<forall>x > 0. 999 / 1000 * x \<le> rnd F x \<and> rnd F x \<le> 1001 / 1000 * x)"

lemma rounds_lower: "rounds F \<Longrightarrow> 0 < x \<Longrightarrow> 999 / 1000 * x \<le> rnd F x"
  and rounds_upper: "rounds F \<Longrightarrow> 0 < x \<Longrightarrow> rnd F x \<le> 1001 / 1000 * x"
  by (simp_all add: rounds_def)

lemma rounds_pos: "rounds F \<Longrightarrow> 0 < x \<Longrightarrow> 0 < rnd F x"
  using rounds_lower [of F x] by simp

lemma scale_up_bounds:
  assumes "rounds F"
  shows "0 < d \<Longrightarrow> (999 / 1000 * 256) ^ n * d \<le> scale_up F n d \<and> scale_up F n d \<le> (1001 / 1000 * 256) ^ n * d"
proof (induction n arbitrary: d)
  case (Suc n)
  let ?d = "rnd F (d * 256)"
  have d: "999 / 1000 * (d * 256) \<le> ?d" "?d \<le> 1001 / 1000 * (d * 256)" "0 < ?d"
    using rounds_lower [OF assms, of "d * 256"] rounds_upper [OF assms, of "d * 256"]
      rounds_pos [OF assms, of "d * 256"] Suc.prems by simp_all
  note IH = Suc.IH [OF d(3)]
  have "(999 / 1000 * 256) ^ n * (999 / 1000 * (d * 256)) \<le> (999 / 1000 * 256) ^ n * ?d"
    using d(1) by (rule mult_left_mono) simp
  moreover have "(1001 / 1000 * 256) ^ n * ?d \<le> (1001 / 1000 * 256) ^ n * (1001 / 1000 * (d * 256))"
    using d(2) by (rule mult_left_mono) simp
  moreover have "(999 / 1000 * 256) ^ Suc n * d = (999 / 1000 * 256) ^ n * (999 / 1000 * (d * 256))"
    "(1001 / 1000 * 256) ^ Suc n * d = (1001 / 1000 * 256) ^ n * (1001 / 1000 * (d * 256))"
    by simp_all
  ultimately show ?case using IH by (simp only: scale_up.simps) linarith
qed simp

lemma power_near_one:
  assumes "n \<le> 29"
  shows "97 / 100 \<le> (999 / 1000 :: real) ^ n" and "(1001 / 1000 :: real) ^ n \<le> 103 / 100"
proof -
  have "(999 / 1000 :: real) ^ 29 \<le> (999 / 1000) ^ n" using assms by (intro power_decreasing) simp_all
  moreover have "97 / 100 \<le> (999 / 1000 :: real) ^ 29" by (simp add: power_divide)
  ultimately show "97 / 100 \<le> (999 / 1000 :: real) ^ n" by linarith
  have "(1001 / 1000 :: real) ^ n \<le> (1001 / 1000) ^ 29" using assms by (intro power_increasing) simp_all
  moreover have "(1001 / 1000 :: real) ^ 29 \<le> 103 / 100" by (simp add: power_divide)
  ultimately show "(1001 / 1000 :: real) ^ n \<le> 103 / 100" by linarith
qed

lemma scale_up_near:
  assumes "rounds F" and "0 < d" and "n \<le> 29"
  shows "97 / 100 * (256 ^ n * d) \<le> scale_up F n d" and "scale_up F n d \<le> 103 / 100 * (256 ^ n * d)"
proof -
  have pos: "0 \<le> 256 ^ n * d" using assms(2) by simp
  have "97 / 100 * (256 ^ n * d) \<le> (999 / 1000) ^ n * (256 ^ n * d)"
    using power_near_one(1) [OF assms(3)] pos by (rule mult_right_mono)
  also have "\<dots> = (999 / 1000 * 256) ^ n * d" unfolding power_mult_distrib by (simp only: mult.assoc)
  finally show "97 / 100 * (256 ^ n * d) \<le> scale_up F n d"
    using scale_up_bounds [OF assms(1,2), of n] by linarith
  have "(1001 / 1000 * 256) ^ n * d = (1001 / 1000) ^ n * (256 ^ n * d)"
    unfolding power_mult_distrib by (simp only: mult.assoc)
  also have "\<dots> \<le> 103 / 100 * (256 ^ n * d)"
    using power_near_one(2) [OF assms(3)] pos by (rule mult_right_mono)
  finally show "scale_up F n d \<le> 103 / 100 * (256 ^ n * d)"
    using scale_up_bounds [OF assms(1,2), of n] by linarith
qed

lemma quotient_near:
  assumes "rounds F" and "0 < a" and "0 < lo" and "lo \<le> d" and "d \<le> hi"
  shows "999 / 1000 * (a / hi) \<le> rnd F (a / d)" and "rnd F (a / d) \<le> 1001 / 1000 * (a / lo)"
proof -
  have "a / hi \<le> a / d" "a / d \<le> a / lo"
    using assms(2-5) by (simp_all add: frac_le)
  moreover have "0 < a / d" using assms(2-4) by simp
  ultimately show "999 / 1000 * (a / hi) \<le> rnd F (a / d)" "rnd F (a / d) \<le> 1001 / 1000 * (a / lo)"
    using rounds_lower [OF assms(1), of "a / d"] rounds_upper [OF assms(1), of "a / d"] by linarith+
qed

lemma unat_to_u64: "0 \<le> x \<Longrightarrow> x < 2 ^ 64 \<Longrightarrow> unat (to_u64 F x) = nat \<lfloor>x\<rfloor>"
proof -
  assume x: "0 \<le> x" "x < 2 ^ 64"
  have "nat \<lfloor>x\<rfloor> < 2 ^ 64"
  proof -
    have "\<lfloor>x\<rfloor> < 2 ^ 64" using x(2) by (simp add: floor_less_iff)
    then show ?thesis using x(1) by (simp add: nat_less_iff)
  qed
  moreover have "to_u64 F x = of_nat (nat \<lfloor>x\<rfloor>)"
    unfolding to_u64_def using x by (simp only: if_True simp_thms) simp
  ultimately show ?thesis
    by (simp add: unsigned_of_nat take_bit_nat_eq_self del: of_nat_nat word_of_nat_eq_0_iff)
qed

section \<open>The block test of the equihash pool\<close>

lemma target_word_equi_div:
  assumes "length p = 32"
  shows "unat (target_word_equi p) = be_val (rev p) div 2 ^ 216 mod 2 ^ 32"
proof -
  let ?m = "take 4 (drop 27 p)"
  have "?m = map (\<lambda>i. p ! i) [27..<31]"
    using assms by (intro nth_equalityI) (auto simp del: upt_Suc upt_rec_numeral)
  then have "rev ?m = [p ! 30, p ! 29, p ! 28, p ! 27]" by (simp add: upt_rec)
  then have m: "target_word_equi p = of_nat (be_val (rev ?m))"
    by (simp only: of_nat_be_val) (simp add: target_word_equi_def push_bit_or or.assoc)
  have small: "be_val (rev ?m) < 256 ^ 4" using be_val_less [of "rev ?m"] assms by simp
  have "rev p = rev (drop 31 p) @ rev ?m @ rev (take 27 p)"
  proof -
    have "drop 27 p = ?m @ drop 31 p" using append_take_drop_id [of 4 "drop 27 p"] by simp
    then have "p = take 27 p @ ?m @ drop 31 p" using append_take_drop_id [of 27 p] by simp
    then show ?thesis by (metis rev_append append_assoc)
  qed
  then have "be_val (rev p) = (be_val (rev (drop 31 p)) * 256 ^ 4 + be_val (rev ?m)) * 256 ^ 27 +
      be_val (rev (take 27 p))"
    using assms by (simp add: be_val_append algebra_simps)
  moreover have "be_val (rev (take 27 p)) < 256 ^ 27" using be_val_less [of "rev (take 27 p)"] assms by simp
  ultimately have "be_val (rev p) div 256 ^ 27 = be_val (rev (drop 31 p)) * 256 ^ 4 + be_val (rev ?m)"
    by simp
  then have "be_val (rev p) div 256 ^ 27 mod 256 ^ 4 = be_val (rev ?m)" using small by simp
  moreover have "(256 :: nat) ^ 27 = 2 ^ 216" "(256 :: nat) ^ 4 = 2 ^ 32" by simp_all
  ultimately show ?thesis using m small by (simp add: unsigned_of_nat take_bit_nat_eq_self)
qed

text \<open>
  \<open>X\<close> and \<open>Y\<close> are the two quotients before truncation, \<open>m\<close> the leading word of the hash and
  \<open>t\<close> the target in units of 2^216.
\<close>

lemma equi_quotients:
  fixes q t :: real
  assumes F: "rounds F" and mult: "1 \<le> mult"
    and m: "0 < m" and q: "0 < q" and n: "n \<le> 29" and t: "t * 256 ^ n = q * 256 ^ 2"
  defines "A \<equiv> rnd F (0x0000ffff00000000 * mult)"
    and "X \<equiv> rnd F (rnd F (0x0000ffff00000000 * mult) / rnd F (0xffff0000 / m))"
    and "Y \<equiv> rnd F (rnd F (0x0000ffff00000000 * mult) / scale_up F n (rnd F (986895 / q)))"
  shows "281000000000000 \<le> A" and "A \<le> 281800000000000 * mult"
    and "2323 / 10 ^ 13 * (A * m) \<le> X" and "X \<le> 2334 / 10 ^ 13 * (A * m)"
    and "149 / 10 ^ 13 * (A * t) \<le> Y" and "Y \<le> 1599 / 10 ^ 14 * (A * t)"
proof -
  show A: "281000000000000 \<le> A" "A \<le> 281800000000000 * mult"
    using rounds_lower [OF F, of "0x0000ffff00000000 * mult"] rounds_upper [OF F, of "0x0000ffff00000000 * mult"] mult
    by (simp_all add: A_def)
  then have Apos: "0 < A" by simp
  define D where "D = 0xffff0000 / m"
  have D: "0 < D" "999 / 1000 * D \<le> rnd F D" "rnd F D \<le> 1001 / 1000 * D"
    using m rounds_lower [OF F, of D] rounds_upper [OF F, of D] by (simp_all add: D_def)
  have X: "999 / 1000 * (A / (1001 / 1000 * D)) \<le> X" "X \<le> 1001 / 1000 * (A / (999 / 1000 * D))"
    using quotient_near [OF F Apos _ D(2,3)] D(1) by (simp_all add: X_def A_def D_def)
  have AD: "A / D = A * m / 4294901760" by (simp add: D_def)
  have Am: "0 < A * m" using Apos m by simp
  have "999 / 1000 * (A / (1001 / 1000 * D)) = 999 / 1001 * (A * m / 4294901760)"
    "1001 / 1000 * (A / (999 / 1000 * D)) = 1001 / 999 * (A * m / 4294901760)"
    using AD by simp_all
  then show "2323 / 10 ^ 13 * (A * m) \<le> X" "X \<le> 2334 / 10 ^ 13 * (A * m)"
    using X Am by simp_all
  define E where "E = 256 ^ n * (986895 / q)"
  have "0 < rnd F (986895 / q)" using rounds_pos [OF F] q by simp
  from scale_up_near [OF F this n] have
    "97 / 100 * (256 ^ n * rnd F (986895 / q)) \<le> scale_up F n (rnd F (986895 / q))"
    "scale_up F n (rnd F (986895 / q)) \<le> 103 / 100 * (256 ^ n * rnd F (986895 / q))" .
  moreover have "256 ^ n * (999 / 1000 * (986895 / q)) \<le> 256 ^ n * rnd F (986895 / q)"
    "256 ^ n * rnd F (986895 / q) \<le> 256 ^ n * (1001 / 1000 * (986895 / q))"
    using rounds_lower [OF F, of "986895 / q"] rounds_upper [OF F, of "986895 / q"] q
    by (auto intro: mult_left_mono simp del: times_divide_eq_right)
  ultimately have E: "969 / 1000 * E \<le> scale_up F n (rnd F (986895 / q))"
    "scale_up F n (rnd F (986895 / q)) \<le> 10311 / 10000 * E" "0 < E"
    using q by (simp_all add: E_def)
  have Y: "999 / 1000 * (A / (10311 / 10000 * E)) \<le> Y" "Y \<le> 1001 / 1000 * (A / (969 / 1000 * E))"
    using quotient_near [OF F Apos _ E(1,2)] E(3) by (simp_all add: Y_def A_def)
  have "E * t = 64677150720"
    using t q by (simp add: E_def field_simps)
  then have AE: "A / E = A * t / 64677150720"
    using E(3) by (simp add: field_simps)
  have "0 < E * t" using \<open>E * t = 64677150720\<close> by simp
  then have tpos: "0 < t" using E(3) by (simp add: zero_less_mult_iff)
  have At: "0 < A * t" using Apos tpos by simp
  have "999 / 1000 * (A / (10311 / 10000 * E)) = 9990 / 10311 * (A * t / 64677150720)"
    "1001 / 1000 * (A / (969 / 1000 * E)) = 1001 / 969 * (A * t / 64677150720)"
    using AE by simp_all
  then show "149 / 10 ^ 13 * (A * t) \<le> Y" "Y \<le> 1599 / 10 ^ 14 * (A * t)"
    using Y At by simp_all
qed

lemma equi_margin:
  fixes P Q A :: real
  shows "2323 / 10 ^ 13 * P < 1599 / 10 ^ 14 * Q + 1 \<Longrightarrow> 281000000000000 \<le> A \<Longrightarrow> A \<le> P \<Longrightarrow> P + A \<le> Q"
  by simp

lemma equi_margin_strict:
  fixes P Q A X Y :: real
  shows "281000000000000 \<le> A \<Longrightarrow> A \<le> P \<Longrightarrow> Q \<le> 8 * P \<Longrightarrow> 2323 / 10 ^ 13 * P \<le> X \<Longrightarrow>
    Y \<le> 1599 / 10 ^ 14 * Q \<Longrightarrow> Y + 1 \<le> X"
  by simp

lemma equi_block_test_bounds:
  fixes q e h :: nat
  assumes F: "rounds F" and mult: "1 \<le> mult" "mult \<le> 1000"
    and hash: "length hash_bin = 32" "h = be_val (rev hash_bin)" "2 ^ 216 \<le> h" "h < 2 ^ 248"
    and e: "e = unat (drop_bit 24 bits)" "3 \<le> e" "e \<le> 32" and q: "q = unat bits mod 2 ^ 24" "0 < q"
  shows "equi_hash_int F mult hash_bin \<le> equi_coin_target F mult bits \<Longrightarrow> h \<le> q * 256 ^ (e - 3)"
    and "q * 256 ^ (e - 3) \<le> 4 * h \<Longrightarrow> equi_coin_target F mult bits < equi_hash_int F mult hash_bin"
proof -
  let ?T = "q * 256 ^ (e - 3)"
  define m where "m = h div 2 ^ 216"
  define t :: real where "t = real ?T / 2 ^ 216"
  define A where "A = rnd F (0x0000ffff00000000 * mult)"
  define X where "X = rnd F (A / rnd F (0xffff0000 / real m))"
  define Y where "Y = rnd F (A / scale_up F (32 - e) (rnd F (986895 / real q)))"
  have "m < 2 ^ 32" using hash(4) unfolding m_def by (simp add: div_less_iff_less_mult)
  then have word: "unat (target_word_equi hash_bin) = m"
    using target_word_equi_div [OF hash(1)] hash(2) by (simp add: m_def)
  have m: "1 \<le> m" using hash(3) unfolding m_def by (simp add: less_eq_div_iff_mult_less_eq)
  have hm: "h < (m + 1) * 2 ^ 216" unfolding m_def by (simp add: dividend_less_div_times)
  have tn: "t * 256 ^ (32 - e) = real q * 256 ^ 2"
  proof -
    have "(256 :: real) ^ (e - 3) * 256 ^ (32 - e) = 256 ^ 29" using e by (simp flip: power_add)
    then show ?thesis by (simp add: t_def)
  qed
  have near: "281000000000000 \<le> A" "A \<le> 281800000000000 * mult"
    "2323 / 10 ^ 13 * (A * real m) \<le> X" "X \<le> 2334 / 10 ^ 13 * (A * real m)"
    "149 / 10 ^ 13 * (A * t) \<le> Y" "Y \<le> 1599 / 10 ^ 14 * (A * t)"
    using equi_quotients [OF F mult(1), of "real m" "real q" "32 - e" t] m q(2) tn e(2)
    by (simp_all add: A_def X_def Y_def)
  have q24: "q < 2 ^ 24" using q(1) by simp
  have "?T < 2 ^ 24 * 256 ^ (e - 3)" using q24 by simp
  also have "\<dots> \<le> 2 ^ 24 * 256 ^ 29" using e(3) by (intro mult_left_mono power_increasing) simp_all
  finally have "real ?T < real (2 ^ 24 * 256 ^ 29)" by (simp only: of_nat_less_iff)
  then have t: "0 < t" "t < 2 ^ 40" using q(2) by (simp_all add: t_def)
  have Apos: "0 < A" using near(1) by simp
  have Am: "A \<le> A * real m" using m Apos by simp
  have At: "0 < A * t" using Apos t(1) by simp
  have "A * real m \<le> 281800000000000 * mult * 2 ^ 32"
    using near(2) Apos \<open>m < 2 ^ 32\<close> by (intro mult_mono) simp_all
  then have Xr: "0 \<le> X" "X < 2 ^ 64" using near(3,4) mult Am Apos by simp_all
  have "A * t \<le> 281800000000000 * mult * 2 ^ 40"
    using near(2) Apos t by (intro mult_mono) simp_all
  then have Yr: "0 \<le> Y" "Y < 2 ^ 64" using near(5,6) mult At by simp_all
  have "rnd F (0xffff0000 / real m) \<noteq> 0" using rounds_pos [OF F, of "0xffff0000 / real m"] m by simp
  then have hash_int: "equi_hash_int F mult hash_bin = to_u64 F X"
    using word m by (simp add: equi_hash_int_def diff_to_target_def target_to_diff_equi_def Let_def X_def A_def)
      (auto simp: unat_eq_0 [symmetric] simp del: unat_eq_0)
  have "drop_bit 24 bits AND 0xff = take_bit 8 (drop_bit 24 bits)"
    by (simp add: take_bit_eq_mask mask_eq_exp_minus_1)
  also have "\<dots> = drop_bit 24 bits"
    by (rule bit_word_eqI) (auto simp: bit_take_bit_iff bit_drop_bit_eq dest: bit_imp_le_length)
  finally have drop: "unat (drop_bit 24 bits AND 0xff) = e" using e(1) by simp
  have "bits AND 0x00ffffff = take_bit 24 bits"
    by (simp add: take_bit_eq_mask mask_eq_exp_minus_1)
  moreover have "unat (take_bit 24 bits) = unat bits mod 2 ^ 24"
    unfolding unsigned_take_bit_eq by (rule take_bit_eq_mod)
  ultimately have mant: "unat (bits AND 0x00ffffff) = q" using q(1) by (simp only:)
  have vals: "unat (drop_bit 24 (0x200f0f0f :: u32) AND 0xff) = 32" "unat ((0x200f0f0f :: u32) AND 0x00ffffff) = 986895"
    by (simp_all add: drop_bit_eq_div)
  have nbits: "nbits_to_diff_equi F bits = scale_up F (32 - e) (rnd F (986895 / real q))"
    using e(3) unfolding nbits_to_diff_equi_def Let_def drop mant vals by (simp add: shift_diff_def)
  have "0 < scale_up F (32 - e) (rnd F (986895 / real q))"
  proof -
    have "0 < rnd F (986895 / real q)" using rounds_pos [OF F] q(2) by simp
    moreover have "32 - e \<le> 29" using e(2) by simp
    ultimately have "97 / 100 * (256 ^ (32 - e) * rnd F (986895 / real q)) \<le> scale_up F (32 - e) (rnd F (986895 / real q))"
      and "0 < 256 ^ (32 - e) * rnd F (986895 / real q)"
      using scale_up_near(1) [OF F] by simp_all
    then show ?thesis by linarith
  qed
  then have coin: "equi_coin_target F mult bits = to_u64 F Y"
    unfolding equi_coin_target_def diff_to_target_def nbits by (simp add: Y_def A_def)
  have le: "equi_hash_int F mult hash_bin \<le> equi_coin_target F mult bits \<longleftrightarrow> nat \<lfloor>X\<rfloor> \<le> nat \<lfloor>Y\<rfloor>"
    unfolding word_le_nat_alt hash_int coin by (simp only: unat_to_u64 Xr Yr)
  show "h \<le> q * 256 ^ (e - 3)" if "equi_hash_int F mult hash_bin \<le> equi_coin_target F mult bits"
  proof -
    have "\<lfloor>X\<rfloor> \<le> \<lfloor>Y\<rfloor>" using that le Yr(1) by (simp add: nat_le_eq_zle)
    then have "X < Y + 1" by linarith
    then have "2323 / 10 ^ 13 * (A * real m) < 1599 / 10 ^ 14 * (A * t) + 1" using near(3,6) by linarith
    then have "A * real m + A \<le> A * t" using near(1) Am by (intro equi_margin)
    then have "A * (real m + 1) \<le> A * t" by (simp add: distrib_left)
    then have "real m + 1 \<le> t" using Apos by simp
    then have "real (m + 1) * 2 ^ 216 \<le> real ?T" unfolding t_def by (simp add: le_divide_eq)
    moreover have "real h < real ((m + 1) * 2 ^ 216)" using hm by (simp only: of_nat_less_iff)
    ultimately have "real h \<le> real ?T" by simp
    then show ?thesis by (simp only: of_nat_le_iff)
  qed
  show "equi_coin_target F mult bits < equi_hash_int F mult hash_bin" if T: "q * 256 ^ (e - 3) \<le> 4 * h"
  proof -
    have "h \<le> 2 * m * 2 ^ 216" using hm m by simp
    then have "?T \<le> 8 * m * 2 ^ 216" using T by linarith
    then have "real ?T \<le> real (8 * m * 2 ^ 216)" by (simp only: of_nat_le_iff)
    then have "t \<le> 8 * real m" unfolding t_def by (simp add: divide_le_eq)
    then have "A * t \<le> A * (8 * real m)" using Apos by (intro mult_left_mono) simp_all
    then have "Y + 1 \<le> X" using near(1,3,6) Am by (intro equi_margin_strict [of A "A * real m" "A * t"]) simp_all
    then have "\<lfloor>Y\<rfloor> < \<lfloor>X\<rfloor>" by linarith
    then have "\<not> nat \<lfloor>X\<rfloor> \<le> nat \<lfloor>Y\<rfloor>" using Yr(1) by (simp add: nat_le_eq_zle)
    then show ?thesis using le by simp
  qed
qed

text \<open>The exact arithmetic, for the examples.\<close>

definition exact_fpu :: fpu where
  "exact_fpu = \<lparr>rnd = (\<lambda>x. x), wild = (\<lambda>_. 0)\<rparr>"

lemma rounds_exact: "rounds exact_fpu"
  by (simp add: rounds_def exact_fpu_def)



text \<open>A difficulty of at most 1 leaves \<open>k\<close> at 6, and \<open>target[k + 2]\<close> is behind the array.\<close>

lemma equi_scale_small: "diff \<le> 1 \<Longrightarrow> equi_scale F 6 diff = (6, diff)"
  by (simp add: numeral_eq_Suc)

lemma to_u64_pos: "1 \<le> x \<Longrightarrow> x < 2 ^ 64 \<Longrightarrow> to_u64 F x \<noteq> 0"
  using unat_to_u64 [of x F] by (auto simp: unat_eq_0 [symmetric] le_nat_floor simp del: unat_eq_0)

lemma length_fill_zeros [simp]: "length (fill_zeros n bs) = length bs"
  by (induction n bs rule: fill_zeros.induct) auto

lemma diff_to_target_equi_large:
  assumes F: "rounds F" and len: "length target = 32" and diff: "1 < diff" "diff \<le> 4000000000"
  shows "\<exists>t. diff_to_target_equi F target diff = Some t \<and> length t = 32"
proof -
  define d where "d = rnd F (diff / 4294967296)"
  have "d \<le> 1" using rounds_upper [OF F, of "diff / 4294967296"] diff by (simp add: d_def)
  then have "equi_scale F 6 diff = (5, d)" using diff by (simp add: numeral_eq_Suc d_def)
  then show ?thesis
    using len by (simp add: diff_to_target_equi_def put_word_def buf_write_def Let_def)
qed

text \<open>
  \<open>diff_to_target_equi\<close> stays inside the eight words of the target for a difficulty between 1
  and about 2^32, and writes the four bytes behind them for any difficulty of at most 1, which
  \<open>client_send_difficulty\<close> and \<open>client_submit_equi\<close> give it for every miner that asks for one.
\<close>

lemma diff_to_target_equi_bounds:
  assumes F: "rounds F" and len: "length target = 32" and diff: "1 / 2 ^ 30 \<le> diff" "diff \<le> 4000000000"
  shows "if diff \<le> 1 then diff_to_target_equi F target diff = None
         else \<exists>t. diff_to_target_equi F target diff = Some t \<and> length t = 32"
proof (cases "diff \<le> 1")
  case True
  define z where "z = 4294901760 / diff"
  have "0 < diff" using diff(1) by (rule less_le_trans [rotated]) simp
  then have z: "4294901760 \<le> z" "z \<le> 4294901760 * 2 ^ 30"
    using diff True by (simp_all add: z_def field_simps)
  then have "1 \<le> rnd F z" "rnd F z < 2 ^ 64"
    using rounds_lower [OF F, of z] rounds_upper [OF F, of z] by simp_all
  then have "1 \<le> rnd F (4294901760 / diff)" "rnd F (4294901760 / diff) < 2 ^ 64" by (simp_all only: z_def)
  then have "to_u64 F (rnd F (4294901760 / diff)) \<noteq> 0" by (rule to_u64_pos)
  then show ?thesis
    using True len by (simp add: diff_to_target_equi_def equi_scale_small put_word_def buf_write_def Let_def)
next
  case False
  then show ?thesis using diff_to_target_equi_large [OF F len] diff(2) by simp
qed

end
