(* ===== verification/Json.thy ===== *)
theory Json
  imports Complex_Main Stratum_Prelude
begin

text \<open>
  JSON values as \<open>json.h\<close> has them, and the accessors of \<open>util.cpp\<close>. The accessors read the union
  \<open>u\<close> of a value without a look at its type; what they find in a value of another type is the one
  of a 64-bit little-endian machine where the parser left the value zeroed, and \<open>None\<close> where it is
  a pointer or a floating-point number read as something else.
\<close>

datatype json =
    J_null
  | J_boolean bool
  | J_integer int
  | J_double real
  | J_string string
  | J_array "json list"
  | J_object "(string \<times> json) list"

type_synonym members = "(string \<times> json) list"

section \<open>The union\<close>

text \<open>The first eight bytes as an integer; strings, arrays and objects have their length there.\<close>

fun u_integer :: "json \<Rightarrow> int option" where
  "u_integer J_null = Some 0"
| "u_integer (J_boolean b) = Some (if b then 1 else 0)"
| "u_integer (J_integer i) = Some i"
| "u_integer (J_double d) = None"
| "u_integer (J_string t) = Some (int (length t))"
| "u_integer (J_array l) = Some (int (length l))"
| "u_integer (J_object ms) = Some (int (length ms))"

definition u_boolean :: "json \<Rightarrow> bool option" where
  "u_boolean j = map_option (\<lambda>i. (of_int i :: u32) \<noteq> 0) (u_integer j)"

text \<open>The pointer to a text, \<open>NULL\<close> in a zeroed value.\<close>

fun u_string :: "json \<Rightarrow> string option option" where
  "u_string (J_string t) = Some (Some t)"
| "u_string (J_array l) = None"
| "u_string (J_object ms) = None"
| "u_string _ = Some None"

text \<open>The members of an object; a value whose length field is zero has none.\<close>

fun u_object :: "json \<Rightarrow> members option" where
  "u_object (J_object ms) = Some ms"
| "u_object (J_double d) = None"
| "u_object j = (if the (u_integer j) = 0 then Some [] else None)"

fun u_array :: "json \<Rightarrow> json list option" where
  "u_array (J_array l) = Some l"
| "u_array (J_double d) = None"
| "u_array j = (if the (u_integer j) = 0 then Some [] else None)"

section \<open>Accessors\<close>

definition json_get_value :: "members \<Rightarrow> string \<Rightarrow> json option" where
  "json_get_value json name = map_of json name"

definition json_get_bool :: "members \<Rightarrow> string \<Rightarrow> bool option" where
  "json_get_bool json name = (case json_get_value json name of None \<Rightarrow> Some False | Some v \<Rightarrow> u_boolean v)"

definition json_get_int :: "members \<Rightarrow> string \<Rightarrow> int option" where
  "json_get_int json name = (case json_get_value json name of None \<Rightarrow> Some 0 | Some v \<Rightarrow> u_integer v)"

definition json_get_string :: "members \<Rightarrow> string \<Rightarrow> string option option" where
  "json_get_string json name = (case json_get_value json name of None \<Rightarrow> Some None | Some v \<Rightarrow> u_string v)"

text \<open>\<open>json_get_array\<close> and \<open>json_get_object\<close> return the value itself, of whatever type.\<close>

definition json_get_array :: "members \<Rightarrow> string \<Rightarrow> json option" where
  "json_get_array json name = json_get_value json name"

definition json_get_object :: "members \<Rightarrow> string \<Rightarrow> json option" where
  "json_get_object json name = json_get_value json name"

end
