(* ===== verification/Stratum_State.thy ===== *)
theory Stratum_State
  imports Difficulty Objects Equihash Merkle Json
begin

text \<open>
  The data of the server: clients, jobs with their templates, daemons, shares, workers, blocks
  (\<open>client.h\<close>, \<open>job.h\<close>, \<open>coind.h\<close>, \<open>share.h\<close>) and the global lists. A list of the server is a
  list of pointers here (\<open>Common_List\<close> shows that the linked lists are such sequences); the
  objects themselves are in a memory indexed by pointers. Only the fields the modelled code uses
  are there.
\<close>

section \<open>Records\<close>

record client = yaamp_object +
  reconnectable :: bool
  reconnecting :: bool
  userid :: int
  workerid :: int
  coinid :: int
  stats :: bool
  reqid :: int
  cl_version :: string
  username :: string
  password :: string
  cl_worker :: string
  donation :: int
  logtraffic :: bool
  sock_ip :: string
  difficulty_written :: real
  notify_id :: string
  difficulty_actual :: real
  difficulty_remote :: real
  difficulty_fixed :: bool
  last_submit_time :: int
  shares_per_minute :: real
  extranonce1 :: string
  extranonce2size :: int
  extranonce1_default :: string
  extranonce2size_default :: int
  extranonce1_last :: string
  extranonce2size_last :: int
  extranonce1_reconnect :: string
  extranonce2size_reconnect :: int
  extranonce_subscribe :: bool
  submit_bad :: int
  speed :: real
  extranonce1_id :: nat
  jobid_next :: int
  jobid_sent :: int
  jobid_locked :: int
  job_history :: "int list"
  cl_shares :: int
  last_best :: int
  algos_subscribed :: "(nat \<times> real) list"
  broadcast_timeouts :: int
  sock_open :: bool

text \<open>\<open>YAAMP_JOB_TEMPLATE\<close>; \<open>txcount\<close> counts the coinbase, \<open>txdata\<close> does not.\<close>

record template =
  created_at :: int
  tflags :: string
  tvalue :: int
  claim_hex :: string
  nbits_from_target :: string
  has_filtered_txs :: bool
  filtered_txs_fee :: int
  prevhash_hex :: string
  prevhash_be :: string
  extradata_hex :: string
  extradata_be :: string
  mr_hex :: string
  claim_be :: string
  txcount :: nat
  txmerkles :: string
  txsteps :: "string list"
  txdata :: "string list"
  tversion :: string
  nbits :: string
  ntime_of :: string
  theader :: "u8 list"
  height :: int
  coinb1 :: string
  coinb2 :: string
  coinbase_of :: string
  has_segwit_txs :: bool
  auxs_size :: nat
  auxs :: "nat option list"

record remote = yaamp_object +
  rstatus :: nat
  rconnected :: bool
  rjob :: "nat option"
  renter_balance :: "real option"
  rdifficulty :: real
  price :: real
  rspeed_avg :: real
  rnonce1 :: string
  rnonce2size :: int
  rusername :: string
  rjobid :: string
  submit_last :: "nat option"

record job = yaamp_object +
  block_found :: bool
  jcount :: nat
  jspeed :: real
  maxspeed :: real
  profit :: real
  coind_of :: "nat option"
  remote_of :: "nat option"
  templ :: template
  remote_subids :: "bool list"

record coind = yaamp_object +
  symbol :: string
  symbol2 :: string
  rpcencoding :: string
  algo_of :: string
  enable :: bool
  auto_ready :: bool
  rpc_up :: bool
  cheight :: int
  cdifficulty :: real
  reward :: real
  cprice :: real
  pool_ttf :: int
  actual_ttf :: int
  multialgos :: bool
  cjob :: "nat option"
  isaux :: bool
  chainid :: "32 word"
  aux_index :: nat
  aux_hash :: string
  aux_target :: string
  pos :: bool
  hassubmitblock :: bool
  usegetwork :: bool
  lastnotifyhash :: string
  newblock :: bool
  notreportingcounter :: int
  wallet :: string
  pubkey :: string
  script_pubkey :: string
  p2sh_address :: bool
  txmessage :: bool
  charity_address :: string
  charity_amount :: real
  charity_percent :: real
  reward_mul :: real
  usememorypool :: bool
  hasmasternodes :: bool
  oldmasternodes :: bool
  usesegwit :: bool
  commitment :: string
  witness_magic :: string
  coin_name :: string
  account :: string
  rpc_host :: string
  rpc_port :: int
  rpc_credential :: string
  rpc_cert :: string
  rpc_ssl :: bool
  rpc_curl :: bool
  newcoind :: bool
  touch :: bool

record share = yaamp_object +
  sh_jobid :: int
  sh_extranonce2 :: string
  sh_ntime :: string
  sh_nonce :: string
  sh_nonce1 :: string

record worker = yaamp_object +
  w_userid :: int
  w_workerid :: int
  w_coinid :: int
  w_remoteid :: int
  w_valid :: bool
  w_extranonce1 :: bool
  w_error :: int
  w_ntime :: u32
  w_difficulty :: real
  w_share_diff :: real

record block = yaamp_object +
  b_created :: int
  b_confirmed :: bool
  b_segwit :: bool
  b_userid :: int
  b_workerid :: int
  b_coinid :: int
  b_height :: int
  b_difficulty :: real
  b_difficulty_user :: real
  b_hash :: string
  b_hash1 :: string
  b_hash2 :: string

record submit = yaamp_object +
  su_created :: int
  su_valid :: bool
  su_remoteid :: int
  su_difficulty :: real

text \<open>What goes out on the sockets of the miners, before it is formatted as JSON text.\<close>

datatype message =
    Result string
  | Subscribed real string string int
  | Error int string
  | Set_target string
  | Set_difficulty real
  | Set_extranonce string int
  | Client_reconnect
  | Get_stats
  | Notify string

text \<open>The answer of a daemon to a call is a JSON object; \<open>rpc_call\<close> returns nothing else.\<close>

definition rpc_error :: "members \<Rightarrow> json option" where
  "rpc_error answer = json_get_object answer ''error''"

definition rpc_result :: "members \<Rightarrow> json option" where
  "rpc_result answer = json_get_object answer ''result''"

text \<open>A parameter of a statement for the database.\<close>

datatype sql = Txt string | Num int | Dbl real

text \<open>An entry of \<open>g_algos\<close>; its functions and its multiplier are in the configuration.\<close>

record algo =
  a_name :: string
  a_profit :: real
  a_factor :: real

type_synonym rpc_calls = "(nat \<times> string \<times> string list) list"

text \<open>
  The configuration, the algorithm of the server and what is outside it: its hash functions, the
  floating-point unit, the daemons (the answer to the last of the calls made so far, \<open>None\<close>
  when there is none) and the sockets (whether the last of the messages got through), and the number of bytes the compiler leaves unused after the array
  \<open>bits_str\<close> of five characters.
\<close>

record 's config =
  fpu_of :: fpu
  blake :: "'s blake2b"
  hash_function :: "u8 list \<Rightarrow> u8 list"
  merkle_func :: "(u8 list \<Rightarrow> u8 list) option"
  double_sha :: "u8 list \<Rightarrow> u8 list"
  rpc :: "rpc_calls \<Rightarrow> members option"
  socket_ok :: "(nat \<times> message) list \<Rightarrow> bool"
  atof :: "string \<Rightarrow> real"
  stack64 :: "u8 list"
  bits_slack :: nat
  algo_name :: string
  g_stratum_algo :: string
  diff_multiplier :: real
  g_stratum_reconnect :: bool
  g_allow_rolltime :: bool
  g_autoexchange :: bool
  g_min_diff :: real
  g_max_diff :: real
  g_stratum_difficulty :: real
  g_max_ttf :: int
  g_stratum_segwit :: bool
  g_limit_txs_per_block :: int
  g_stratum_max_cons :: nat
  g_tcp_password :: string
  algo_profit :: real
  target_beyond :: u32
  g_algos :: "algo list"
  rand_at :: "nat \<Rightarrow> u32"
  pid_of :: int

record stratum =
  g_list_client :: "nat list"
  client_at :: "nat \<Rightarrow> client"
  g_list_job :: "nat list"
  job_at :: "nat \<Rightarrow> job"
  g_list_coind :: "nat list"
  coind_at :: "nat \<Rightarrow> coind"
  g_list_remote :: "nat list"
  remote_at :: "nat \<Rightarrow> remote"
  g_list_share :: "share list"
  g_list_worker :: "worker list"
  g_list_block :: "block list"
  g_list_submit :: "submit list"
  g_shares_counter :: u64
  sent :: "(nat \<times> message) list"
  calls :: rpc_calls
  queries :: "(string \<times> sql list) list"
  remote_sent :: "(nat \<times> string list) list"
  timestamp :: int
  g_extraonce1_counter :: u32
  g_job_next_id :: int
  g_last_broadcasted :: int
  algo_overflow :: bool
  rand_calls :: nat
  blocked :: "(string \<times> string) list"

text \<open>\<open>time(NULL)\<close>; the clock counts milliseconds.\<close>

definition time_of :: "stratum \<Rightarrow> int" where
  "time_of s = timestamp s div 1000"

section \<open>Zeroed objects\<close>

text \<open>The objects after \<open>memset\<close>, and the server before it has any.\<close>

definition zero_template :: template where
  "zero_template =
     \<lparr>created_at = 0, tflags = [], tvalue = 0, claim_hex = [], nbits_from_target = [], has_filtered_txs = False,
      filtered_txs_fee = 0, prevhash_hex = [], prevhash_be = [], extradata_hex = [], extradata_be = [], mr_hex = [],
      claim_be = [], txcount = 0, txmerkles = [], txsteps = [], txdata = [], tversion = [], nbits = [],
      ntime_of = [], theader = [], height = 0, coinb1 = [], coinb2 = [], coinbase_of = [],
      has_segwit_txs = False, auxs_size = 0, auxs = replicate 32 None\<rparr>"

definition zero_client :: client where
  "zero_client =
     \<lparr>obj_id = 0, lock_count = 0, unlock = False, deleted = False, reconnectable = False,
      reconnecting = False, userid = 0, workerid = 0, coinid = 0, stats = False, reqid = 0,
      cl_version = [], username = [], password = [], cl_worker = [], donation = 0,
      logtraffic = False, sock_ip = [], difficulty_written = 0, notify_id = [], difficulty_actual = 0,
      difficulty_remote = 0, difficulty_fixed = False, last_submit_time = 0, shares_per_minute = 0,
      extranonce1 = [], extranonce2size = 0, extranonce1_default = [], extranonce2size_default = 0,
      extranonce1_last = [], extranonce2size_last = 0, extranonce1_reconnect = [],
      extranonce2size_reconnect = 0, extranonce_subscribe = False, submit_bad = 0, speed = 0,
      extranonce1_id = 0, jobid_next = 0, jobid_sent = 0, jobid_locked = 0,
      job_history = replicate 16 0, cl_shares = 0, last_best = 0, algos_subscribed = [], broadcast_timeouts = 0, sock_open = False\<rparr>"

definition zero_job :: job where
  "zero_job =
     \<lparr>obj_id = 0, lock_count = 0, unlock = False, deleted = False, block_found = False, jcount = 0,
      jspeed = 0, maxspeed = 0, profit = 0, coind_of = None, remote_of = None, templ = zero_template,
      remote_subids = replicate 200 False\<rparr>"

definition zero_coind :: coind where
  "zero_coind =
     \<lparr>obj_id = 0, lock_count = 0, unlock = False, deleted = False, symbol = [], symbol2 = [],
      rpcencoding = [], algo_of = [], enable = False, auto_ready = False, rpc_up = False, cheight = 0,
      cdifficulty = 0, reward = 0, cprice = 0, pool_ttf = 0, actual_ttf = 0, multialgos = False,
      cjob = None, isaux = False, chainid = 0, aux_index = 0, aux_hash = [], aux_target = [],
      pos = False, hassubmitblock = False, usegetwork = False, lastnotifyhash = [], newblock = False, notreportingcounter = 0,
      wallet = [], pubkey = [], script_pubkey = [], p2sh_address = False, txmessage = False, charity_address = [],
      charity_amount = 0, charity_percent = 0, reward_mul = 0, usememorypool = False, hasmasternodes = False,
      oldmasternodes = False, usesegwit = False, commitment = [], witness_magic = [],
      coin_name = [], account = [], rpc_host = [], rpc_port = 0, rpc_credential = [], rpc_cert = [], rpc_ssl = False,
      rpc_curl = False, newcoind = False, touch = False\<rparr>"

definition zero_remote :: remote where
  "zero_remote =
     \<lparr>obj_id = 0, lock_count = 0, unlock = False, deleted = False, rstatus = 0, rconnected = False,
      rjob = None, renter_balance = None, rdifficulty = 0, price = 0, rspeed_avg = 0, rnonce1 = [],
      rnonce2size = 0, rusername = [], rjobid = [], submit_last = None\<rparr>"

definition empty_stratum :: stratum where
  "empty_stratum =
     \<lparr>g_list_client = [], client_at = (\<lambda>_. zero_client), g_list_job = [],
      job_at = (\<lambda>_. zero_job), g_list_coind = [], coind_at = (\<lambda>_. zero_coind),
      g_list_remote = [], remote_at = (\<lambda>_. zero_remote), g_list_share = [], g_list_worker = [],
      g_list_block = [], g_list_submit = [], g_shares_counter = 0, sent = [], calls = [], queries = [],
      remote_sent = [], timestamp = 0, g_extraonce1_counter = 0, g_job_next_id = 0,
      g_last_broadcasted = 0, algo_overflow = False, rand_calls = 0, blocked = []\<rparr>"

section \<open>Updates\<close>

definition update_client :: "nat \<Rightarrow> (client \<Rightarrow> client) \<Rightarrow> stratum \<Rightarrow> stratum" where
  "update_client c f s = s\<lparr>client_at := (client_at s)(c := f (client_at s c))\<rparr>"

definition update_job :: "nat \<Rightarrow> (job \<Rightarrow> job) \<Rightarrow> stratum \<Rightarrow> stratum" where
  "update_job j f s = s\<lparr>job_at := (job_at s)(j := f (job_at s j))\<rparr>"

definition send :: "nat \<Rightarrow> message \<Rightarrow> stratum \<Rightarrow> stratum" where
  "send c m s = s\<lparr>sent := sent s @ [(c, m)]\<rparr>"

named_theorems state_simps \<open>the fields of an updated state\<close>

lemma update_client_simps [state_simps]:
  "client_at (update_client c f s) d = (if d = c then f (client_at s c) else client_at s d)"
  "g_list_client (update_client c f s) = g_list_client s" "g_list_job (update_client c f s) = g_list_job s"
  "job_at (update_client c f s) = job_at s" "coind_at (update_client c f s) = coind_at s"
  "g_list_share (update_client c f s) = g_list_share s" "g_list_worker (update_client c f s) = g_list_worker s"
  "g_list_block (update_client c f s) = g_list_block s" "sent (update_client c f s) = sent s"
  "remote_at (update_client c f s) = remote_at s" "g_list_coind (update_client c f s) = g_list_coind s"
  "calls (update_client c f s) = calls s" "timestamp (update_client c f s) = timestamp s"
  "g_list_submit (update_client c f s) = g_list_submit s" "remote_sent (update_client c f s) = remote_sent s"
  "g_shares_counter (update_client c f s) = g_shares_counter s" "queries (update_client c f s) = queries s"
  by (simp_all add: update_client_def)

lemma update_job_simps [state_simps]:
  "job_at (update_job j f s) k = (if k = j then f (job_at s j) else job_at s k)"
  "g_list_client (update_job j f s) = g_list_client s" "g_list_job (update_job j f s) = g_list_job s"
  "client_at (update_job j f s) = client_at s" "coind_at (update_job j f s) = coind_at s"
  "g_list_share (update_job j f s) = g_list_share s" "g_list_worker (update_job j f s) = g_list_worker s"
  "g_list_block (update_job j f s) = g_list_block s" "sent (update_job j f s) = sent s"
  "remote_at (update_job j f s) = remote_at s" "g_list_coind (update_job j f s) = g_list_coind s"
  "calls (update_job j f s) = calls s" "timestamp (update_job j f s) = timestamp s"
  "g_list_submit (update_job j f s) = g_list_submit s" "remote_sent (update_job j f s) = remote_sent s"
  "g_shares_counter (update_job j f s) = g_shares_counter s" "queries (update_job j f s) = queries s"
  by (simp_all add: update_job_def)

lemma send_simps [state_simps]:
  "job_at (send c m s) = job_at s" "g_list_job (send c m s) = g_list_job s"
  "g_list_client (send c m s) = g_list_client s" "client_at (send c m s) = client_at s"
  "coind_at (send c m s) = coind_at s" "g_list_share (send c m s) = g_list_share s"
  "g_list_worker (send c m s) = g_list_worker s" "g_list_block (send c m s) = g_list_block s"
  "sent (send c m s) = sent s @ [(c, m)]" "remote_at (send c m s) = remote_at s"
  "calls (send c m s) = calls s" "timestamp (send c m s) = timestamp s"
  "g_list_submit (send c m s) = g_list_submit s" "remote_sent (send c m s) = remote_sent s"
  "g_list_coind (send c m s) = g_list_coind s" "g_shares_counter (send c m s) = g_shares_counter s"
  "queries (send c m s) = queries s"
  by (simp_all add: send_def)

section \<open>Bounded strings\<close>

text \<open>\<open>strcpy\<close> into an array of \<open>n\<close> characters, \<open>strncpy\<close> of \<open>n\<close> characters into a zeroed one.\<close>

definition strcpy_in :: "nat \<Rightarrow> string \<Rightarrow> string option" where
  "strcpy_in n s = (if length s < n then Some s else None)"

definition strncpy_to :: "nat \<Rightarrow> string \<Rightarrow> string" where
  "strncpy_to n s = take n s"

definition lower_char :: "char \<Rightarrow> char" where
  "lower_char c = (let n = of_char c :: nat in if 65 \<le> n \<and> n \<le> 90 then char_of (n + 32) else c)"

definition string_lower :: "string \<Rightarrow> string" where
  "string_lower s = map lower_char s"

text \<open>\<open>sscanf(s, "%x", &v)\<close> into a zeroed unsigned integer: blanks, a sign, \<open>0x\<close> and digits.\<close>

definition scan_hex :: "string \<Rightarrow> u32" where
  "scan_hex s =
     (let s = dropWhile (\<lambda>c. c \<in> {CHR '' '', CHR 0x09, CHR 0x0A, CHR 0x0B, CHR 0x0C, CHR 0x0D}) s;
          negative = (s \<noteq> [] \<and> hd s = CHR ''-'');
          s = (if s \<noteq> [] \<and> (hd s = CHR ''-'' \<or> hd s = CHR ''+'') then tl s else s);
          v = hex_value (takeWhile (\<lambda>c. hex_digit_value c \<noteq> None) (htoi_skip s));
          w = (if v < 2 ^ 64 then of_nat v else -1)
      in if negative then - w else w)"

end
