(* ===== verification/Shares.thy ===== *)
theory Shares
  imports Stratum_State
begin

text \<open>
  \<open>share.cpp\<close>: the shares the duplicate test looks through, the per-worker sums the database
  gets, the blocks waiting for their confirmation, the shares handed on to other pools. A call of \<open>db_query\<close> is
  the list of the rows of its statement.
\<close>

section \<open>Workers\<close>

text \<open>The test of \<open>share_find_worker\<close> for one worker.\<close>

definition worker_matches :: "stratum \<Rightarrow> nat \<Rightarrow> nat option \<Rightarrow> bool \<Rightarrow> worker \<Rightarrow> bool" where
  "worker_matches s c job valid w \<longleftrightarrow>
     \<not> deleted w \<and> w_userid w = userid (client_at s c) \<and> w_workerid w = workerid (client_at s c) \<and>
     w_valid w = valid \<and>
     (case job of
        None \<Rightarrow> w_coinid w = 0 \<and> w_remoteid w = 0
      | Some j \<Rightarrow>
          (case coind_of (job_at s j) of Some k \<Rightarrow> w_coinid w = obj_id (coind_at s k) | None \<Rightarrow> False) \<or>
          (case remote_of (job_at s j) of Some r \<Rightarrow> w_remoteid w = obj_id (remote_at s r) | None \<Rightarrow> False))"

definition share_find_worker :: "stratum \<Rightarrow> nat \<Rightarrow> nat option \<Rightarrow> bool \<Rightarrow> nat option" where
  "share_find_worker s c job valid =
     List.find (\<lambda>i. worker_matches s c job valid (g_list_worker s ! i)) [0..<length (g_list_worker s)]"

definition new_worker :: "'s config \<Rightarrow> stratum \<Rightarrow> nat \<Rightarrow> nat option \<Rightarrow> bool \<Rightarrow> string \<Rightarrow> real \<Rightarrow> int \<Rightarrow> worker" where
  "new_worker cfg s c job valid ntime share_diff error_number =
     (let cl = client_at s c in
      \<lparr>obj_id = 0, lock_count = 0, unlock = False, deleted = False,
       w_userid = userid cl, w_workerid = workerid cl,
       w_coinid = (case job of None \<Rightarrow> 0 | Some j \<Rightarrow>
         (case coind_of (job_at s j) of Some k \<Rightarrow> obj_id (coind_at s k) | None \<Rightarrow> 0)),
       w_remoteid = (case job of None \<Rightarrow> 0 | Some j \<Rightarrow>
         (case remote_of (job_at s j) of Some r \<Rightarrow> obj_id (remote_at s r) | None \<Rightarrow> 0)),
       w_valid = valid,
       w_extranonce1 = (if g_stratum_reconnect cfg
         then \<not> reconnecting cl \<and> (reconnectable cl \<or> extranonce_subscribe cl) else extranonce_subscribe cl),
       w_error = error_number, w_ntime = scan_hex ntime, w_difficulty = 0, w_share_diff = share_diff\<rparr>)"

definition share_add_worker ::
    "'s config \<Rightarrow> nat \<Rightarrow> nat option \<Rightarrow> bool \<Rightarrow> string \<Rightarrow> real \<Rightarrow> int \<Rightarrow> stratum \<Rightarrow> stratum" where
  "share_add_worker cfg c job valid ntime share_diff error_number s =
     (let (i, s) = (case share_find_worker s c job valid of
            Some i \<Rightarrow> (i, s)
          | None \<Rightarrow> (length (g_list_worker s),
              s\<lparr>g_list_worker := g_list_worker s @ [new_worker cfg s c job valid ntime share_diff error_number]\<rparr>));
          r = rnd (fpu_of cfg);
          d = r (difficulty_actual (client_at s c) / diff_multiplier cfg)
      in if valid
         then update_client c (\<lambda>cl. cl\<lparr>speed := r (speed cl + r (d * 42))\<rparr>)
                (s\<lparr>g_list_worker := (g_list_worker s)[i :=
                    (g_list_worker s ! i)\<lparr>w_difficulty := r (w_difficulty (g_list_worker s ! i) + d)\<rparr>]\<rparr>)
         else s)"

section \<open>Shares\<close>

text \<open>The arrays of \<open>YAAMP_SHARE\<close> have 64, 32, 64 and 64 characters; the copies are unchecked.\<close>

definition share_add ::
    "'s config \<Rightarrow> nat \<Rightarrow> nat option \<Rightarrow> bool \<Rightarrow> string \<Rightarrow> string \<Rightarrow> string \<Rightarrow> real \<Rightarrow> int \<Rightarrow> stratum \<Rightarrow> stratum option" where
  "share_add cfg c job valid extranonce2 ntime nonce share_diff error_number s = do {
     s \<leftarrow> Some (s\<lparr>g_shares_counter := g_shares_counter s + 1\<rparr>);
     s \<leftarrow> Some (share_add_worker cfg c job valid ntime share_diff error_number s);
     e2 \<leftarrow> strcpy_in 64 extranonce2;
     nt \<leftarrow> strcpy_in 32 ntime;
     no \<leftarrow> strcpy_in 64 nonce;
     n1 \<leftarrow> strcpy_in 64 (extranonce1 (client_at s c));
     Some (s\<lparr>g_list_share := g_list_share s @
       [\<lparr>obj_id = 0, lock_count = 0, unlock = False, deleted = False,
         sh_jobid = (case job of None \<Rightarrow> 0 | Some j \<Rightarrow> obj_id (job_at s j)),
         sh_extranonce2 = e2, sh_ntime = nt, sh_nonce = no, sh_nonce1 = n1\<rparr>]\<rparr>)
   }"

definition share_find :: "int \<Rightarrow> string \<Rightarrow> string \<Rightarrow> string \<Rightarrow> string \<Rightarrow> stratum \<Rightarrow> share option" where
  "share_find jobid extranonce2 ntime nonce nonce1 s =
     List.find (\<lambda>sh. \<not> deleted sh \<and> sh_jobid sh = jobid \<and> sh_extranonce2 sh = extranonce2 \<and> sh_ntime sh = ntime \<and>
       sh_nonce sh = nonce \<and> sh_nonce1 sh = nonce1) (g_list_share s)"

definition share_prune :: "stratum \<Rightarrow> stratum" where
  "share_prune s = s\<lparr>g_list_share := map (\<lambda>sh.
       if deleted sh then sh
       else if \<exists>j \<in> set (g_list_job s). obj_id (job_at s j) = sh_jobid sh then sh
       else sh\<lparr>deleted := True\<rparr>) (g_list_share s)\<rparr>"

section \<open>Writing the workers to the database\<close>

record share_row =
  r_userid :: int
  r_workerid :: int
  r_coinid :: int
  r_jobid :: int
  r_valid :: bool
  r_extranonce1 :: bool
  r_difficulty :: real
  r_share_diff :: real
  r_time :: int
  r_error :: int

definition share_row_of :: "int \<Rightarrow> worker \<Rightarrow> share_row" where
  "share_row_of now w =
     \<lparr>r_userid = w_userid w, r_workerid = w_workerid w, r_coinid = w_coinid w, r_jobid = w_remoteid w,
      r_valid = w_valid w, r_extranonce1 = w_extranonce1 w, r_difficulty = w_difficulty w,
      r_share_diff = w_share_diff w, r_time = now, r_error = w_error w\<rparr>"

text \<open>The loop of \<open>share_write\<close>: the rows in the buffer, the statements done, the workers left.\<close>

fun share_write_loop :: "int \<Rightarrow> worker list \<Rightarrow> share_row list \<Rightarrow> share_row list list \<times> worker list" where
  "share_write_loop now [] buffer = (if buffer \<noteq> [] then [buffer] else [], [])"
| "share_write_loop now (w # ws) buffer =
     (if deleted w then map_prod id ((#) w) (share_write_loop now ws buffer)
      else if w_workerid w = 0 then map_prod id ((#) (w\<lparr>deleted := True\<rparr>)) (share_write_loop now ws buffer)
      else (let buffer = buffer @ [share_row_of now w]
            in if 1000 \<le> length buffer
               then map_prod ((#) buffer) ((#) (w\<lparr>deleted := True\<rparr>)) (share_write_loop now ws [])
               else map_prod id ((#) (w\<lparr>deleted := True\<rparr>)) (share_write_loop now ws buffer)))"

definition share_write :: "stratum \<Rightarrow> share_row list list \<times> stratum" where
  "share_write s =
     (let (queries, ws) = share_write_loop (time_of s) (g_list_worker s) [] in (queries, s\<lparr>g_list_worker := ws\<rparr>))"

section \<open>Calls to the daemons\<close>

definition rpc_call :: "'s config \<Rightarrow> nat \<Rightarrow> string \<Rightarrow> string list \<Rightarrow> stratum \<Rightarrow> members option \<times> stratum" where
  "rpc_call cfg k method params s =
     (let l = calls s @ [(k, method, params)] in (rpc cfg l, s\<lparr>calls := l\<rparr>))"

text \<open>\<open>json_get_object(json, "result")\<close> and a text field of it.\<close>

definition result_field :: "members option \<Rightarrow> string \<Rightarrow> string option" where
  "result_field answer name =
     (case answer of None \<Rightarrow> None
      | Some a \<Rightarrow> (case rpc_result a of
            Some (J_object ms) \<Rightarrow> (case json_get_string ms name of Some t \<Rightarrow> t | None \<Rightarrow> None) | _ \<Rightarrow> None))"

section \<open>Blocks\<close>

definition block_add ::
    "int \<Rightarrow> int \<Rightarrow> int \<Rightarrow> int \<Rightarrow> real \<Rightarrow> real \<Rightarrow> string \<Rightarrow> string \<Rightarrow> bool \<Rightarrow> stratum \<Rightarrow> stratum option" where
  "block_add user work coin ht diff diff_user h1 h2 segwit s = do {
     h1 \<leftarrow> strcpy_in 1024 h1;
     h2 \<leftarrow> strcpy_in 1024 h2;
     Some (s\<lparr>g_list_block := g_list_block s @
       [\<lparr>obj_id = 0, lock_count = 0, unlock = False, deleted = False,
         b_created = time_of s, b_confirmed = False, b_segwit = segwit, b_userid = user, b_workerid = work,
         b_coinid = coin, b_height = ht, b_difficulty = diff, b_difficulty_user = diff_user,
         b_hash = [], b_hash1 = h1, b_hash2 = h2\<rparr>]\<rparr>)
   }"

fun confirm_first :: "int \<Rightarrow> string \<Rightarrow> string \<Rightarrow> block list \<Rightarrow> bool \<times> block list" where
  "confirm_first coin hash blockhash [] = (False, [])"
| "confirm_first coin hash blockhash (b # bs) =
     (if b_coinid b = coin \<and> \<not> deleted b \<and> (b_hash1 b = hash \<or> b_hash2 b = hash)
      then (True, (if b_confirmed b then b else b\<lparr>b_hash := strncpy_to 65 blockhash, b_confirmed := True\<rparr>) # bs)
      else map_prod id ((#) b) (confirm_first coin hash blockhash bs))"

text \<open>The daemon is asked for the hash of the block when its coin does not identify blocks by it.\<close>

definition pow_hash_of :: "coind \<Rightarrow> members option \<Rightarrow> string option" where
  "pow_hash_of k answer =
     (if multialgos k
      then (case result_field answer ''pow_hash'' of Some h \<Rightarrow> Some h
            | None \<Rightarrow> (case result_field answer ''mined_hash'' of Some h \<Rightarrow> Some h
                      | None \<Rightarrow> result_field answer ''phash''))
      else result_field answer ''proofhash'')"

definition block_confirm :: "'s config \<Rightarrow> int \<Rightarrow> string \<Rightarrow> stratum \<Rightarrow> (bool \<times> stratum) option" where
  "block_confirm cfg coin blockhash s =
     (if length blockhash < 64 then Some (False, s)
      else do {
        (hash, s) \<leftarrow>
          (case List.find (\<lambda>k. obj_id (coind_at s k) = coin \<and> \<not> deleted (coind_at s k) \<and>
                             (multialgos (coind_at s k) \<or> symbol (coind_at s k) = ''ORB'')) (g_list_coind s) of
             None \<Rightarrow> Some (take 160 blockhash, s)
           | Some k \<Rightarrow> do {
               strcpy_in 192 ([CHR ''['', CHR 0x22] @ blockhash @ [CHR 0x22, CHR '']'']);
               let (answer, s) = rpc_call cfg k ''getblock'' [blockhash] s;
               Some (take 160 (case pow_hash_of (coind_at s k) answer of Some h \<Rightarrow> h | None \<Rightarrow> blockhash), s)
             });
        let (b, bs) = confirm_first coin hash blockhash (g_list_block s);
        Some (b, s\<lparr>g_list_block := bs\<rparr>)
      })"

definition block_prune :: "'s config \<Rightarrow> stratum \<Rightarrow> block list \<times> stratum" where
  "block_prune cfg s =
     (filter b_confirmed (g_list_block s),
      s\<lparr>g_list_block := map (\<lambda>b.
          if \<not> b_confirmed b
          then (let elapsed = (if g_stratum_algo cfg = ''decred'' then 60 * 15 else 30)
                in if b_created b + elapsed < time_of s then b\<lparr>deleted := True\<rparr> else b)
          else b\<lparr>deleted := True\<rparr>) (g_list_block s)\<rparr>)"

section \<open>Submissions to the remotes\<close>

text \<open>\<open>submit_add\<close> returns the new submission, its index in the list here.\<close>

definition submit_add :: "'s config \<Rightarrow> int \<Rightarrow> real \<Rightarrow> stratum \<Rightarrow> nat \<times> stratum" where
  "submit_add cfg remoteid difficulty s =
     (length (g_list_submit s),
      s\<lparr>g_list_submit := g_list_submit s @
        [\<lparr>obj_id = 0, lock_count = 0, unlock = False, deleted = False, su_created = time_of s, su_valid = True,
          su_remoteid = remoteid, su_difficulty = rnd (fpu_of cfg) (difficulty / diff_multiplier cfg)\<rparr>]\<rparr>)"

fun submit_prune_loop :: "submit list \<Rightarrow> submit list \<Rightarrow> submit list list \<times> submit list" where
  "submit_prune_loop [] buffer = (if buffer \<noteq> [] then [buffer] else [], [])"
| "submit_prune_loop (w # ws) buffer =
     (let buffer = buffer @ [w]
      in if 1000 \<le> length buffer
         then map_prod ((#) buffer) ((#) (w\<lparr>deleted := True\<rparr>)) (submit_prune_loop ws [])
         else map_prod id ((#) (w\<lparr>deleted := True\<rparr>)) (submit_prune_loop ws buffer))"

definition submit_prune :: "stratum \<Rightarrow> submit list list \<times> stratum" where
  "submit_prune s =
     (let (queries, ws) = submit_prune_loop (g_list_submit s) [] in (queries, s\<lparr>g_list_submit := ws\<rparr>))"

section \<open>Writing out the workers\<close>

lemma share_add_worker_simps [simp]:
  "g_list_share (share_add_worker cfg c job valid nt d e s) = g_list_share s"
  "g_list_job (share_add_worker cfg c job valid nt d e s) = g_list_job s"
  "job_at (share_add_worker cfg c job valid nt d e s) = job_at s"
  "g_list_client (share_add_worker cfg c job valid nt d e s) = g_list_client s"
  "sent (share_add_worker cfg c job valid nt d e s) = sent s"
  "coind_at (share_add_worker cfg c job valid nt d e s) = coind_at s"
  "g_list_block (share_add_worker cfg c job valid nt d e s) = g_list_block s"
  "extranonce1 (client_at (share_add_worker cfg c job valid nt d e s) k) = extranonce1 (client_at s k)"
  "submit_bad (client_at (share_add_worker cfg c job valid nt d e s) k) = submit_bad (client_at s k)"
  by (simp_all add: share_add_worker_def Let_def state_simps split: option.splits)

definition reportable :: "worker \<Rightarrow> bool" where
  "reportable w \<longleftrightarrow> \<not> deleted w \<and> w_workerid w \<noteq> 0"

lemma share_write_loop_spec:
  "length buffer < 1000 \<Longrightarrow>
   concat (fst (share_write_loop now ws buffer)) = buffer @ map (share_row_of now) (filter reportable ws) \<and>
   list_all (\<lambda>q. q \<noteq> [] \<and> length q \<le> 1000) (fst (share_write_loop now ws buffer)) \<and>
   list_all deleted (snd (share_write_loop now ws buffer))"
proof (induction ws arbitrary: buffer)
  case (Cons w ws)
  consider "\<not> reportable w" | "reportable w" "length buffer = 999" | "reportable w" "length buffer < 999"
    using Cons.prems by linarith
  then show ?case
  proof cases
    case 1
    then show ?thesis using Cons.IH [OF Cons.prems] by (auto simp: reportable_def)
  next
    case 2
    then show ?thesis using Cons.IH [of "[]"] by (simp add: reportable_def Let_def)
  next
    case 3
    then show ?thesis using Cons.IH [of "buffer @ [share_row_of now w]"] by (simp add: reportable_def Let_def)
  qed
qed auto

lemma share_write_loop_deleted: "list_all deleted ws \<Longrightarrow> fst (share_write_loop now ws []) = []"
  by (induction ws) auto

lemma share_write_parts:
  "fst (share_write s) = fst (share_write_loop (time_of s) (g_list_worker s) [])"
  "g_list_worker (snd (share_write s)) = snd (share_write_loop (time_of s) (g_list_worker s) [])"
  by (simp_all add: share_write_def split: prod.split)

text \<open>
  C16. \<open>share_write\<close> reports every worker that is not deleted and has an id exactly once, in the
  order of the list and in statements of at most a thousand rows, and a second call, without a
  share in between, reports nothing.
\<close>

theorem share_write_reports_once:
  "concat (fst (share_write s)) = map (share_row_of (time_of s)) (filter reportable (g_list_worker s)) \<and>
   list_all (\<lambda>q. q \<noteq> [] \<and> length q \<le> 1000) (fst (share_write s)) \<and>
   fst (share_write (snd (share_write s))) = []"
  using share_write_loop_spec [of "[]" "time_of s" "g_list_worker s"]
  by (simp add: share_write_parts share_write_loop_deleted)

section \<open>Credit\<close>

text \<open>What the live sums credit to the worker \<open>k\<close> of the user \<open>u\<close>.\<close>

definition credit :: "stratum \<Rightarrow> int \<Rightarrow> int \<Rightarrow> real" where
  "credit s u k = sum_list (map w_difficulty
     (filter (\<lambda>w. \<not> deleted w \<and> w_valid w \<and> w_userid w = u \<and> w_workerid w = k) (g_list_worker s)))"

lemma sum_filter_update:
  "i < length xs \<Longrightarrow> P (xs ! i) = P y \<Longrightarrow>
   sum_list (map f (filter P (xs[i := y]))) =
   sum_list (map f (filter P xs)) + (if P y then f y - f (xs ! i) else (0 :: real))"
  by (induction xs arbitrary: i) (auto split: nat.split)

lemma share_find_worker_Some:
  "share_find_worker s c job valid = Some i \<Longrightarrow>
   i < length (g_list_worker s) \<and> worker_matches s c job valid (g_list_worker s ! i)"
  by (auto simp: share_find_worker_def find_Some_iff)


text \<open>A configuration for the examples.\<close>

definition example_config :: "nat config" where
  "example_config =
     \<lparr>fpu_of = exact_fpu, blake = sum_blake2b, hash_function = (\<lambda>bs. replicate 32 0), merkle_func = None,
      double_sha = (\<lambda>bs. replicate 32 0), rpc = (\<lambda>l. None), socket_ok = (\<lambda>l. True), atof = (\<lambda>t. 0), stack64 = replicate 64 0,
      bits_slack = 4, algo_name = ''equihash'', g_stratum_algo = ''equihash'', diff_multiplier = 1,
      g_stratum_reconnect = False, g_allow_rolltime = True, g_autoexchange = True, g_min_diff = 2,
      g_max_diff = 1000, g_stratum_difficulty = 16, g_max_ttf = 1000, g_stratum_segwit = False, g_limit_txs_per_block = 0, g_stratum_max_cons = 1000,
      g_tcp_password = [], algo_profit = 0, target_beyond = 0, g_algos = [], rand_at = (\<lambda>n. 0), pid_of = 1\<rparr>"


section \<open>Duplicates\<close>

lemma find_append:
  "List.find P (xs @ ys) = (case List.find P xs of None \<Rightarrow> List.find P ys | Some x \<Rightarrow> Some x)"
  by (induction xs) auto

text \<open>The arrays of a share are large enough.\<close>

definition share_fits :: "stratum \<Rightarrow> nat \<Rightarrow> string \<Rightarrow> string \<Rightarrow> string \<Rightarrow> bool" where
  "share_fits s c extranonce2 ntime nonce \<longleftrightarrow>
     length extranonce2 < 64 \<and> length ntime < 32 \<and> length nonce < 64 \<and> length (extranonce1 (client_at s c)) < 64"

lemma share_add_Some:
  "share_fits s c e2 nt no \<Longrightarrow> share_add cfg c job valid e2 nt no d e s =
   Some ((share_add_worker cfg c job valid nt d e (s\<lparr>g_shares_counter := g_shares_counter s + 1\<rparr>))
     \<lparr>g_list_share := g_list_share s @
       [\<lparr>obj_id = 0, lock_count = 0, unlock = False, deleted = False,
         sh_jobid = (case job of None \<Rightarrow> 0 | Some j \<Rightarrow> obj_id (job_at s j)),
         sh_extranonce2 = e2, sh_ntime = nt, sh_nonce = no, sh_nonce1 = extranonce1 (client_at s c)\<rparr>]\<rparr>)"
  by (cases job) (simp_all add: share_add_def share_fits_def strcpy_in_def)

lemma share_add_None: "\<not> share_fits s c e2 nt no \<Longrightarrow> share_add cfg c job valid e2 nt no d e s = None"
  by (auto simp: share_add_def share_fits_def strcpy_in_def)

text \<open>
  Once a share has been added, \<open>share_find\<close> finds it, and it finds any other share exactly
  when it found it before; this holds whenever the four texts fit into the arrays of the share,
  and with a longer text, such as the nonce of 64 characters that \<open>client_submit_equi\<close> hands on with
  its errors, the copies run over the end of an array.
\<close>

lemma share_add_then_found:
  "if share_fits s c e2 nt no
   then (\<exists>s'. share_add cfg c (Some j) valid e2 nt no d e s = Some s' \<and>
          (share_find jobid e2' nt' no' n1' s' = None \<longleftrightarrow>
             share_find jobid e2' nt' no' n1' s = None \<and>
             (jobid, e2', nt', no', n1') \<noteq> (obj_id (job_at s j), e2, nt, no, extranonce1 (client_at s c))))
   else share_add cfg c (Some j) valid e2 nt no d e s = None"
  by (auto simp: share_add_Some share_add_None share_find_def find_append split: option.splits)

section \<open>Blocks\<close>

lemma confirm_first_append:
  "\<forall>b\<in>set bs. \<not> (b_coinid b = coin \<and> \<not> deleted b \<and> (b_hash1 b = h \<or> b_hash2 b = h)) \<Longrightarrow>
   confirm_first coin h bh (bs @ bs') = map_prod id ((@) bs) (confirm_first coin h bh bs')"
  by (induction bs) (auto simp: map_prod_def split: prod.splits)



end
