(* ===== verification/Client_Core.thy ===== *)
theory Client_Core
  imports Shares
begin

text \<open>
  \<open>client_core.cpp\<close> and \<open>client_difficulty.cpp\<close>: the identity of a miner, the ring of the jobs it
  has been sent, the order of the client list, and the difficulty the server keeps for it. \<open>c\<close> is
  the client throughout.
\<close>

section \<open>Identity\<close>

text \<open>\<open>"%08x"\<close>\<close>

definition hex8 :: "u32 \<Rightarrow> string" where
  "hex8 w = hexlify (be_bytes 4 (unat w))"

definition get_next_extraonce1 :: "stratum \<Rightarrow> string \<times> stratum" where
  "get_next_extraonce1 s =
     (let n = g_extraonce1_counter s + 1 in (hex8 (n OR 0x81000000), s\<lparr>g_extraonce1_counter := n\<rparr>))"

definition get_random_key :: "u32 \<Rightarrow> u32 \<Rightarrow> u32 \<Rightarrow> u32 \<Rightarrow> string" where
  "get_random_key i1 i2 i3 i4 = hex8 i1 @ hex8 i2 @ hex8 i3 @ hex8 i4"

definition client_find_notify_id :: "string \<Rightarrow> bool \<Rightarrow> stratum \<Rightarrow> nat option" where
  "client_find_notify_id nid recon s =
     (if nid = [] then None
      else List.find (\<lambda>c. reconnecting (client_at s c) = recon \<and> notify_id (client_at s c) = nid) (g_list_client s))"

section \<open>Jobs sent to a client\<close>

definition YAAMP_JOB_MAXHISTORY :: nat where
  "YAAMP_JOB_MAXHISTORY = 16"

definition client_find_job_history :: "client \<Rightarrow> int \<Rightarrow> nat \<Rightarrow> bool" where
  "client_find_job_history cl jobid startat \<longleftrightarrow>
     (\<exists>i \<in> set [startat..<YAAMP_JOB_MAXHISTORY]. job_history cl ! i = jobid)"

definition client_add_job_history :: "int \<Rightarrow> client \<Rightarrow> client" where
  "client_add_job_history jobid cl =
     (if jobid = 0 then cl
      else if client_find_job_history cl jobid 0 then cl
      else cl\<lparr>job_history :=
        (fold (\<lambda>i h. h[i := h ! (i - 1)]) (rev [1..<YAAMP_JOB_MAXHISTORY]) (job_history cl))[0 := jobid]\<rparr>)"

section \<open>Difficulty\<close>

definition YAAMP_SHAREPERSEC :: real where
  "YAAMP_SHAREPERSEC = 10"

definition YAAMP_MINDIFF :: u64 where
  "YAAMP_MINDIFF = 0x0000000080000000"

definition YAAMP_MAXDIFF :: u64 where
  "YAAMP_MAXDIFF = 0x4000000000000000"

definition client_record_difficulty :: "'s config \<Rightarrow> nat \<Rightarrow> stratum \<Rightarrow> stratum" where
  "client_record_difficulty cfg c s =
     (if difficulty_remote (client_at s c) \<noteq> 0
      then update_client c (\<lambda>cl. cl\<lparr>last_submit_time := timestamp s\<rparr>) s
      else (let e = sint (of_int (timestamp s - last_submit_time (client_at s c)) :: 32 word);
                e = (if e < 500 then 500 else e);
                p = 5;
                r = rnd (fpu_of cfg)
            in update_client c (\<lambda>cl. cl\<lparr>
                 shares_per_minute := r (r (r (shares_per_minute cl * of_int (100 - p)) + of_int (60 * 1000 * p div e)) / 100),
                 last_submit_time := timestamp s\<rparr>) s))"

definition target_string :: "'s config \<Rightarrow> real \<Rightarrow> string option" where
  "target_string cfg difficulty = do {
     t \<leftarrow> diff_to_target_equi (fpu_of cfg) (replicate 32 0) difficulty;
     string_be (hexlify t) (replicate 64 CHR 0x00)
   }"

definition client_send_difficulty :: "'s config \<Rightarrow> nat \<Rightarrow> real \<Rightarrow> stratum \<Rightarrow> stratum option" where
  "client_send_difficulty cfg c difficulty s = do {
     s \<leftarrow> Some (update_client c (\<lambda>cl. cl\<lparr>shares_per_minute := YAAMP_SHAREPERSEC\<rparr>) s);
     if algo_name cfg = ''equihash''
     then do { t \<leftarrow> target_string cfg difficulty; Some (send c (Set_target t) s) }
     else Some (send c (Set_difficulty difficulty) s)
   }"

definition normalized :: "'s config \<Rightarrow> real \<Rightarrow> real" where
  "normalized cfg = client_normalize_difficulty (fpu_of cfg) (g_min_diff cfg) (g_max_diff cfg)"

definition allowed_target :: "'s config \<Rightarrow> real \<Rightarrow> bool" where
  "allowed_target cfg difficulty \<longleftrightarrow>
     (let user_target = diff_to_target (fpu_of cfg) (diff_multiplier cfg) difficulty
      in YAAMP_MINDIFF \<le> user_target \<and> user_target \<le> YAAMP_MAXDIFF)"

definition client_change_difficulty :: "'s config \<Rightarrow> nat \<Rightarrow> real \<Rightarrow> stratum \<Rightarrow> stratum option" where
  "client_change_difficulty cfg c difficulty s =
     (if difficulty \<le> 0 then Some s
      else (let difficulty = normalized cfg difficulty
            in if difficulty \<le> 0 then Some s
               else if difficulty = difficulty_actual (client_at s c) then Some s
               else if allowed_target cfg difficulty
               then client_send_difficulty cfg c difficulty
                      (update_client c (\<lambda>cl. cl\<lparr>difficulty_actual := difficulty\<rparr>) s)
               else Some s))"

definition client_adjust_difficulty :: "'s config \<Rightarrow> nat \<Rightarrow> stratum \<Rightarrow> stratum option" where
  "client_adjust_difficulty cfg c s =
     (let cl = client_at s c; r = rnd (fpu_of cfg)
      in if difficulty_remote cl \<noteq> 0 then client_change_difficulty cfg c (difficulty_remote cl) s
         else if 100 < shares_per_minute cl then client_change_difficulty cfg c (r (difficulty_actual cl * 4)) s
         else if difficulty_fixed cl then Some s
         else if 25 < shares_per_minute cl then client_change_difficulty cfg c (r (difficulty_actual cl * 2)) s
         else if 20 < shares_per_minute cl then client_change_difficulty cfg c (r (difficulty_actual cl * (3 / 2))) s
         else if shares_per_minute cl < 5 then client_change_difficulty cfg c (r (difficulty_actual cl / 2)) s
         else Some s)"

text \<open>The password of a miner may ask for a difficulty: \<open>d=\<close>.\<close>

definition client_initialize_difficulty :: "'s config \<Rightarrow> nat \<Rightarrow> stratum \<Rightarrow> stratum" where
  "client_initialize_difficulty cfg c s =
     (case strstr (password (client_at s c)) ''d='' of
        None \<Rightarrow> s
      | Some (_, p) \<Rightarrow>
          if strstr (password (client_at s c)) ''decred='' \<noteq> None then s
          else (let diff = normalized cfg (atof cfg p)
                in if allowed_target cfg diff
                   then update_client c (\<lambda>cl. cl\<lparr>difficulty_actual := diff, difficulty_fixed := True\<rparr>) s
                   else s))"

text \<open>\<open>client_ask\<close> remembers the number of shares as the id of its request.\<close>

definition client_ask_stats :: "nat \<Rightarrow> stratum \<Rightarrow> bool \<times> stratum" where
  "client_ask_stats c s =
     (if \<not> stats (client_at s c) then (False, s)
      else (True, update_client c (\<lambda>cl. cl\<lparr>reqid := cl_shares cl\<rparr>) (send c Get_stats s)))"

section \<open>The order of the clients\<close>

text \<open>The test of \<open>client_sort\<close> for two neighbours of the list.\<close>

definition client_swap :: "'s config \<Rightarrow> stratum \<Rightarrow> nat \<Rightarrow> nat \<Rightarrow> bool" where
  "client_swap cfg s c1 c2 \<longleftrightarrow> rnd (fpu_of cfg) (speed (client_at s c1) * (3 / 2)) < speed (client_at s c2)"

definition client_sort :: "'s config \<Rightarrow> stratum \<Rightarrow> stratum option" where
  "client_sort cfg s = map_option (\<lambda>cs. s\<lparr>g_list_client := cs\<rparr>) (swap_sort_seq (client_swap cfg s) (g_list_client s))"

section \<open>Extranonces\<close>

lemma hex8_inject [simp]: "hex8 v = hex8 w \<longleftrightarrow> v = w"
proof
  assume "hex8 v = hex8 w"
  then have "be_bytes 4 (unat v) = be_bytes 4 (unat w)"
    unfolding hex8_def by (metis binlify_hexlify)
  then have "unat v mod 256 ^ 4 = unat w mod 256 ^ 4" by (metis be_val_be_bytes)
  moreover have "unat v < 256 ^ 4" "unat w < 256 ^ 4" using unsigned_less [of v] unsigned_less [of w] by simp_all
  ultimately show "v = w" by (simp add: word_unat_eq_iff)
qed simp

text \<open>The extranonce of the \<open>n\<close>-th connection, from 0.\<close>

definition nth_extraonce1 :: "nat \<Rightarrow> string" where
  "nth_extraonce1 n = fst (get_next_extraonce1 (((\<lambda>s. snd (get_next_extraonce1 s)) ^^ n) empty_stratum))"

lemma extraonce1_counter:
  "g_extraonce1_counter (((\<lambda>s. snd (get_next_extraonce1 s)) ^^ n) s) = g_extraonce1_counter s + of_nat n"
  by (induction n) (simp_all add: get_next_extraonce1_def Let_def)

lemma nth_extraonce1: "nth_extraonce1 n = hex8 (of_nat (n + 1) OR push_bit 24 (of_nat 0x81))"
proof -
  have "g_extraonce1_counter empty_stratum = 0" by (simp add: empty_stratum_def)
  then have "nth_extraonce1 n = hex8 ((of_nat n + 1) OR 0x81000000)"
    unfolding nth_extraonce1_def using extraonce1_counter [of n empty_stratum]
    by (subst get_next_extraonce1_def) (simp only: Let_def fst_conv add_0)
  then show ?thesis by (simp add: add.commute)
qed

text \<open>
  The extranonces of the first 2^24 - 1 connections are different texts of eight digits; from then on they
  repeat, because the mask \<open>0x81000000\<close> also covers bit 24 of the counter.
\<close>

lemma extraonce1_period:
  assumes "i < 2 ^ 24 - 1" and "j < 2 ^ 24 - 1"
  shows "(nth_extraonce1 i = nth_extraonce1 j \<longleftrightarrow> i = j) \<and> length (nth_extraonce1 i) = 8 \<and>
         nth_extraonce1 (i + 2 ^ 24) = nth_extraonce1 i"
proof (intro conjI)
  have val: "(of_nat (k + 1) :: u32) OR push_bit 24 (of_nat 0x81) = of_nat (k + 1 + 0x81 * 2 ^ 24)"
    if "k < 2 ^ 24 - 1" for k
    using or_exponent [of "k + 1" "0x81"] that by (simp del: of_nat_add of_nat_Suc)
  have "(of_nat (i + 1 + 0x81 * 2 ^ 24) :: u32) = of_nat (j + 1 + 0x81 * 2 ^ 24) \<longleftrightarrow> i = j"
    using assms by (simp add: word_unat_eq_iff unsigned_of_nat take_bit_nat_eq_self del: of_nat_add of_nat_Suc of_nat_mult)
  then show "nth_extraonce1 i = nth_extraonce1 j \<longleftrightarrow> i = j"
    unfolding nth_extraonce1 hex8_inject val [OF assms(1)] val [OF assms(2)] .
  show "length (nth_extraonce1 i) = 8" by (simp add: nth_extraonce1 hex8_def)
  have "(of_nat (i + 2 ^ 24 + 1) :: u32) = of_nat (i + 1) OR push_bit 24 (of_nat 1)"
    using or_exponent [of "i + 1" 1] assms(1) by (simp add: add.commute del: of_nat_add of_nat_Suc)
  moreover have "push_bit 24 (of_nat 1) OR push_bit 24 (of_nat 0x81) = (push_bit 24 (of_nat 0x81) :: u32)" by simp
  ultimately show "nth_extraonce1 (i + 2 ^ 24) = nth_extraonce1 i"
    unfolding nth_extraonce1 by (simp only: or.assoc)
qed

section \<open>The ring of jobs\<close>

lemma shift_history:
  "n < length h \<Longrightarrow> fold (\<lambda>i h. h[i := h ! (i - 1)]) (rev [1..<Suc n]) h = h ! 0 # take n h @ drop (Suc n) h"
proof (induction n arbitrary: h)
  case 0
  then show ?case by (cases h) simp_all
next
  case (Suc n)
  have "rev [1..<Suc (Suc n)] = Suc n # rev [1..<Suc n]" by simp
  then have "fold (\<lambda>i h. h[i := h ! (i - 1)]) (rev [1..<Suc (Suc n)]) h =
      h[Suc n := h ! n] ! 0 # take n (h[Suc n := h ! n]) @ drop (Suc n) (h[Suc n := h ! n])"
    using Suc.IH [of "h[Suc n := h ! n]"] Suc.prems by simp
  also have "drop (Suc n) (h[Suc n := h ! n]) = h ! n # drop (Suc (Suc n)) h"
    using Suc.prems by (simp add: Cons_nth_drop_Suc [symmetric])
  finally show ?case using Suc.prems by (simp add: take_Suc_conv_app_nth)
qed

lemma client_add_job_history_ring:
  assumes "length (job_history cl) = 16" and "jobid \<noteq> 0" and "jobid \<notin> set (job_history cl)"
  shows "job_history (client_add_job_history jobid cl) = jobid # take 15 (job_history cl)"
proof -
  have "\<not> client_find_job_history cl jobid 0"
    using assms(1,3) by (auto simp: client_find_job_history_def YAAMP_JOB_MAXHISTORY_def in_set_conv_nth)
  then show ?thesis
    using shift_history [of 15 "job_history cl"] assms(1,2)
    by (simp add: client_add_job_history_def YAAMP_JOB_MAXHISTORY_def del: upt_Suc upt_rec_numeral)
qed

text \<open>The ring: distinct job ids, the most recent first, padded with zeros.\<close>

definition history_ok :: "int list \<Rightarrow> bool" where
  "history_ok h \<longleftrightarrow> length h = 16 \<and> (\<exists>js. distinct js \<and> 0 \<notin> set js \<and> h = js @ replicate (16 - length js) 0)"

lemma history_ok_zero: "history_ok (job_history zero_client)"
  by (auto simp: history_ok_def zero_client_def intro: exI [of _ "[]"])

text \<open>
  C19. The history of a client keeps its shape: distinct ids, the most recent first, then zeros.
  Adding a job that is not 0 and not there puts it in front of the fifteen latest ones; a job that
  is there, or the id 0, changes nothing; and afterwards the job is found.
\<close>

theorem job_history_ring:
  assumes "history_ok (job_history cl)" and "cl' = client_add_job_history jobid cl"
  shows "history_ok (job_history cl') \<and> (jobid = 0 \<or> client_find_job_history cl' jobid 0) \<and>
    job_history cl' = (if jobid = 0 \<or> jobid \<in> set (job_history cl) then job_history cl
                       else jobid # take 15 (job_history cl))"
proof (cases "jobid = 0 \<or> jobid \<in> set (job_history cl)")
  case True
  have found: "client_find_job_history cl jobid 0 \<longleftrightarrow> jobid \<in> set (job_history cl)"
    using assms(1) by (auto simp: client_find_job_history_def YAAMP_JOB_MAXHISTORY_def in_set_conv_nth history_ok_def)
  then show ?thesis using True assms by (auto simp: client_add_job_history_def)
next
  case False
  have len: "length (job_history cl) = 16" using assms(1) by (simp add: history_ok_def)
  have ring: "job_history cl' = jobid # take 15 (job_history cl)"
    using client_add_job_history_ring [OF len] False assms(2) by simp
  obtain js where js: "distinct js" "0 \<notin> set js" "job_history cl = js @ replicate (16 - length js) 0"
    using assms(1) by (auto simp: history_ok_def)
  have le: "length js \<le> 16" using len js(3) by simp
  have "jobid # take 15 (job_history cl) = (jobid # take 15 js) @ replicate (16 - length (jobid # take 15 js)) 0"
    using js(3) le by (auto simp: min_def)
  moreover have "distinct (jobid # take 15 js)" "0 \<notin> set (jobid # take 15 js)"
    using js False by (auto dest: in_set_takeD)
  ultimately have "history_ok (job_history cl')"
    unfolding ring history_ok_def using len by (intro conjI exI [of _ "jobid # take 15 js"]) simp_all
  moreover have "client_find_job_history cl' jobid 0"
    by (auto simp: client_find_job_history_def ring YAAMP_JOB_MAXHISTORY_def intro: bexI [of _ 0])
  ultimately show ?thesis using ring False by simp
qed

theorem job_history_ring_witness:
  "history_ok (job_history (client_add_job_history 5 zero_client)) \<and>
   (5 = (0 :: int) \<or> client_find_job_history (client_add_job_history 5 zero_client) 5 0)"
  using job_history_ring [OF history_ok_zero refl, of 5] by blast

section \<open>Sorting the clients\<close>

definition has_speed :: "'s config \<Rightarrow> stratum \<Rightarrow> nat \<Rightarrow> bool" where
  "has_speed cfg s c \<longleftrightarrow> rounds (fpu_of cfg) \<and> 0 < speed (client_at s c)"

interpretation client_order:
  swap_order "client_swap cfg s" "\<lambda>c. speed (client_at s c)" "has_speed cfg s" for cfg s
proof
  fix c1 c2
  assume valid: "has_speed cfg s c1" and swap: "client_swap cfg s c1 c2"
  let ?x = "speed (client_at s c1)"
  have "999 / 1000 * (?x * (3 / 2)) \<le> rnd (fpu_of cfg) (?x * (3 / 2))"
    using valid by (intro rounds_lower) (simp_all add: has_speed_def)
  then show "?x < speed (client_at s c2)"
    using valid swap by (simp add: has_speed_def client_swap_def)
qed

lemma client_sort_sorts:
  assumes "\<forall>c\<in>set (g_list_client s). has_speed cfg s c"
  shows "\<exists>cs. client_sort cfg s = Some (s\<lparr>g_list_client := cs\<rparr>) \<and> mset cs = mset (g_list_client s) \<and>
           successively (\<lambda>c1 c2. \<not> client_swap cfg s c1 c2) cs"
  using client_order.swap_sort_seq_sorts [OF assms] by (auto simp: client_sort_def)

section \<open>The difficulty of a client\<close>

definition announcement :: "'s config \<Rightarrow> real \<Rightarrow> message" where
  "announcement cfg d = (if algo_name cfg = ''equihash'' then Set_target (the (target_string cfg d)) else Set_difficulty d)"

lemma normalized_le: "normalized cfg d \<le> g_max_diff cfg"
  by (simp add: normalized_def client_normalize_difficulty_def Let_def)

definition announced :: "'s config \<Rightarrow> nat \<Rightarrow> stratum \<Rightarrow> stratum \<Rightarrow> bool" where
  "announced cfg c s s' \<longleftrightarrow>
     (let d = difficulty_actual (client_at s' c)
      in 0 < d \<and> d \<le> g_max_diff cfg \<and> allowed_target cfg d \<and>
         s' = send c (announcement cfg d)
           (update_client c (\<lambda>cl. cl\<lparr>difficulty_actual := d, shares_per_minute := YAAMP_SHAREPERSEC\<rparr>) s))"

lemma client_change_difficulty_cases:
  "case client_change_difficulty cfg c d s of
     None \<Rightarrow> algo_name cfg = ''equihash'' \<and> target_string cfg (normalized cfg d) = None
   | Some s' \<Rightarrow> s' = s \<or> announced cfg c s s'"
  using normalized_le [of cfg d]
  by (cases "target_string cfg (normalized cfg d)")
     (auto simp: client_change_difficulty_def client_send_difficulty_def announced_def announcement_def Let_def
      state_simps update_client_def send_def)

text \<open>
  C20. The difficulty the server counts with is the one the miner was told. An adjustment either
  changes nothing, or it sends exactly one message with the new difficulty, which is positive, at
  most the configured maximum and has a target in the allowed range, and starts a new count of the
  shares per minute. It only fails where the text of the new target cannot be computed.
\<close>

theorem client_adjust_difficulty_announces:
  "case client_adjust_difficulty cfg c s of
     None \<Rightarrow> algo_name cfg = ''equihash'' \<and> (\<exists>d. target_string cfg d = None)
   | Some s' \<Rightarrow> s' = s \<or> announced cfg c s s'"
proof -
  have "case client_change_difficulty cfg c d s of
     None \<Rightarrow> algo_name cfg = ''equihash'' \<and> (\<exists>d. target_string cfg d = None)
   | Some s' \<Rightarrow> s' = s \<or> announced cfg c s s'" for d
    using client_change_difficulty_cases [where cfg = cfg and c = c and d = d and s = s] by (auto split: option.splits)
  then show ?thesis by (simp add: client_adjust_difficulty_def Let_def)
qed

text \<open>
  Whatever times the submissions come at, the average of the shares per minute stays positive
  and at most 130: no client can drive it up further by submitting faster.
\<close>

lemma shares_per_minute_bounded:
  assumes F: "rounds (fpu_of cfg)" and spm: "0 < shares_per_minute (client_at s c)" "shares_per_minute (client_at s c) \<le> 130"
  shows "0 < shares_per_minute (client_at (client_record_difficulty cfg c s) c) \<and>
         shares_per_minute (client_at (client_record_difficulty cfg c s) c) \<le> 130"
proof (cases "difficulty_remote (client_at s c) = 0")
  case False
  then show ?thesis using spm by (simp add: client_record_difficulty_def state_simps)
next
  case True
  define e where "e = (let e = sint (of_int (timestamp s - last_submit_time (client_at s c)) :: 32 word) in if e < 500 then 500 else e)"
  have "500 \<le> e" by (simp add: e_def Let_def)
  define x where "x = (300000 :: int) div e"
  have x: "0 \<le> x" "x \<le> 600"
  proof -
    show "0 \<le> x" using \<open>500 \<le> e\<close> by (simp add: x_def pos_imp_zdiv_nonneg_iff)
    have "x \<le> 300000 div 500" unfolding x_def using \<open>500 \<le> e\<close> by (intro zdiv_mono2) simp_all
    then show "x \<le> 600" by simp
  qed
  let ?r = "rnd (fpu_of cfg)"
  define a where "a = ?r (shares_per_minute (client_at s c) * 95)"
  have a: "0 < a" "a \<le> 1001 / 1000 * (130 * 95)"
    using spm rounds_pos [OF F, of "shares_per_minute (client_at s c) * 95"]
      rounds_upper [OF F, of "shares_per_minute (client_at s c) * 95"] by (simp_all add: a_def)
  define b where "b = ?r (a + of_int x)"
  have b: "0 < b" "b \<le> 1001 / 1000 * (1001 / 1000 * (130 * 95) + 600)"
    using a x rounds_pos [OF F, of "a + of_int x"] rounds_upper [OF F, of "a + of_int x"]
    by (simp_all add: b_def add_pos_nonneg)
  have "0 < ?r (b / 100)" "?r (b / 100) \<le> 1001 / 1000 * (b / 100)"
    using b rounds_pos [OF F, of "b / 100"] rounds_upper [OF F, of "b / 100"] by simp_all
  moreover have "shares_per_minute (client_at (client_record_difficulty cfg c s) c) = ?r (b / 100)"
    using True by (simp add: client_record_difficulty_def state_simps Let_def a_def b_def x_def e_def)
  ultimately show ?thesis using b(2) by simp
qed

end
