(* ===== verification/Jobs.thy ===== *)
theory Jobs
  imports Client_Core
begin

text \<open>
  \<open>job_core.cpp\<close>, \<open>job.cpp\<close>, \<open>job_send.cpp\<close> and what they need of \<open>coind.cpp\<close> and \<open>remote.cpp\<close>:
  which coins and remote pools can be mined, in which order the jobs are served, which job each
  client is assigned, and the messages that carry the jobs.
\<close>

section \<open>Jobs that can be mined\<close>

definition coind_can_mine :: "stratum \<Rightarrow> nat \<Rightarrow> bool \<Rightarrow> bool" where
  "coind_can_mine s k aux \<longleftrightarrow>
     (let d = coind_at s k
      in \<not> deleted d \<and> enable d \<and> auto_ready d \<and> rpc_up d \<and> cheight d \<noteq> 0 \<and> cdifficulty d \<noteq> 0 \<and> isaux d = aux)"

definition YAAMP_REMOTE_READY :: nat where
  "YAAMP_REMOTE_READY = 4"

definition remote_can_mine :: "stratum \<Rightarrow> nat \<Rightarrow> bool" where
  "remote_can_mine s r \<longleftrightarrow>
     (let m = remote_at s r
      in \<not> deleted m \<and> rconnected m \<and> rjob m \<noteq> None \<and> rstatus m = YAAMP_REMOTE_READY \<and>
         (case renter_balance m of None \<Rightarrow> True | Some b \<Rightarrow> 0 < b))"

definition job_can_mine :: "stratum \<Rightarrow> nat \<Rightarrow> bool" where
  "job_can_mine s j \<longleftrightarrow>
     \<not> deleted (job_at s j) \<and>
     (case remote_of (job_at s j) of
        Some r \<Rightarrow> remote_can_mine s r
      | None \<Rightarrow> (case coind_of (job_at s j) of Some k \<Rightarrow> coind_can_mine s k False | None \<Rightarrow> False))"

text \<open>
  A coin that is mined on its own also earns the auxiliary coins; these are not expanded further,
  because \<open>coind_can_mine\<close> has only let them through with \<open>isaux\<close>.
\<close>

definition coind_own_profit :: "'s config \<Rightarrow> coind \<Rightarrow> real" where
  "coind_own_profit cfg d =
     (let r = rnd (fpu_of cfg); prof = r (r (r (20116.56761169 / cdifficulty d) * reward d) * cprice d)
      in if algo_name cfg = ''sha256'' then r (prof * 1000) else prof)"

definition coind_aux_profit :: "'s config \<Rightarrow> coind \<Rightarrow> real" where
  "coind_aux_profit cfg d =
     (if cdifficulty d = 0 then 0 else if g_max_ttf cfg < pool_ttf d then 0 else coind_own_profit cfg d)"

definition coind_profitability :: "'s config \<Rightarrow> stratum \<Rightarrow> nat \<Rightarrow> real" where
  "coind_profitability cfg s k =
     (let d = coind_at s k
      in if cdifficulty d = 0 then 0
         else if g_max_ttf cfg < pool_ttf d then 0
         else if \<not> isaux d \<and> \<not> pos d
         then fold (\<lambda>a prof. if coind_can_mine s a True
                             then rnd (fpu_of cfg) (prof + coind_aux_profit cfg (coind_at s a)) else prof)
                (g_list_coind s) (coind_own_profit cfg d)
         else coind_own_profit cfg d)"

definition coind_nethash :: "'s config \<Rightarrow> coind \<Rightarrow> real" where
  "coind_nethash cfg d =
     (let r = rnd (fpu_of cfg)
      in r (r (r (cdifficulty d * 0x100000000) / 1000000) / of_int (max (min (actual_ttf d) 60) 30)))"

section \<open>Orders\<close>

definition job_swap :: "stratum \<Rightarrow> nat \<Rightarrow> nat \<Rightarrow> bool" where
  "job_swap s j1 j2 \<longleftrightarrow> profit (job_at s j1) < profit (job_at s j2)"

definition job_sort :: "stratum \<Rightarrow> stratum option" where
  "job_sort s = map_option (\<lambda>js. s\<lparr>g_list_job := js\<rparr>) (swap_sort_seq (job_swap s) (g_list_job s))"

definition remote_swap :: "stratum \<Rightarrow> nat \<Rightarrow> nat \<Rightarrow> bool" where
  "remote_swap s r1 r2 \<longleftrightarrow> price (remote_at s r1) < price (remote_at s r2)"

definition remote_sort :: "stratum \<Rightarrow> stratum option" where
  "remote_sort s = map_option (\<lambda>rs. s\<lparr>g_list_remote := rs\<rparr>) (swap_sort_seq (remote_swap s) (g_list_remote s))"

definition coind_swap :: "'s config \<Rightarrow> stratum \<Rightarrow> nat \<Rightarrow> nat \<Rightarrow> bool" where
  "coind_swap cfg s k1 k2 \<longleftrightarrow>
     \<not> deleted (coind_at s k1) \<and> \<not> deleted (coind_at s k2) \<and>
     coind_profitability cfg s k1 < coind_profitability cfg s k2"

definition coind_sort :: "'s config \<Rightarrow> stratum \<Rightarrow> stratum option" where
  "coind_sort cfg s = map_option (\<lambda>ks. s\<lparr>g_list_coind := ks\<rparr>) (swap_sort_seq (coind_swap cfg s) (g_list_coind s))"

section \<open>The clients of a job\<close>

text \<open>A pass over the clients; \<open>skip\<close> is the test before \<open>continue\<close>.\<close>

definition update_clients :: "(client \<Rightarrow> bool) \<Rightarrow> (client \<Rightarrow> client) \<Rightarrow> stratum \<Rightarrow> stratum" where
  "update_clients skip f s =
     fold (\<lambda>c s. if skip (client_at s c) then s else update_client c f s) (g_list_client s) s"

definition job_has_free_client :: "stratum \<Rightarrow> bool" where
  "job_has_free_client s \<longleftrightarrow>
     (\<exists>c \<in> set (g_list_client s). \<not> deleted (client_at s c) \<and> jobid_next (client_at s c) = 0)"

definition job_reset_clients :: "nat option \<Rightarrow> stratum \<Rightarrow> stratum" where
  "job_reset_clients job s =
     update_clients (\<lambda>cl. deleted cl \<or> (case job of None \<Rightarrow> False | Some j \<Rightarrow> obj_id (job_at s j) \<noteq> jobid_next cl))
       (\<lambda>cl. cl\<lparr>jobid_next := 0\<rparr>) s"

definition job_relock_clients :: "int \<Rightarrow> int \<Rightarrow> stratum \<Rightarrow> stratum" where
  "job_relock_clients jobid_old jobid_new s =
     (if jobid_old = 0 \<or> jobid_new = 0 then s
      else update_clients (\<lambda>cl. jobid_locked cl \<noteq> jobid_old) (\<lambda>cl. cl\<lparr>jobid_locked := jobid_new\<rparr>) s)"

definition job_assign_locked_clients :: "'s config \<Rightarrow> nat option \<Rightarrow> stratum \<Rightarrow> stratum" where
  "job_assign_locked_clients cfg job s =
     (case job of None \<Rightarrow> s
      | Some j \<Rightarrow>
          fold (\<lambda>c s. if jobid_locked (client_at s c) \<noteq> obj_id (job_at s j) then s
                      else update_job j (\<lambda>b. b\<lparr>
                             remote_subids := (remote_subids b)[extranonce1_id (client_at s c) := True],
                             jspeed := rnd (fpu_of cfg) (jspeed b + speed (client_at s c)),
                             jcount := jcount b + 1\<rparr>)
                           (update_client c (\<lambda>cl. cl\<lparr>jobid_next := obj_id (job_at s j)\<rparr>) s))
            (g_list_client s) (update_job j (\<lambda>b. b\<lparr>jspeed := 0, jcount := 0\<rparr>) s))"

definition job_unlock_clients :: "nat option \<Rightarrow> stratum \<Rightarrow> stratum" where
  "job_unlock_clients job s =
     update_clients (\<lambda>cl. deleted cl \<or> jobid_locked cl = 0 \<or> jobid_locked cl = jobid_next cl \<or>
         (case job of None \<Rightarrow> False | Some j \<Rightarrow> jobid_locked cl \<noteq> obj_id (job_at s j)))
       (\<lambda>cl. cl\<lparr>jobid_locked := 0\<rparr>) s"

section \<open>Assigning a job to a client\<close>

definition YAAMP_JOB_MAXSUBIDS :: nat where
  "YAAMP_JOB_MAXSUBIDS = 200"

text \<open>
  The part of \<open>job_assign_client\<close> for the job of a remote pool: the return value when it ends
  early, and the changed state.
\<close>

definition assign_remote :: "'s config \<Rightarrow> nat \<Rightarrow> nat \<Rightarrow> nat \<Rightarrow> stratum \<Rightarrow> bool option \<times> stratum" where
  "assign_remote cfg j r c s =
     (let cl = client_at s c; b = job_at s j; m = remote_at s r;
          d = rnd (fpu_of cfg) (rdifficulty m * 4);
          lower = (rdifficulty m < difficulty_actual cl);
          difficulty = (if lower then rdifficulty m
                        else if difficulty_actual cl < rdifficulty m then 0 else difficulty_remote cl)
      in if (if g_stratum_reconnect cfg then \<not> extranonce_subscribe cl \<and> \<not> reconnectable cl
             else \<not> extranonce_subscribe cl) then (Some True, s)
         else if reconnecting cl then (Some True, s)
         else if YAAMP_JOB_MAXSUBIDS \<le> jcount b then (Some False, s)
         else if lower \<and> difficulty_fixed cl then (Some True, s)
         else if lower \<and> d < difficulty_actual cl then (Some True, s)
         else if rnonce2size m = 2
         then (if 0 < jcount b then (Some False, s)
               else (None, update_client c (\<lambda>cl. cl\<lparr>extranonce1 := rnonce1 m, extranonce2size := 2,
                       jobid_locked := obj_id b\<rparr>) s))
         else if obj_id b \<noteq> jobid_sent cl
         then (case (if \<not> remote_subids b ! extranonce1_id cl then Some (extranonce1_id cl)
                     else List.find (\<lambda>i. \<not> remote_subids b ! i) [0..<YAAMP_JOB_MAXSUBIDS]) of
                 None \<Rightarrow> (Some False, s)
               | Some i \<Rightarrow>
                   (None, update_client c (\<lambda>cl. cl\<lparr>extranonce1_id := i,
                            extranonce1 := rnonce1 m @ hex2 (of_nat i), extranonce2size := rnonce2size m - 1,
                            difficulty_remote := difficulty, jobid_locked := obj_id b\<rparr>)
                          (update_job j (\<lambda>b. b\<lparr>remote_subids := (remote_subids b)[i := True]\<rparr>) s)))
         else (None, update_client c (\<lambda>cl. cl\<lparr>jobid_locked := obj_id b\<rparr>) s))"

definition assign_local :: "'s config \<Rightarrow> nat \<Rightarrow> stratum \<Rightarrow> stratum" where
  "assign_local cfg c = update_client c (\<lambda>cl. cl\<lparr>
     extranonce1 := (if algo_name cfg = ''decred'' then replicate 16 CHR ''0'' @ take 8 (extranonce1_default cl)
                     else extranonce1_default cl),
     extranonce2size := extranonce2size_default cl, difficulty_remote := 0, jobid_locked := 0\<rparr>)"

text \<open>The miner is told when its extranonce is another one than the last it was told.\<close>

definition announce_extranonce :: "nat \<Rightarrow> stratum \<Rightarrow> stratum" where
  "announce_extranonce c s =
     (let cl = client_at s c
      in if extranonce1 cl = extranonce1_last cl \<and> extranonce2size cl = extranonce2size_last cl then s
         else if \<not> extranonce_subscribe cl
         then send c Client_reconnect (update_client c (\<lambda>cl. cl\<lparr>
                extranonce1_reconnect := extranonce1 cl, extranonce2size_reconnect := extranonce2size cl,
                extranonce1 := extranonce1_default cl, extranonce2size := extranonce2size_default cl,
                reconnecting := True, lock_count := lock_count cl + 1, unlock := True,
                jobid_sent := jobid_next cl\<rparr>) s)
         else send c (Set_extranonce (extranonce1 cl) (extranonce2size cl)) (update_client c (\<lambda>cl. cl\<lparr>
                extranonce1_last := extranonce1 cl, extranonce2size_last := extranonce2size cl\<rparr>) s))"

definition job_assign_client :: "'s config \<Rightarrow> nat \<Rightarrow> real \<Rightarrow> nat \<Rightarrow> stratum \<Rightarrow> (bool \<times> stratum) option" where
  "job_assign_client cfg j maxhash c s =
     (let cl = client_at s c; b = job_at s j
      in if deleted cl then Some (True, s)
         else if jobid_next cl \<noteq> 0 then Some (True, s)
         else if jobid_locked cl \<noteq> 0 \<and> jobid_locked cl \<noteq> obj_id b then Some (True, s)
         else if client_find_job_history cl (obj_id b) 1 then Some (True, s)
         else if 0 < maxhash \<and> maxhash < rnd (fpu_of cfg) (jspeed b + speed cl) then Some (True, s)
         else do {
           other \<leftarrow> (if \<not> g_autoexchange cfg \<and> 0 \<le> maxhash
                     then map_option (\<lambda>k. coinid cl \<noteq> obj_id (coind_at s k)) (coind_of b) else Some False);
           if other then Some (True, s)
           else (case (case remote_of b of Some r \<Rightarrow> assign_remote cfg j r c s | None \<Rightarrow> (None, assign_local cfg c s)) of
                   (Some ret, s) \<Rightarrow> Some (ret, s)
                 | (None, s) \<Rightarrow>
                     Some (True, announce_extranonce c
                       (update_job j (\<lambda>b. b\<lparr>jspeed := rnd (fpu_of cfg) (jspeed b + speed (client_at s c)),
                                            jcount := jcount b + 1\<rparr>)
                         (update_client c (\<lambda>cl. cl\<lparr>jobid_next := obj_id b\<rparr>) s))))
         })"

text \<open>A loop over the clients that \<open>job_assign_client\<close> may break off.\<close>

fun assign_pass :: "'s config \<Rightarrow> nat \<Rightarrow> real \<Rightarrow> (client \<Rightarrow> bool) \<Rightarrow> nat list \<Rightarrow> stratum \<Rightarrow> stratum option" where
  "assign_pass cfg j maxhash skip [] s = Some s"
| "assign_pass cfg j maxhash skip (c # cs) s =
     (if skip (client_at s c) then assign_pass cfg j maxhash skip cs s
      else do {
        (b, s) \<leftarrow> job_assign_client cfg j maxhash c s;
        if b then assign_pass cfg j maxhash skip cs s else Some s
      })"

definition job_assign_clients :: "'s config \<Rightarrow> nat option \<Rightarrow> real \<Rightarrow> stratum \<Rightarrow> stratum option" where
  "job_assign_clients cfg job maxhash s =
     (case job of None \<Rightarrow> Some s
      | Some j \<Rightarrow> do {
          let pass = (\<lambda>skip s. assign_pass cfg j maxhash skip (g_list_client s) s);
          let i = obj_id (job_at s j);
          s \<leftarrow> Some (update_job j (\<lambda>b. b\<lparr>jspeed := 0, jcount := 0\<rparr>) s);
          s \<leftarrow> pass (\<lambda>cl. jobid_locked cl \<noteq> 0 \<and> jobid_locked cl \<noteq> i) s;
          s \<leftarrow> pass (\<lambda>cl. jobid_sent cl \<noteq> i) s;
          s \<leftarrow> (if remote_of (job_at s j) \<noteq> None then pass (\<lambda>cl. \<not> extranonce_subscribe cl) s else Some s);
          pass (\<lambda>cl. False) s
        })"

text \<open>\<open>job_assign_clients_left\<close>; without the exchange the factor depends on the coin of the client.\<close>

fun assign_left_pass :: "'s config \<Rightarrow> nat \<Rightarrow> nat \<Rightarrow> real \<Rightarrow> nat list \<Rightarrow> stratum \<Rightarrow> stratum option" where
  "assign_left_pass cfg k j factor [] s = Some s"
| "assign_left_pass cfg k j factor (c # cs) s =
     (let factor = (if g_autoexchange cfg then factor
                    else if coinid (client_at s c) = obj_id (coind_at s k) then 100 else 0)
      in if 0 < factor
         then do {
           (b, s) \<leftarrow> job_assign_client cfg j (rnd (fpu_of cfg) (coind_nethash cfg (coind_at s k) * factor)) c s;
           if b then assign_left_pass cfg k j factor cs s else Some s
         }
         else assign_left_pass cfg k j factor cs s)"

fun assign_left :: "'s config \<Rightarrow> real \<Rightarrow> nat list \<Rightarrow> stratum \<Rightarrow> stratum option" where
  "assign_left cfg factor [] s = Some s"
| "assign_left cfg factor (k # ks) s =
     (if \<not> job_has_free_client s then Some s
      else if \<not> coind_can_mine s k False then assign_left cfg factor ks s
      else (case cjob (coind_at s k) of
              None \<Rightarrow> assign_left cfg factor ks s
            | Some j \<Rightarrow> do {
                s \<leftarrow> assign_left_pass cfg k j factor (g_list_client s) s;
                assign_left cfg factor ks s
              }))"

definition job_assign_clients_left :: "'s config \<Rightarrow> real \<Rightarrow> stratum \<Rightarrow> stratum option" where
  "job_assign_clients_left cfg factor s = assign_left cfg factor (g_list_coind s) s"

section \<open>Sorted lists\<close>

interpretation job_order: swap_order "job_swap s" "\<lambda>j. profit (job_at s j)" "\<lambda>_. True" for s
  by unfold_locales (simp add: job_swap_def)

interpretation remote_order: swap_order "remote_swap s" "\<lambda>r. price (remote_at s r)" "\<lambda>_. True" for s
  by unfold_locales (simp add: remote_swap_def)

interpretation coind_order: swap_order "coind_swap cfg s" "coind_profitability cfg s" "\<lambda>_. True" for cfg s
  by unfold_locales (simp add: coind_swap_def)

lemma sorted_by_key:
  "successively (\<lambda>x y. \<not> f x < f y) xs \<Longrightarrow> sorted_wrt (\<lambda>x y. f y \<le> (f x :: real)) xs"
  by (subst (asm) successively_iff_sorted_wrt_strong) (auto simp: not_less)

lemma remote_sort_sorts:
  "\<exists>rs. remote_sort s = Some (s\<lparr>g_list_remote := rs\<rparr>) \<and> mset rs = mset (g_list_remote s) \<and>
     sorted_wrt (\<lambda>r1 r2. price (remote_at s r2) \<le> price (remote_at s r1)) rs"
  using remote_order.swap_sort_seq_sorts [of "g_list_remote s" s]
  by (auto simp: remote_sort_def remote_swap_def dest!: sorted_by_key)

lemma coind_sort_sorts:
  "\<exists>ks. coind_sort cfg s = Some (s\<lparr>g_list_coind := ks\<rparr>) \<and> mset ks = mset (g_list_coind s) \<and>
     successively (\<lambda>k1 k2. \<not> coind_swap cfg s k1 k2) ks"
  using coind_order.swap_sort_seq_sorts [of "g_list_coind s" cfg s] by (auto simp: coind_sort_def)

text \<open>
  C21. \<open>job_sort\<close>, which exchanges two neighbours and calls itself again, ends for every list of jobs; the
  list then holds the same jobs, by falling profit, and the linked list is the sequence the model
  works on.
\<close>

theorem job_sort_terminates_sorted:
  assumes "linked L as" and "contents L as = g_list_job s"
  shows "\<exists>js M bs. job_sort s = Some (s\<lparr>g_list_job := js\<rparr>) \<and> mset js = mset (g_list_job s) \<and>
    sorted_wrt (\<lambda>j1 j2. profit (job_at s j2) \<le> profit (job_at s j1)) js \<and>
    swap_sort (job_swap s) L = Some M \<and> linked M bs \<and> contents M bs = js"
proof -
  obtain js where js: "swap_sort_seq (job_swap s) (g_list_job s) = Some js" "mset js = mset (g_list_job s)"
      "successively (\<lambda>x y. \<not> job_swap s x y) js"
    using job_order.swap_sort_seq_sorts [of "g_list_job s" s] by auto
  then have "sorted_wrt (\<lambda>j1 j2. profit (job_at s j2) \<le> profit (job_at s j1)) js"
    by (auto simp: job_swap_def dest!: sorted_by_key)
  then show ?thesis
    using js swap_sort_refines [OF js(1) assms] by (auto simp: job_sort_def)
qed

theorem job_sort_terminates_sorted_witness:
  "\<exists>js. job_sort (empty_stratum\<lparr>g_list_job := []\<rparr>) = Some (empty_stratum\<lparr>g_list_job := js\<rparr>)"
  using job_sort_terminates_sorted [OF linked_new, of "empty_stratum\<lparr>g_list_job := []\<rparr>"]
  by (auto simp: empty_stratum_def)

section \<open>What an assignment does\<close>

text \<open>The tests of \<open>job_assign_client\<close> before it looks at the pool of the job.\<close>

definition may_take :: "'s config \<Rightarrow> nat \<Rightarrow> real \<Rightarrow> nat \<Rightarrow> stratum \<Rightarrow> bool" where
  "may_take cfg j maxhash c s \<longleftrightarrow>
     \<not> deleted (client_at s c) \<and> jobid_next (client_at s c) = 0 \<and>
     (jobid_locked (client_at s c) = 0 \<or> jobid_locked (client_at s c) = obj_id (job_at s j)) \<and>
     \<not> client_find_job_history (client_at s c) (obj_id (job_at s j)) 1 \<and>
     \<not> (0 < maxhash \<and> maxhash < rnd (fpu_of cfg) (jspeed (job_at s j) + speed (client_at s c)))"

text \<open>
  \<open>job_assign_client\<close> dereferences a null pointer exactly when the exchange is off, the job comes
  from a remote pool and the client passes the tests before: with rented hash power and without
  the exchange the first free miner crashes the server.
\<close>

lemma job_assign_client_crashes_iff:
  "job_assign_client cfg j maxhash c s = None \<longleftrightarrow>
   may_take cfg j maxhash c s \<and> \<not> g_autoexchange cfg \<and> 0 \<le> maxhash \<and> coind_of (job_at s j) = None"
  unfolding job_assign_client_def may_take_def Let_def
  by (cases "coind_of (job_at s j)") (auto split: prod.splits option.splits)

text \<open>One assignment: the client \<open>c\<close> gets the job, and only it and the job change.\<close>

definition assigned_to :: "'s config \<Rightarrow> nat \<Rightarrow> nat \<Rightarrow> stratum \<Rightarrow> stratum \<Rightarrow> bool" where
  "assigned_to cfg j c s s' \<longleftrightarrow>
     g_list_client s' = g_list_client s \<and>
     (\<forall>d. d \<noteq> c \<longrightarrow> client_at s' d = client_at s d) \<and>
     jobid_next (client_at s' c) = obj_id (job_at s j) \<and> speed (client_at s' c) = speed (client_at s c) \<and>
     obj_id (job_at s' j) = obj_id (job_at s j) \<and> jcount (job_at s' j) = jcount (job_at s j) + 1 \<and>
     jspeed (job_at s' j) = rnd (fpu_of cfg) (jspeed (job_at s j) + speed (client_at s c))"

lemma assign_remote_cases:
  "assign_remote cfg j r c s = (res, s') \<Longrightarrow>
   (res \<noteq> None \<and> s' = s) \<or>
   (res = None \<and> g_list_client s' = g_list_client s \<and> (\<forall>d. d \<noteq> c \<longrightarrow> client_at s' d = client_at s d) \<and>
    speed (client_at s' c) = speed (client_at s c) \<and> obj_id (job_at s' j) = obj_id (job_at s j) \<and>
    jcount (job_at s' j) = jcount (job_at s j) \<and> jspeed (job_at s' j) = jspeed (job_at s j))"
  unfolding assign_remote_def Let_def
  by (auto simp: state_simps split: if_splits option.splits)

lemma announce_extranonce_simps:
  "g_list_client (announce_extranonce c s) = g_list_client s" "job_at (announce_extranonce c s) = job_at s"
  "d \<noteq> c \<Longrightarrow> client_at (announce_extranonce c s) d = client_at s d"
  "jobid_next (client_at (announce_extranonce c s) d) = jobid_next (client_at s d)"
  "speed (client_at (announce_extranonce c s) d) = speed (client_at s d)"
  by (simp_all add: announce_extranonce_def Let_def state_simps)

lemma job_assign_client_cases:
  assumes "job_assign_client cfg j maxhash c s = Some (b, s')"
  shows "s' = s \<or> (may_take cfg j maxhash c s \<and> assigned_to cfg j c s s')"
proof (cases "may_take cfg j maxhash c s")
  case False
  then show ?thesis using assms by (auto simp: job_assign_client_def may_take_def Let_def split: if_splits)
next
  case True
  let ?part = "case remote_of (job_at s j) of Some r \<Rightarrow> assign_remote cfg j r c s | None \<Rightarrow> (None, assign_local cfg c s)"
  obtain res t where part: "?part = (res, t)" by (cases ?part)
  have t: "(res \<noteq> None \<and> t = s) \<or>
    (res = None \<and> g_list_client t = g_list_client s \<and> (\<forall>d. d \<noteq> c \<longrightarrow> client_at t d = client_at s d) \<and>
     speed (client_at t c) = speed (client_at s c) \<and> obj_id (job_at t j) = obj_id (job_at s j) \<and>
     jcount (job_at t j) = jcount (job_at s j) \<and> jspeed (job_at t j) = jspeed (job_at s j))"
  proof (cases "remote_of (job_at s j)")
    case None
    then have "res = None" "t = assign_local cfg c s" using part by auto
    then show ?thesis by (simp add: assign_local_def state_simps)
  next
    case (Some r)
    then show ?thesis using part assign_remote_cases [of cfg j r c s res t] by simp
  qed
  let ?t = "announce_extranonce c (update_job j (\<lambda>b. b\<lparr>jspeed := rnd (fpu_of cfg) (jspeed b + speed (client_at t c)),
      jcount := jcount b + 1\<rparr>) (update_client c (\<lambda>cl. cl\<lparr>jobid_next := obj_id (job_at s j)\<rparr>) t))"
  have "s' = s \<or> (res = None \<and> s' = ?t) \<or> (res \<noteq> None \<and> s' = t)"
    using assms True part by (auto simp: job_assign_client_def may_take_def Let_def split: if_splits option.splits bind_splits)
  then show ?thesis
    using True t by (auto simp: assigned_to_def announce_extranonce_simps state_simps)
qed

text \<open>The clients that were free in \<open>s0\<close> and have a job in \<open>s\<close>.\<close>

definition taken :: "stratum \<Rightarrow> stratum \<Rightarrow> nat set" where
  "taken s0 s = {c \<in> set (g_list_client s0). jobid_next (client_at s0 c) = 0 \<and> jobid_next (client_at s c) \<noteq> 0}"

text \<open>What holds after every step of the passes that started in \<open>s0\<close>.\<close>

definition fair_to :: "stratum \<Rightarrow> nat \<Rightarrow> nat \<Rightarrow> stratum \<Rightarrow> bool" where
  "fair_to s0 j c s \<longleftrightarrow>
     jobid_next (client_at s c) = obj_id (job_at s0 j) \<and> speed (client_at s c) = speed (client_at s0 c) \<and>
     \<not> deleted (client_at s0 c) \<and>
     (jobid_locked (client_at s0 c) = 0 \<or> jobid_locked (client_at s0 c) = obj_id (job_at s0 j)) \<and>
     \<not> client_find_job_history (client_at s0 c) (obj_id (job_at s0 j)) 1"

definition assign_inv :: "'s config \<Rightarrow> nat \<Rightarrow> real \<Rightarrow> stratum \<Rightarrow> stratum \<Rightarrow> bool" where
  "assign_inv cfg j maxhash s0 s \<longleftrightarrow>
     g_list_client s = g_list_client s0 \<and> obj_id (job_at s j) = obj_id (job_at s0 j) \<and>
     (\<forall>c. c \<notin> taken s0 s \<longrightarrow> client_at s c = client_at s0 c) \<and> (\<forall>c \<in> taken s0 s. fair_to s0 j c s) \<and>
     jcount (job_at s j) = card (taken s0 s) \<and>
     (rnd (fpu_of cfg) = (\<lambda>x. x) \<longrightarrow> jspeed (job_at s j) = (\<Sum>c\<in>taken s0 s. speed (client_at s0 c))) \<and>
     (0 < maxhash \<longrightarrow> jspeed (job_at s j) \<le> maxhash)"

lemma assign_inv_step:
  assumes inv: "assign_inv cfg j maxhash s0 s" and job: "obj_id (job_at s0 j) \<noteq> 0"
    and c: "c \<in> set (g_list_client s0)" and step: "job_assign_client cfg j maxhash c s = Some (b, s')"
  shows "assign_inv cfg j maxhash s0 s'"
proof (cases "s' = s")
  case False
  then have may: "may_take cfg j maxhash c s" and to: "assigned_to cfg j c s s'"
    using job_assign_client_cases [OF step] by auto
  have notin: "c \<notin> taken s0 s" using may by (simp add: taken_def may_take_def)
  then have same: "client_at s c = client_at s0 c" using inv by (simp add: assign_inv_def)
  have other: "client_at s' d = client_at s d" if "d \<noteq> c" for d using to that by (simp add: assigned_to_def)
  have job_next: "jobid_next (client_at s' c) = obj_id (job_at s0 j)" "jobid_next (client_at s0 c) = 0"
    using to may inv same by (simp_all add: assigned_to_def assign_inv_def may_take_def)
  have taken: "taken s0 s' = insert c (taken s0 s)"
  proof (intro set_eqI iffI)
    fix d
    show "d \<in> insert c (taken s0 s)" if "d \<in> taken s0 s'"
      using that other [of d] by (cases "d = c") (simp_all add: taken_def)
    show "d \<in> taken s0 s'" if "d \<in> insert c (taken s0 s)"
      using that other [of d] job_next c job by (cases "d = c") (auto simp: taken_def)
  qed
  have fair: "fair_to s0 j c s'"
    using to may inv same by (simp add: fair_to_def assigned_to_def may_take_def assign_inv_def)
  have fair_other: "fair_to s0 j d s'" if "d \<in> taken s0 s" for d
  proof -
    have "d \<noteq> c" using that notin by blast
    then show ?thesis using inv that other [of d] by (simp add: fair_to_def assign_inv_def)
  qed
  have "finite (taken s0 s)" by (simp add: taken_def)
  then show ?thesis
    using inv to may notin same other fair fair_other unfolding assign_inv_def taken
    by (auto simp: assigned_to_def may_take_def)
qed (use inv in simp)

lemma assign_inv_pass:
  assumes job: "obj_id (job_at s0 j) \<noteq> 0"
  shows "assign_inv cfg j maxhash s0 s \<Longrightarrow> set cs \<subseteq> set (g_list_client s0) \<Longrightarrow>
    assign_pass cfg j maxhash skip cs s = Some s' \<Longrightarrow> assign_inv cfg j maxhash s0 s'"
proof (induction cs arbitrary: s)
  case (Cons c cs)
  show ?case
  proof (cases "skip (client_at s c)")
    case False
    then obtain b t where t: "job_assign_client cfg j maxhash c s = Some (b, t)"
        "(if b then assign_pass cfg j maxhash skip cs t else Some t) = Some s'"
      using Cons.prems(3) by (auto split: bind_splits)
    have "assign_inv cfg j maxhash s0 t"
      using assign_inv_step [OF Cons.prems(1) job _ t(1)] Cons.prems(2) by simp
    then show ?thesis using Cons.IH [of t] Cons.prems(2) t(2) by (auto split: if_splits)
  qed (use Cons in simp)
qed simp

text \<open>
  C22. After \<open>job_assign_clients\<close> the job counts exactly the clients it was given, its speed is the sum of
  their speeds (in exact arithmetic) and does not exceed the limit of the job, each of them was
  free, alive, not locked to another job and had not been sent the job before its current one, and
  every other client is unchanged, whatever its job is.
\<close>

theorem job_assign_clients_accounts:
  assumes "job_assign_clients cfg (Some j) maxhash s0 = Some s"
    and "obj_id (job_at s0 j) \<noteq> 0"
  shows "jcount (job_at s j) = card (taken s0 s) \<and>
    (rnd (fpu_of cfg) = (\<lambda>x. x) \<longrightarrow> jspeed (job_at s j) = (\<Sum>c\<in>taken s0 s. speed (client_at s0 c))) \<and>
    (0 < maxhash \<longrightarrow> jspeed (job_at s j) \<le> maxhash) \<and>
    (\<forall>c \<in> taken s0 s. fair_to s0 j c s) \<and> (\<forall>c. c \<notin> taken s0 s \<longrightarrow> client_at s c = client_at s0 c)"
proof -
  define s1 where "s1 = update_job j (\<lambda>b. b\<lparr>jspeed := 0, jcount := 0\<rparr>) s0"
  have "taken s0 s1 = {}" by (auto simp: taken_def s1_def state_simps)
  then have inv: "assign_inv cfg j maxhash s0 s1" by (simp add: assign_inv_def s1_def state_simps)
  have pass: "assign_inv cfg j maxhash s0 t'"
    if "assign_inv cfg j maxhash s0 t" "assign_pass cfg j maxhash skip (g_list_client t) t = Some t'" for skip t t'
  proof -
    have "g_list_client t = g_list_client s0" using that(1) by (simp add: assign_inv_def)
    then show ?thesis using assign_inv_pass [OF assms(2) that(1) _ that(2)] by simp
  qed
  obtain f1 f2 f3 f4 a b d where passes: "assign_pass cfg j maxhash f1 (g_list_client s1) s1 = Some a"
      "assign_pass cfg j maxhash f2 (g_list_client a) a = Some b"
      "(if remote_of (job_at b j) \<noteq> None then assign_pass cfg j maxhash f3 (g_list_client b) b else Some b) = Some d"
      "assign_pass cfg j maxhash f4 (g_list_client d) d = Some s"
    using assms(1) unfolding job_assign_clients_def Let_def option.case Option.bind.simps s1_def [symmetric]
    by (elim bind_eq_Some_conv [THEN iffD1, elim_format] exE conjE) blast
  have "assign_inv cfg j maxhash s0 b" using pass [OF pass [OF inv passes(1)] passes(2)] .
  then have "assign_inv cfg j maxhash s0 d" using passes(3) pass by (auto split: if_splits)
  then have "assign_inv cfg j maxhash s0 s" using passes(4) by (rule pass)
  then show ?thesis by (simp add: assign_inv_def)
qed

lemma assign_pass_returns: "g_autoexchange cfg \<Longrightarrow> \<exists>s'. assign_pass cfg j maxhash skip cs s = Some s'"
proof (induction cs arbitrary: s)
  case (Cons c cs)
  obtain b t where "job_assign_client cfg j maxhash c s = Some (b, t)"
    using Cons.prems job_assign_client_crashes_iff [of cfg j maxhash c s]
    by (cases "job_assign_client cfg j maxhash c s") auto
  then show ?case using Cons.IH [OF Cons.prems, of s] Cons.IH [OF Cons.prems, of t] by auto
qed simp

lemma job_assign_clients_returns:
  assumes "g_autoexchange cfg"
  shows "\<exists>s'. job_assign_clients cfg (Some j) maxhash s = Some s'"
proof -
  note R = assign_pass_returns [OF assms, of j maxhash]
  obtain a where a: "assign_pass cfg j maxhash (\<lambda>cl. jobid_locked cl \<noteq> 0 \<and> jobid_locked cl \<noteq> obj_id (job_at s j))
      (g_list_client (update_job j (\<lambda>b. b\<lparr>jspeed := 0, jcount := 0\<rparr>) s)) (update_job j (\<lambda>b. b\<lparr>jspeed := 0, jcount := 0\<rparr>) s) = Some a"
    using R by blast
  obtain b where b: "assign_pass cfg j maxhash (\<lambda>cl. jobid_sent cl \<noteq> obj_id (job_at s j)) (g_list_client a) a = Some b"
    using R by blast
  obtain d where d: "(if remote_of (job_at b j) \<noteq> None
      then assign_pass cfg j maxhash (\<lambda>cl. \<not> extranonce_subscribe cl) (g_list_client b) b else Some b) = Some d"
    using R [of "\<lambda>cl. \<not> extranonce_subscribe cl" "g_list_client b" b]
    by (cases "remote_of (job_at b j) = None") auto
  obtain e where "assign_pass cfg j maxhash (\<lambda>cl. False) (g_list_client d) d = Some e"
    using R by blast
  then show ?thesis
    unfolding job_assign_clients_def Let_def option.case Option.bind.simps a b d by blast
qed

definition example_server :: stratum where
  "example_server = empty_stratum
     \<lparr>g_list_client := [1], client_at := (\<lambda>_. zero_client\<lparr>speed := 3, extranonce1 := ''81000001'',
        extranonce1_default := ''81000001''\<rparr>),
      g_list_job := [1], job_at := (\<lambda>_. zero_job\<lparr>obj_id := 5, coind_of := Some 1\<rparr>)\<rparr>"

theorem job_assign_clients_accounts_witness:
  "\<exists>s. job_assign_clients example_config (Some 1) 10 example_server = Some s \<and>
     jcount (job_at s 1) = card (taken example_server s) \<and> jspeed (job_at s 1) \<le> 10"
proof -
  obtain s where s: "job_assign_clients example_config (Some 1) 10 example_server = Some s"
    using job_assign_clients_returns [of example_config 1 10 example_server] by (auto simp: example_config_def)
  show ?thesis
    using job_assign_clients_accounts [OF s] s by (auto simp: example_server_def)
qed

end
