(* ===== verification/Aux_Chains.thy ===== *)
theory Aux_Chains
  imports Jobs
begin

text \<open>
  \<open>coind_aux.cpp\<close>: the tree of the auxiliary chains of merged mining. Each coin has a slot that
  its chain id determines for a tree of a given size; the tree is doubled until no two coins
  meet; a block of an auxiliary chain carries the branch from its slot to the root.
\<close>

section \<open>Slots\<close>

definition MAX_AUXS :: nat where
  "MAX_AUXS = 32"

text \<open>\<open>1103515245 * chainid\<close> is a product of two \<open>int\<close>s, the rest is computed with 64 bits.\<close>

definition aux_pos :: "u32 \<Rightarrow> nat \<Rightarrow> nat" where
  "aux_pos cid sz = nat ((sint (1103515245 * cid) + 1103515245 * 12345 + 12345) mod int sz)"

definition update_coind :: "nat \<Rightarrow> (coind \<Rightarrow> coind) \<Rightarrow> stratum \<Rightarrow> stratum" where
  "update_coind k f s = s\<lparr>coind_at := (coind_at s)(k := f (coind_at s k))\<rparr>"

text \<open>One attempt with a size: whether it is done, and the state; \<open>None\<close> outside \<open>templ->auxs\<close>.\<close>

fun place_auxs :: "nat \<Rightarrow> nat list \<Rightarrow> stratum \<times> template \<Rightarrow> (bool \<times> stratum \<times> template) option" where
  "place_auxs sz [] (s, t) = Some (True, s, t)"
| "place_auxs sz (k # ks) (s, t) =
     (if \<not> coind_can_mine s k True then place_auxs sz ks (s, t)
      else (let p = aux_pos (chainid (coind_at s k)) sz
            in if MAX_AUXS \<le> p then None
               else if auxs t ! p \<noteq> None
               then Some (False, s, t\<lparr>auxs_size := 0, auxs := replicate MAX_AUXS None\<rparr>)
               else place_auxs sz ks (update_coind k (\<lambda>d. d\<lparr>aux_index := p\<rparr>) s, t\<lparr>auxs := (auxs t)[p := Some k]\<rparr>)))"

text \<open>The loop over the sizes; 2^31 is no \<open>int\<close>, its conversion from \<open>pow\<close> is undefined.\<close>

fun try_sizes :: "nat \<Rightarrow> nat list \<Rightarrow> stratum \<times> template \<Rightarrow> (stratum \<times> template) option" where
  "try_sizes len [] st = Some st"
| "try_sizes len (i # sizes) (s, t) =
     (if 31 \<le> i then None
      else (let t = t\<lparr>auxs_size := 2 ^ i\<rparr>
            in if 2 ^ i < len then try_sizes len sizes (s, t)
               else (case place_auxs (2 ^ i) (g_list_coind s) (s, t) of
                       None \<Rightarrow> None
                     | Some (b, st) \<Rightarrow> if b then Some st else try_sizes len sizes st)))"

definition coind_aux_build_auxs :: "stratum \<Rightarrow> template \<Rightarrow> (stratum \<times> template) option" where
  "coind_aux_build_auxs s t =
     (let len = length (filter (\<lambda>k. coind_can_mine s k True) (g_list_coind s));
          t = t\<lparr>auxs_size := 0, auxs := replicate MAX_AUXS None\<rparr>
      in if len = 0 then Some (s, t) else try_sizes len [0..<MAX_AUXS] (s, t))"

section \<open>Branches\<close>

definition aux_hash_text :: "stratum \<Rightarrow> nat option \<Rightarrow> string option" where
  "aux_hash_text s a =
     (case a of
        Some k \<Rightarrow> map_option (takeWhile (\<lambda>c. c \<noteq> CHR 0x00)) (string_be (aux_hash (coind_at s k)) (replicate 1024 CHR 0x00))
      | None \<Rightarrow> Some (replicate 64 CHR ''0''))"

fun map_opt :: "('a \<Rightarrow> 'b option) \<Rightarrow> 'a list \<Rightarrow> 'b list option" where
  "map_opt f [] = Some []"
| "map_opt f (x # xs) = do { y \<leftarrow> f x; ys \<leftarrow> map_opt f xs; Some (y # ys) }"

definition coind_aux_hashlist :: "stratum \<Rightarrow> nat option list \<Rightarrow> nat \<Rightarrow> string list option" where
  "coind_aux_hashlist s as sz = do { as \<leftarrow> buf_read 0 sz as; map_opt (aux_hash_text s) as }"

text \<open>The \<open>while\<close> loop of \<open>coind_aux_merkle_branch\<close>; an index behind the list is outside the vector.\<close>

function aux_branch_loop :: "(string \<Rightarrow> string option) \<Rightarrow> string list \<Rightarrow> nat \<Rightarrow> string list option" where
  "aux_branch_loop h hashlist index =
     (if 1 < length hashlist then do {
        let sibling = (if odd index then index - 1 else index + 1);
        step \<leftarrow> (if sibling < length hashlist then Some (hashlist ! sibling) else None);
        l \<leftarrow> hash_level h hashlist 0 (length hashlist div 2);
        steps \<leftarrow> aux_branch_loop h l (index div 2);
        Some (step # steps)
      } else Some [])"
  by pat_completeness auto
termination
  by (relation "measure (\<lambda>(h, hashlist, index). length hashlist)") (auto simp: length_hash_level)

declare aux_branch_loop.simps [simp del]

definition coind_aux_merkle_branch :: "'s config \<Rightarrow> stratum \<Rightarrow> nat option list \<Rightarrow> nat \<Rightarrow> nat \<Rightarrow> string list option" where
  "coind_aux_merkle_branch cfg s as sz index = do {
     hashlist \<leftarrow> coind_aux_hashlist s as sz;
     aux_branch_loop (hash_pair (double_sha cfg) (stack64 cfg)) hashlist index
   }"

section \<open>The expected slots\<close>

text \<open>
  The index the auxiliary chains compute themselves, with 32-bit arithmetic and the nonce 0, for
  a tree of height \<open>i\<close>.
\<close>

definition expected_index :: "u32 \<Rightarrow> nat \<Rightarrow> nat" where
  "expected_index cid i = unat (((12345 + cid) * 1103515245 + 12345) :: u32) mod 2 ^ i"

lemma word_affine: "of_int m = a * x + (x :: u32) \<Longrightarrow> (x + c) * a + x = of_int (uint (a * c) + m)"
  by (simp add: ring_distribs mult.commute add.left_commute add.commute)

lemma aux_pos_expected:
  assumes "i \<le> 31"
  shows "aux_pos cid (2 ^ i) = expected_index cid i"
proof -
  let ?p = "1103515245 * cid :: u32"
  have dvd: "(2 :: int) ^ i dvd 2 ^ 32" using assms by (intro le_imp_power_dvd) simp
  have full: "sint ?p mod 2 ^ 32 = uint ?p mod 2 ^ 32"
  proof -
    have "sint ?p = signed_take_bit 31 (uint ?p)" by (simp add: sint_uint)
    moreover have "take_bit 32 (signed_take_bit 31 (uint ?p)) = take_bit 32 (uint ?p)"
      by (simp add: take_bit_signed_take_bit)
    ultimately show ?thesis by (simp only: take_bit_eq_mod)
  qed
  have p: "sint ?p mod 2 ^ i = uint ?p mod 2 ^ i"
    using arg_cong [OF full, of "\<lambda>x. x mod 2 ^ i"] by (simp only: mod_mod_cancel [OF dvd])
  have u: "uint (((12345 + cid) * 1103515245 + 12345) :: u32) = (uint ?p + 1103515245 * 12345 + 12345) mod 2 ^ 32"
  proof -
    have "(of_int (1103515245 * 12345 + 12345) :: u32) = 1103515245 * 12345 + 12345"
      by (simp only: of_int_add of_int_mult of_int_numeral)
    then have "((12345 + cid) * 1103515245 + 12345) = (of_int (uint ?p + (1103515245 * 12345 + 12345)) :: u32)"
      by (rule word_affine)
    moreover have "uint (of_int k :: u32) = k mod 2 ^ 32" for k unfolding uint_word_of_int by simp
    ultimately show ?thesis by (simp only: add.assoc)
  qed
  have "(sint ?p + 1103515245 * 12345 + 12345) mod 2 ^ i = (uint ?p + 1103515245 * 12345 + 12345) mod 2 ^ i"
    using mod_add_cong [OF mod_add_cong [OF p refl] refl] .
  also have "\<dots> = uint (((12345 + cid) * 1103515245 + 12345) :: u32) mod 2 ^ i"
    by (simp only: u mod_mod_cancel [OF dvd])
  finally have "aux_pos cid (2 ^ i) = nat (uint (((12345 + cid) * 1103515245 + 12345) :: u32) mod 2 ^ i)"
    by (simp add: aux_pos_def)
  then show ?thesis by (simp add: expected_index_def nat_mod_distrib nat_power_eq)
qed

section \<open>Placing the coins\<close>

definition same_coins :: "stratum \<Rightarrow> stratum \<Rightarrow> bool" where
  "same_coins s s' \<longleftrightarrow> g_list_coind s' = g_list_coind s \<and>
     (\<forall>k. (coind_at s' k)\<lparr>aux_index := 0\<rparr> = (coind_at s k)\<lparr>aux_index := 0\<rparr>)"

lemma same_coins_refl [simp]: "same_coins s s"
  by (simp add: same_coins_def)

lemma same_coins_trans: "same_coins s t \<Longrightarrow> same_coins t u \<Longrightarrow> same_coins s u"
  by (simp add: same_coins_def)

lemma same_coins_update: "same_coins s (update_coind k (\<lambda>d. d\<lparr>aux_index := p\<rparr>) s)"
  by (simp add: same_coins_def update_coind_def)

lemma aux_index_zeroed:
  "coind_can_mine s k b = coind_can_mine (s\<lparr>coind_at := (\<lambda>k. (coind_at s k)\<lparr>aux_index := 0\<rparr>)\<rparr>) k b"
  "chainid d = chainid (d\<lparr>aux_index := 0\<rparr>)"
  by (simp_all add: coind_can_mine_def Let_def)

lemma same_coins_fields:
  assumes "same_coins s t"
  shows "coind_can_mine t k b = coind_can_mine s k b" "chainid (coind_at t k) = chainid (coind_at s k)"
    "g_list_coind t = g_list_coind s"
proof -
  have eq: "(coind_at t k)\<lparr>aux_index := 0\<rparr> = (coind_at s k)\<lparr>aux_index := 0\<rparr>" for k
    using assms by (simp add: same_coins_def)
  show "coind_can_mine t k b = coind_can_mine s k b"
    by (subst (1 2) aux_index_zeroed(1)) (simp add: eq coind_can_mine_def Let_def)
  show "chainid (coind_at t k) = chainid (coind_at s k)"
    by (subst (1 2) aux_index_zeroed(2)) (simp only: eq)
qed (use assms in \<open>simp add: same_coins_def\<close>)

lemma place_auxs_spec:
  assumes "place_auxs sz ks (s, t) = Some (b, s', t')" and "length (auxs t) = MAX_AUXS"
  shows "same_coins s s' \<and> length (auxs t') = MAX_AUXS \<and>
    (\<not> b \<longrightarrow> auxs t' = replicate MAX_AUXS None) \<and>
    (b \<longrightarrow> auxs_size t' = auxs_size t \<and> (\<forall>p a. p < MAX_AUXS \<longrightarrow> auxs t ! p = Some a \<longrightarrow> auxs t' ! p = Some a) \<and>
      (\<forall>k. aux_index (coind_at s' k) \<in> {aux_index (coind_at s k), aux_pos (chainid (coind_at s k)) sz}) \<and>
      (\<forall>k \<in> set ks. coind_can_mine s k True \<longrightarrow>
         (let p = aux_pos (chainid (coind_at s k)) sz
          in p < MAX_AUXS \<and> auxs t' ! p = Some k \<and> aux_index (coind_at s' k) = p)))"
  using assms
proof (induction ks arbitrary: s t)
  case (Cons k ks)
  show ?case
  proof (cases "coind_can_mine s k True")
    case False
    then show ?thesis using Cons.IH [of s t] Cons.prems by auto
  next
    case True
    define p where "p = aux_pos (chainid (coind_at s k)) sz"
    define s1 where "s1 = update_coind k (\<lambda>d. d\<lparr>aux_index := p\<rparr>) s"
    define t1 where "t1 = t\<lparr>auxs := (auxs t)[p := Some k]\<rparr>"
    have p: "p < MAX_AUXS" using Cons.prems(1) True by (auto simp: p_def Let_def split: if_splits)
    show ?thesis
    proof (cases "auxs t ! p = None")
      case False
      then show ?thesis using Cons.prems True p by (auto simp: p_def Let_def)
    next
      case free: True
      have same: "same_coins s s1" by (simp add: s1_def same_coins_update)
      note fields = same_coins_fields [OF same]
      have "place_auxs sz ks (s1, t1) = Some (b, s', t')"
        using Cons.prems(1) True p free by (simp add: p_def s1_def t1_def Let_def)
      note IH = Cons.IH [OF this]
      have len: "length (auxs t1) = MAX_AUXS" using Cons.prems(2) by (simp add: t1_def)
      have index: "aux_index (coind_at s1 j) = (if j = k then p else aux_index (coind_at s j))" for j
        by (simp add: s1_def update_coind_def)
      have "auxs t1 ! p = Some k" using p Cons.prems(2) by (simp add: t1_def)
      moreover have "auxs t1 ! q = Some a" if "auxs t ! q = Some a" for q a
        using that free by (cases "q = p") (simp_all add: t1_def)
      moreover have "auxs_size t1 = auxs_size t" by (simp add: t1_def)
      moreover have "aux_index (coind_at s' j) \<in> {aux_index (coind_at s j), aux_pos (chainid (coind_at s j)) sz}" if b for j
      proof -
        have "aux_index (coind_at s' j) \<in> {aux_index (coind_at s1 j), aux_pos (chainid (coind_at s j)) sz}"
          using IH [OF len] that unfolding fields by blast
        then show ?thesis by (auto simp: index p_def split: if_splits)
      qed
      moreover have "aux_index (coind_at s' k) = p" if b
      proof -
        have "aux_index (coind_at s' k) \<in> {aux_index (coind_at s1 k), aux_pos (chainid (coind_at s k)) sz}"
          using IH [OF len] that unfolding fields by blast
        then show ?thesis by (simp add: index p_def)
      qed
      ultimately show ?thesis
        using IH [OF len] p same_coins_trans [OF same] unfolding fields
        by (cases b) (simp_all add: p_def Let_def)
    qed
  qed
qed auto

text \<open>The coins that are merged in, and the tree that gives each of them its slot.\<close>

definition aux_coins :: "stratum \<Rightarrow> nat list" where
  "aux_coins s = filter (\<lambda>k. coind_can_mine s k True) (g_list_coind s)"

definition in_slots :: "stratum \<Rightarrow> nat \<Rightarrow> stratum \<Rightarrow> template \<Rightarrow> bool" where
  "in_slots s0 i s t \<longleftrightarrow>
     i \<le> 30 \<and> auxs_size t = 2 ^ i \<and> length (aux_coins s0) \<le> 2 ^ i \<and>
     (\<forall>k \<in> set (aux_coins s0). let p = expected_index (chainid (coind_at s0 k)) i
        in p < MAX_AUXS \<and> auxs t ! p = Some k \<and> aux_index (coind_at s k) = p)"

lemma try_sizes_spec:
  "same_coins s0 s \<Longrightarrow> auxs t = replicate MAX_AUXS None \<Longrightarrow> 31 \<in> set sizes \<Longrightarrow>
   try_sizes (length (aux_coins s0)) sizes (s, t) = Some (s', t') \<Longrightarrow>
   same_coins s0 s' \<and> (\<exists>i. in_slots s0 i s' t')"
proof (induction sizes arbitrary: s t)
  case (Cons i sizes)
  note fields = same_coins_fields [OF Cons.prems(1)]
  have i: "i \<le> 30" using Cons.prems(4) by (simp split: if_splits)
  then have later: "31 \<in> set sizes" using Cons.prems(3) by auto
  define t1 where "t1 = t\<lparr>auxs_size := 2 ^ i\<rparr>"
  have t1: "auxs t1 = replicate MAX_AUXS None" using Cons.prems(2) by (simp add: t1_def)
  show ?case
  proof (cases "2 ^ i < length (aux_coins s0)")
    case True
    then have "try_sizes (length (aux_coins s0)) sizes (s, t1) = Some (s', t')"
      using Cons.prems(4) i by (simp add: t1_def Let_def)
    then show ?thesis by (rule Cons.IH [OF Cons.prems(1) t1 later])
  next
    case False
    then obtain b u v where place: "place_auxs (2 ^ i) (g_list_coind s) (s, t1) = Some (b, u, v)"
        "(if b then Some (u, v) else try_sizes (length (aux_coins s0)) sizes (u, v)) = Some (s', t')"
      using Cons.prems(4) i by (auto simp: t1_def Let_def split: option.splits)
    have len: "length (auxs t1) = MAX_AUXS" using t1 by simp
    note spec = place_auxs_spec [OF place(1) len]
    have same: "same_coins s0 u" using same_coins_trans [OF Cons.prems(1)] spec by blast
    show ?thesis
    proof (cases b)
      case False
      then show ?thesis using Cons.IH [OF same, of v] later place(2) spec by simp
    next
      case True
      have "in_slots s0 i u v"
        using spec True i \<open>\<not> 2 ^ i < length (aux_coins s0)\<close> aux_pos_expected [of i]
        unfolding in_slots_def aux_coins_def fields by (auto simp: t1_def Let_def)
      then show ?thesis using True place(2) same by auto
    qed
  qed
qed simp


section \<open>The branch leads to the root\<close>

text \<open>The levels of the tree, and what a verifier of the auxiliary chain does with a branch.\<close>

fun tree_root :: "(string \<Rightarrow> string option) \<Rightarrow> nat \<Rightarrow> string list \<Rightarrow> string option" where
  "tree_root h 0 l = Some (l ! 0)"
| "tree_root h (Suc n) l = do { l \<leftarrow> hash_level h l 0 (length l div 2); tree_root h n l }"

fun check_branch :: "(string \<Rightarrow> string option) \<Rightarrow> string list \<Rightarrow> nat \<Rightarrow> string \<Rightarrow> string option" where
  "check_branch h [] index x = Some x"
| "check_branch h (b # bs) index x = do {
     y \<leftarrow> h (if odd index then b @ x else x @ b);
     check_branch h bs (index div 2) y
   }"

lemma hash_level_total:
  assumes h: "\<And>a. length a = 128 \<Longrightarrow> \<exists>b. h a = Some b \<and> length b = 64"
  shows "(\<And>k. k < 2 * (i + n) \<Longrightarrow> length (L ! k) = 64) \<Longrightarrow>
    \<exists>l. hash_level h L i n = Some l \<and> length l = n \<and> (\<forall>x\<in>set l. length x = 64) \<and>
      (\<forall>j < n. h (L ! ((i + j) * 2) @ L ! ((i + j) * 2 + 1)) = Some (l ! j))"
proof (induction n arbitrary: i)
  case (Suc n)
  have "length (L ! (i * 2) @ L ! (i * 2 + 1)) = 128" using Suc.prems by simp
  then obtain b where b: "h (L ! (i * 2) @ L ! (i * 2 + 1)) = Some b" "length b = 64" using h by blast
  obtain l where l: "hash_level h L (i + 1) n = Some l" "length l = n" "\<forall>x\<in>set l. length x = 64"
      "\<forall>j < n. h (L ! ((i + 1 + j) * 2) @ L ! ((i + 1 + j) * 2 + 1)) = Some (l ! j)"
    using Suc.IH [of "i + 1"] Suc.prems by auto
  have "h (L ! ((i + j) * 2) @ L ! ((i + j) * 2 + 1)) = Some ((b # l) ! j)" if "j < Suc n" for j
    using that b(1) l(4) by (cases j) simp_all
  then show ?case using b l by auto
qed simp

lemma aux_branch_loop_root:
  assumes h: "\<And>a. length a = 128 \<Longrightarrow> \<exists>b. h a = Some b \<and> length b = 64"
    and "length hashlist = 2 ^ n" and "\<forall>x\<in>set hashlist. length x = 64" and "index < 2 ^ n"
  shows "\<exists>bs root. aux_branch_loop h hashlist index = Some bs \<and> length bs = n \<and>
    tree_root h n hashlist = Some root \<and> check_branch h bs index (hashlist ! index) = Some root"
  using assms(2-4)
proof (induction n arbitrary: hashlist index)
  case 0
  then show ?case by (subst aux_branch_loop.simps) simp
next
  case (Suc n)
  define j where "j = index div 2"
  have j: "j < 2 ^ n" using Suc.prems(3) by (simp add: j_def)
  obtain l where l: "hash_level h hashlist 0 (2 ^ n) = Some l" "length l = 2 ^ n" "\<forall>x\<in>set l. length x = 64"
      "h (hashlist ! (j * 2) @ hashlist ! (j * 2 + 1)) = Some (l ! j)"
    using hash_level_total [of h 0 "2 ^ n" hashlist] h Suc.prems(1,2) j by auto
  obtain bs root where IH: "aux_branch_loop h l j = Some bs" "length bs = n" "tree_root h n l = Some root"
      "check_branch h bs j (l ! j) = Some root"
    using Suc.IH [OF l(2,3) j] by blast
  define sib where "sib = (if odd index then index - 1 else index + 1)"
  have "(1 :: nat) \<le> 2 ^ n" by simp
  then have big: "1 < length hashlist" "length hashlist div 2 = 2 ^ n"
    unfolding Suc.prems(1) power_Suc by (linarith, simp)
  have "sib < length hashlist"
    using Suc.prems by (auto simp: sib_def elim: evenE)
  then have loop: "aux_branch_loop h hashlist index = Some (hashlist ! sib # bs)"
    using big l(1) IH(1) by (subst aux_branch_loop.simps) (simp add: sib_def j_def)
  have "h (if odd index then hashlist ! sib @ hashlist ! index else hashlist ! index @ hashlist ! sib) = Some (l ! j)"
    using l(4) by (cases "odd index") (auto simp: sib_def j_def mult.commute elim!: oddE evenE)
  then have "check_branch h (hashlist ! sib # bs) index (hashlist ! index) = Some root"
    using IH(4) by (simp add: j_def)
  then show ?case using loop IH(2,3) big l(1) by auto
qed

lemma hash_pair_total:
  "length stack = 64 \<Longrightarrow> length (dsha stack') = 32 \<Longrightarrow> length a = 128 \<Longrightarrow> stack' = binlify a \<Longrightarrow>
   hash_pair dsha stack a = Some (hexlify (dsha stack'))"
  by (simp add: hash_pair_def buf_write_def)

text \<open>
  C24. The branch \<open>coind_aux_merkle_branch\<close> computes for a slot of a tree of 2^n hashes has \<open>n\<close> steps, and hashing
  the entry of the slot with them, on the side its index tells, gives the root of the tree.
\<close>

theorem aux_branch_leads_to_root:
  assumes "length (stack64 cfg) = 64" and "\<And>bs. length (double_sha cfg bs) = 32"
    and "coind_aux_hashlist s as (2 ^ n) = Some hashlist" and "\<forall>x\<in>set hashlist. length x = 64" and "index < 2 ^ n"
  shows "\<exists>bs root. coind_aux_merkle_branch cfg s as (2 ^ n) index = Some bs \<and> length bs = n \<and>
    tree_root (hash_pair (double_sha cfg) (stack64 cfg)) n hashlist = Some root \<and>
    check_branch (hash_pair (double_sha cfg) (stack64 cfg)) bs index (hashlist ! index) = Some root"
proof -
  have total: "length a = 128 \<Longrightarrow> \<exists>b. hash_pair (double_sha cfg) (stack64 cfg) a = Some b \<and> length b = 64" for a
    using hash_pair_total [OF assms(1) assms(2) _ refl, of a] assms(2) by simp
  have map_len: "map_opt f xs = Some ys \<Longrightarrow> length ys = length xs" for f :: "nat option \<Rightarrow> string option" and xs ys
    by (induction xs arbitrary: ys) (auto split: bind_splits)
  have "length hashlist = 2 ^ n"
    using assms(3) by (auto simp: coind_aux_hashlist_def buf_read_def dest!: map_len split: bind_splits if_splits)
  then show ?thesis
    using aux_branch_loop_root [OF total _ assms(4,5)] assms(3) by (simp add: coind_aux_merkle_branch_def)
qed

theorem aux_branch_leads_to_root_witness:
  "\<exists>bs. coind_aux_merkle_branch example_config empty_stratum (replicate 32 None) (2 ^ 1) 1 = Some bs \<and> length bs = 1"
proof -
  have "coind_aux_hashlist empty_stratum (replicate 32 None) (2 ^ 1) = Some [replicate 64 CHR ''0'', replicate 64 CHR ''0'']"
    by (simp add: coind_aux_hashlist_def buf_read_def aux_hash_text_def numeral_eq_Suc)
  from aux_branch_leads_to_root [OF _ _ this, of example_config 1] show ?thesis
    by (auto simp: example_config_def)
qed

end
