(* ===== verification/Submit.thy ===== *)
theory Submit
  imports Aux_Chains
begin

text \<open>
  \<open>client_submit.cpp\<close>, \<open>coind_submit.cpp\<close> and \<open>remote_submit\<close>: a submitted share is checked, turned into the
  header of a block, hashed, measured against the targets, handed on as a block or to another
  pool, and recorded. Log lines (and the computations that only \<open>g_debuglog_hash\<close> makes) are left
  out. A result \<open>None\<close> is a write behind an array or a read of memory that was never written.
\<close>

section \<open>Texts in arrays\<close>

text \<open>The text in a zeroed array of \<open>n\<close> characters, and the array with a text in it.\<close>

definition c_text :: "string \<Rightarrow> string" where
  "c_text = takeWhile (\<lambda>c. c \<noteq> CHR 0x00)"

definition array_of :: "nat \<Rightarrow> string \<Rightarrow> string" where
  "array_of n s = s @ replicate (n - length s) CHR 0x00"

definition reversed_in :: "nat \<Rightarrow> string \<Rightarrow> string option" where
  "reversed_in n s = map_option c_text (string_be s (array_of n []))"

section \<open>Building the header\<close>

definition EQUI_HEADER_SIZE :: nat where
  "EQUI_HEADER_SIZE = 4 + 32 + 32 + 32 + 4 + 4 + 32 + 1344 + 3"

record job_values =
  v_coinbase :: string
  v_merkleroot_be :: string
  v_header :: string
  v_header_be :: string
  v_header_bin :: "u8 list"
  v_hash_hex :: string
  v_hash_be :: string
  v_hash_bin :: "u8 list"

text \<open>The hash of the coinbase and the Merkle root.\<close>

definition coinbase_hash :: "'s config \<Rightarrow> string \<Rightarrow> string option" where
  "coinbase_hash cfg coinbase = do {
     coinbase_bin \<leftarrow> buf_write 0 (binlify coinbase) (replicate 1024 0);
     let merkle_hash = (case merkle_func cfg of Some f \<Rightarrow> f | None \<Rightarrow> double_sha cfg);
     strcpy_in 128 (hexlify (merkle_hash (take (length coinbase div 2) coinbase_bin)))
   }"

definition merkleroot :: "'s config \<Rightarrow> template \<Rightarrow> string \<Rightarrow> string option" where
  "merkleroot cfg t coinbase = do {
     doublehash \<leftarrow> coinbase_hash cfg coinbase;
     merkle_with_first (hash_pair (double_sha cfg) (stack64 cfg)) (txsteps t) doublehash
   }"

text \<open>The hash of the header and its texts.\<close>

definition hash_header :: "'s config \<Rightarrow> string \<Rightarrow> string \<Rightarrow> string \<Rightarrow> string \<Rightarrow> u8 list \<Rightarrow> job_values option" where
  "hash_header cfg coinbase root_be header header_be header_bin = do {
     let hash_bin = hash_function cfg (take (length header div 2) header_bin);
     let hash_hex = hexlify (take 32 hash_bin);
     hash_be \<leftarrow> reversed_in 1024 hash_hex;
     Some \<lparr>v_coinbase = coinbase, v_merkleroot_be = root_be, v_header = header, v_header_be = header_be,
           v_header_bin = header_bin, v_hash_hex = hash_hex, v_hash_be = hash_be, v_hash_bin = hash_bin\<rparr>
   }"

definition build_submit_values ::
    "'s config \<Rightarrow> template \<Rightarrow> string \<Rightarrow> string \<Rightarrow> string \<Rightarrow> string \<Rightarrow> job_values option" where
  "build_submit_values cfg t nonce1 nonce2 ntime nonce = do {
     coinbase \<leftarrow> strcpy_in (16 * 1024) (coinb1 t @ nonce1 @ nonce2 @ coinb2 t);
     root \<leftarrow> merkleroot cfg t coinbase;
     root_be \<leftarrow> map_option c_text (ser_string_be (array_of 64 root) 8 (array_of 1024 []));
     (header, len) \<leftarrow>
       (if g_stratum_algo cfg = ''lbry''
        then Some (tversion t @ prevhash_be t @ root_be @ claim_be t @ ntime @ nbits t @ nonce, 112 div 4)
        else if length (extradata_be t) = 128
        then Some (tversion t @ prevhash_be t @ root_be @ ntime @ nbits t @ nonce @ extradata_be t, 36)
        else Some (tversion t @ prevhash_be t @ root_be @ ntime @ nbits t @ nonce, 20));
     header \<leftarrow> strcpy_in (EQUI_HEADER_SIZE * 2 + 1) header;
     header_be \<leftarrow> map_option c_text (ser_string_be (array_of (EQUI_HEADER_SIZE * 2 + 1) header) len
                   (array_of (EQUI_HEADER_SIZE * 2 + 1) []));
     header_bin \<leftarrow> buf_write 0 (binlify header_be) (replicate EQUI_HEADER_SIZE 0);
     hash_header cfg coinbase root_be header header_be header_bin
   }"

definition build_submit_values_equi ::
    "'s config \<Rightarrow> template \<Rightarrow> string \<Rightarrow> string \<Rightarrow> string \<Rightarrow> string \<Rightarrow> string \<Rightarrow> job_values option" where
  "build_submit_values_equi cfg t nonce1 nonce2 ntime nonce equi_solution = do {
     coinbase \<leftarrow> strcpy_in (16 * 1024) (coinbase_of t);
     root \<leftarrow> merkleroot cfg t coinbase;
     root_be \<leftarrow> strcpy_in 1024 root;
     rev_version \<leftarrow> reversed_in 32 (tversion t);
     rev_ntime \<leftarrow> reversed_in 32 ntime;
     rev_nbits \<leftarrow> reversed_in 32 (nbits t);
     header \<leftarrow> strcpy_in (EQUI_HEADER_SIZE * 2 + 1)
       (rev_version @ prevhash_be t @ root_be @ extradata_be t @ rev_ntime @ rev_nbits @ nonce1 @ nonce @ equi_solution);
     header_bin \<leftarrow> buf_write 0 (binlify header) (replicate EQUI_HEADER_SIZE 0);
     hash_header cfg coinbase root_be header header header_bin
   }"

text \<open>The header of Decred: 192 packed bytes of the template with the nonce, the extra nonce and the votes.\<close>

definition create_decred_header :: "template \<Rightarrow> string \<Rightarrow> string \<Rightarrow> string \<Rightarrow> u8 list option" where
  "create_decred_header t nonce nonce2 vote = do {
     header \<leftarrow> buf_read 0 192 (theader t @ replicate (192 - length (theader t)) 0);
     header \<leftarrow> buf_write 144 (replicate 32 0) header;
     header \<leftarrow> buf_write 140 (le_bytes 4 (unat (scan_hex (take 8 nonce)))) header;
     header \<leftarrow> (if vote \<noteq> []
                then buf_write 100 (le_bytes 2 (unat
                  (((ucast (header ! 100) OR push_bit 8 (ucast (header ! 101)) :: u32) AND 1) OR
                   (scan_hex (take 4 vote) AND 0xfffe)))) header
                else Some header);
     buf_write 144 (binlify nonce2) header
   }"

definition build_submit_values_decred ::
    "'s config \<Rightarrow> template \<Rightarrow> string \<Rightarrow> string \<Rightarrow> string \<Rightarrow> job_values option" where
  "build_submit_values_decred cfg t nonce2 nonce vote = do {
     header \<leftarrow> create_decred_header t nonce nonce2 vote;
     header_bin \<leftarrow> buf_write 0 header (replicate EQUI_HEADER_SIZE 0);
     let text = hexlify (take 180 header);
     hash_header cfg [] [] text [] header_bin
   }"

section \<open>Handing a block to the daemons\<close>

definition is_null :: "json option \<Rightarrow> bool" where
  "is_null v \<longleftrightarrow> (case v of Some J_null \<Rightarrow> True | _ \<Rightarrow> False)"

definition is_true :: "json option \<Rightarrow> bool" where
  "is_true v \<longleftrightarrow> (case v of Some (J_boolean b) \<Rightarrow> b | _ \<Rightarrow> False)"

definition coind_submitwork :: "'s config \<Rightarrow> nat \<Rightarrow> string \<Rightarrow> stratum \<Rightarrow> bool \<times> stratum" where
  "coind_submitwork cfg k block s =
     (let (json, s) = rpc_call cfg k ''getwork'' [block] s;
          (json, s) = (case json of None \<Rightarrow> rpc_call cfg k ''getwork'' [block] s | Some a \<Rightarrow> (Some a, s))
      in case json of None \<Rightarrow> (False, s) | Some a \<Rightarrow> (is_true (rpc_result a), s))"

text \<open>\<open>coind_submitblock\<close> and \<open>coind_submitblocktemplate\<close> differ in the call only.\<close>

definition submit_by :: "'s config \<Rightarrow> nat \<Rightarrow> string \<Rightarrow> string list \<Rightarrow> stratum \<Rightarrow> bool \<times> stratum" where
  "submit_by cfg k method params s =
     (let (json, s) = rpc_call cfg k method params s
      in case json of
           None \<Rightarrow> (False, s)
         | Some a \<Rightarrow>
             if rpc_error a \<noteq> None \<and> \<not> is_null (rpc_error a) then (False, s)
             else (is_null (rpc_result a), s))"

definition coind_submitblock :: "'s config \<Rightarrow> nat \<Rightarrow> string \<Rightarrow> stratum \<Rightarrow> bool \<times> stratum" where
  "coind_submitblock cfg k block = submit_by cfg k ''submitblock'' [block]"

definition coind_submitblocktemplate :: "'s config \<Rightarrow> nat \<Rightarrow> string \<Rightarrow> stratum \<Rightarrow> bool \<times> stratum" where
  "coind_submitblocktemplate cfg k block = submit_by cfg k ''getblocktemplate'' [''submit'', block]"

definition coind_submit :: "'s config \<Rightarrow> nat \<Rightarrow> string \<Rightarrow> stratum \<Rightarrow> bool \<times> stratum" where
  "coind_submit cfg k block s =
     (if usegetwork (coind_at s k) then coind_submitwork cfg k block s
      else if hassubmitblock (coind_at s k) then coind_submitblock cfg k block s
      else coind_submitblocktemplate cfg k block s)"

definition coind_submitgetauxblock :: "'s config \<Rightarrow> nat \<Rightarrow> string \<Rightarrow> string \<Rightarrow> stratum \<Rightarrow> bool \<times> stratum" where
  "coind_submitgetauxblock cfg k hash block s =
     (let (json, s) = rpc_call cfg k ''getauxblock'' [hash, block] s
      in case json of
           None \<Rightarrow> (False, s)
         | Some a \<Rightarrow>
             if rpc_error a \<noteq> None \<and> \<not> is_null (rpc_error a) then (False, s)
             else (is_true (rpc_result a) \<or> is_null (rpc_result a), s))"

section \<open>The targets of a share\<close>

text \<open>
  The compact target of the template as a number, through the array \<open>bits_str\<close> of five characters:
  the eight characters of the text and the zero behind them need four more, which the compiler
  may leave unused (and zero) or not.
\<close>

definition bits_of :: "'s config \<Rightarrow> string \<Rightarrow> u32 option" where
  "bits_of cfg text = do {
     bits_str \<leftarrow> string_be text (array_of (5 + bits_slack cfg) []);
     let bytes = binlify (c_text bits_str);
     if length (c_text bits_str) < 5 + bits_slack cfg \<and> length bytes = 4
     then Some (of_nat (be_val (rev bytes))) else None
   }"

definition network_target :: "u64 \<Rightarrow> u64" where
  "network_target coin_target = (if coin_target = 0 then 0xFFFF000000000000 else coin_target)"

text \<open>\<open>hash_int\<close> and \<open>coin_target\<close>\<close>

definition share_targets :: "'s config \<Rightarrow> template \<Rightarrow> u8 list \<Rightarrow> (u64 \<times> u64) option" where
  "share_targets cfg t hash_bin =
     (if algo_name cfg = ''equihash''
      then do {
        bits \<leftarrow> bits_of cfg (nbits t);
        Some (equi_hash_int (fpu_of cfg) (diff_multiplier cfg) hash_bin,
              network_target (equi_coin_target (fpu_of cfg) (diff_multiplier cfg) bits))
      }
      else Some (get_hash_difficulty hash_bin, network_target (decode_compact (fpu_of cfg) (nbits t))))"

section \<open>Blocks\<close>

definition block_size :: "template \<Rightarrow> nat" where
  "block_size t = 32 * 1024 + sum_list (map length (txdata t))"

text \<open>The number of transactions behind the header: \<open>char count_hex[8]\<close>.\<close>

definition hex_nat :: "nat \<Rightarrow> string" where
  "hex_nat n = (let s = hex8 (of_nat n); k = length (takeWhile (\<lambda>c. c = CHR ''0'') (take 6 s)) in drop k s)"

definition count_hex :: "nat \<Rightarrow> string option" where
  "count_hex n =
     (if n \<le> 252 then Some (hex2 (of_nat n)) else strcpy_in 8 (''fd'' @ hex2 (of_nat n) @ hex_nat (n div 256)))"

definition block_hex :: "'s config \<Rightarrow> template \<Rightarrow> coind \<Rightarrow> job_values \<Rightarrow> string option" where
  "block_hex cfg t d v = do {
     count \<leftarrow> count_hex (txcount t);
     let head = (if algo_name cfg = ''jha'' then v_header_be v @ ''8400000008000000'' else v_header_be v);
     text \<leftarrow> strcpy_in (block_size t)
       (head @ count @ v_coinbase v @ concat (txdata t) @ (if pos d then ''00'' else []));
     if rpcencoding d = ''DCR''
     then (let hex = hexlify (take 180 (v_header_bin v))
           in Some (if usegetwork d then take (block_size t - 1) (hex @ ''8000000100000000000005a0'')
                    else take (block_size t - 1) hex))
     else Some text
   }"

definition aux_block_hex :: "'s config \<Rightarrow> stratum \<Rightarrow> template \<Rightarrow> nat \<Rightarrow> job_values \<Rightarrow> string option" where
  "aux_block_hex cfg s t k v = do {
     lresult \<leftarrow> coind_aux_merkle_branch cfg s (auxs t) (auxs_size t) (aux_index (coind_at s k));
     strcpy_in (block_size t)
       (v_coinbase v @ v_hash_be v @ hex2 (of_nat (length (txsteps t))) @ concat (txsteps t) @ ''00000000'' @
        hex2 (of_nat (length lresult)) @ concat lresult @ hex2 (of_nat (aux_index (coind_at s k))) @ ''000000'' @
        v_header_be v)
   }"

text \<open>One auxiliary chain of the loop of \<open>client_do_submit\<close>, and the loop.\<close>

definition submit_aux ::
    "'s config \<Rightarrow> nat \<Rightarrow> nat \<Rightarrow> template \<Rightarrow> job_values \<Rightarrow> u64 \<Rightarrow> nat option \<Rightarrow> stratum \<Rightarrow> stratum option" where
  "submit_aux cfg c k t v hash_int aux s =
     (case aux of
        None \<Rightarrow> Some s
      | Some a \<Rightarrow>
          if symbol (coind_at s k) = symbol2 (coind_at s a) then Some s
          else do {
            target \<leftarrow> (let b = binlify (aux_target (coind_at s a)) in if 32 \<le> length b \<and> length b \<le> 1024 then Some b else None);
            let coin_target_aux = get_hash_difficulty target;
            if hash_int \<le> coin_target_aux
            then do {
              text \<leftarrow> aux_block_hex cfg s t a v;
              let (b, s) = coind_submitgetauxblock cfg a (aux_hash (coind_at s a)) text s;
              if b
              then block_add (userid (client_at s c)) (workerid (client_at s c)) (obj_id (coind_at s a))
                     (cheight (coind_at s a)) (target_to_diff (fpu_of cfg) coin_target_aux)
                     (target_to_diff (fpu_of cfg) hash_int) (aux_hash (coind_at s a)) [] False s
              else Some s
            }
            else Some s
          })"

definition submit_auxs ::
    "'s config \<Rightarrow> nat \<Rightarrow> nat \<Rightarrow> template \<Rightarrow> job_values \<Rightarrow> u64 \<Rightarrow> stratum \<Rightarrow> stratum option" where
  "submit_auxs cfg c k t v hash_int s = do {
     as \<leftarrow> buf_read 0 (auxs_size t) (auxs t);
     fold_opt (submit_aux cfg c k t v hash_int) as s
   }"

definition submit_block ::
    "'s config \<Rightarrow> nat \<Rightarrow> nat \<Rightarrow> nat \<Rightarrow> job_values \<Rightarrow> u64 \<Rightarrow> u64 \<Rightarrow> stratum \<Rightarrow> stratum option" where
  "submit_block cfg c j k v hash_int coin_target s = do {
     let t = templ (job_at s j);
     text \<leftarrow> block_hex cfg t (coind_at s k) v;
     let (b, s) = coind_submit cfg k text s;
     if \<not> b then Some s
     else do {
       let s = update_job j (\<lambda>b. b\<lparr>block_found := True\<rparr>) s;
       hash1 \<leftarrow> reversed_in 1024 (hexlify (double_sha cfg (take (length (v_header_be v) div 2) (v_header_bin v))));
       let hash1 = (if usegetwork (coind_at s k) \<and> rpcencoding (coind_at s k) = ''DCR'' then v_hash_hex v else hash1);
       s \<leftarrow> block_add (userid (client_at s c)) (workerid (client_at s c)) (obj_id (coind_at s k)) (height t)
              (target_to_diff (fpu_of cfg) coin_target) (target_to_diff (fpu_of cfg) hash_int)
              hash1 (v_hash_be v) (has_segwit_txs t) s;
       if lastnotifyhash (coind_at s k) = v_hash_be v
       then map_option snd (block_confirm cfg (obj_id (coind_at s k)) (v_hash_be v) s)
       else Some s
     }
   }"

definition client_do_submit :: "'s config \<Rightarrow> nat \<Rightarrow> nat \<Rightarrow> nat \<Rightarrow> job_values \<Rightarrow> stratum \<Rightarrow> stratum option" where
  "client_do_submit cfg c j k v s =
     (let t = templ (job_at s j)
      in if block_found (job_at s j) then Some s
         else if deleted (job_at s j) then Some s
         else do {
           (hash_int, coin_target) \<leftarrow> share_targets cfg t (v_hash_bin v);
           s \<leftarrow> submit_auxs cfg c k t v hash_int s;
           if hash_int \<le> coin_target then submit_block cfg c j k v hash_int coin_target s else Some s
         })"

section \<open>Handing a share to another pool\<close>

definition update_remote :: "nat \<Rightarrow> (remote \<Rightarrow> remote) \<Rightarrow> stratum \<Rightarrow> stratum" where
  "update_remote r f s = s\<lparr>remote_at := (remote_at s)(r := f (remote_at s r))\<rparr>"

definition remote_submit ::
    "'s config \<Rightarrow> nat \<Rightarrow> nat \<Rightarrow> job_values \<Rightarrow> string \<Rightarrow> string \<Rightarrow> string \<Rightarrow> stratum \<Rightarrow> stratum" where
  "remote_submit cfg c j v extranonce2 ntime nonce s =
     (case remote_of (job_at s j) of
        None \<Rightarrow> s
      | Some r \<Rightarrow>
          (let m = remote_at s r; rd = rnd (fpu_of cfg)
           in if deleted m then s
              else if rstatus m \<noteq> YAAMP_REMOTE_READY then s
              else if \<not> rconnected m then s
              else if diff_to_target (fpu_of cfg) (diff_multiplier cfg) (rdifficulty m) < get_hash_difficulty (v_hash_bin v)
              then s
              else (let params = [rusername m, rjobid m,
                          (if rnonce2size m = 2 then extranonce2
                           else hex2 (of_nat (extranonce1_id (client_at s c))) @ extranonce2), ntime, nonce];
                        s = s\<lparr>remote_sent := remote_sent s @ [(r, params)]\<rparr>;
                        (i, s) = submit_add cfg (obj_id m) (rdifficulty m) s
                    in update_remote r (\<lambda>m. m\<lparr>
                         rspeed_avg := rd (rspeed_avg m + rd (rd (rdifficulty m / diff_multiplier cfg) * 42)),
                         submit_last := Some i\<rparr>) s)))"

section \<open>Checking a share\<close>

definition valid_string_params :: "json list \<Rightarrow> bool" where
  "valid_string_params ps \<longleftrightarrow> list_all (\<lambda>p. case p of J_string _ \<Rightarrow> True | _ \<Rightarrow> False) ps"

definition param_text :: "json list \<Rightarrow> nat \<Rightarrow> string" where
  "param_text ps i = (case ps ! i of J_string t \<Rightarrow> t | _ \<Rightarrow> [])"

text \<open>The number an \<open>int\<close> gets from \<open>htoi\<close>.\<close>

definition job_id_of :: "string \<Rightarrow> int" where
  "job_id_of t = sint (htoi t)"

definition ntime_valid_range :: "string \<Rightarrow> stratum \<Rightarrow> bool" where
  "ntime_valid_range ntimehex s \<longleftrightarrow>
     length ntimehex = 8 \<and>
     (let ntime = scan_hex ntimehex
      in 0x5b000000 \<le> ntime \<and> ntime \<le> 0x60000000 \<and> \<bar>time_of s - uint ntime\<bar> < 30 * 60)"

text \<open>\<open>object_find\<close> with \<open>lock\<close>, and \<open>object_unlock\<close>, on the list of jobs.\<close>

definition find_job :: "int \<Rightarrow> stratum \<Rightarrow> nat option \<times> stratum" where
  "find_job i s =
     (case List.find (\<lambda>j. obj_id (job_at s j) = i) (g_list_job s) of
        None \<Rightarrow> (None, s)
      | Some j \<Rightarrow> (Some j, update_job j (\<lambda>b. b\<lparr>lock_count := lock_count b + 1\<rparr>) s))"

definition unlock_job :: "nat option \<Rightarrow> stratum \<Rightarrow> stratum" where
  "unlock_job job s =
     (case job of None \<Rightarrow> s | Some j \<Rightarrow> update_job j (\<lambda>b. b\<lparr>lock_count := lock_count b - 1\<rparr>) s)"

definition client_submit_error ::
    "'s config \<Rightarrow> nat \<Rightarrow> nat option \<Rightarrow> int \<Rightarrow> string \<Rightarrow> string \<Rightarrow> string \<Rightarrow> string \<Rightarrow> stratum \<Rightarrow> stratum option" where
  "client_submit_error cfg c job err msg extranonce2 ntime nonce s =
     (if (case job of None \<Rightarrow> False | Some j \<Rightarrow> deleted (job_at s j))
      then Some (unlock_job job (send c (Result ''true'') s))
      else do {
        s \<leftarrow> share_add cfg c job False extranonce2 ntime nonce 0 err (send c (Error err msg) s);
        Some (unlock_job job (update_client c (\<lambda>cl. cl\<lparr>submit_bad := submit_bad cl + 1\<rparr>) s))
      })"

definition bad_params :: "nat \<Rightarrow> stratum \<Rightarrow> bool \<times> stratum" where
  "bad_params c s = (False, update_client c (\<lambda>cl. cl\<lparr>submit_bad := submit_bad cl + 1\<rparr>) s)"

text \<open>The time of a share: the one of the template, or near the clock when times may be rolled.\<close>

definition ntime_error :: "'s config \<Rightarrow> template \<Rightarrow> string \<Rightarrow> stratum \<Rightarrow> string option" where
  "ntime_error cfg t ntime s =
     (if ntime = ntime_of t then None
      else if \<not> (8 \<le> length ntime \<and> ishexa (take 8 ntime)) \<or> \<not> ntime_valid_range ntime s
      then Some ''Invalid time rolling''
      else if \<not> g_allow_rolltime cfg then Some ''Invalid ntime (rolling not allowed)''
      else None)"

text \<open>What happens to an accepted share.\<close>

definition accept_share ::
    "'s config \<Rightarrow> nat \<Rightarrow> nat \<Rightarrow> job_values \<Rightarrow> real \<Rightarrow> string \<Rightarrow> string \<Rightarrow> string \<Rightarrow> stratum \<Rightarrow> stratum option" where
  "accept_share cfg c j v share_diff extranonce2 ntime nonce s = do {
     s \<leftarrow> (case coind_of (job_at s j) of
             Some k \<Rightarrow> client_do_submit cfg c j k v s
           | None \<Rightarrow> Some (remote_submit cfg c j v extranonce2 ntime nonce s));
     let s = client_record_difficulty cfg c (send c (Result ''true'') s);
     let s = update_client c (\<lambda>cl. cl\<lparr>submit_bad := 0, cl_shares := cl_shares cl + 1\<rparr>) s;
     let s = (if cl_shares (client_at s c) \<le> 200 \<and> cl_shares (client_at s c) mod 50 = 0
              then (let (b, s) = client_ask_stats c s
                    in if b then s else update_client c (\<lambda>cl. cl\<lparr>stats := False\<rparr>) s)
              else s);
     s \<leftarrow> share_add cfg c (Some j) True extranonce2 ntime nonce share_diff 0 s;
     Some (unlock_job (Some j) s)
   }"

definition share_difficulty :: "'s config \<Rightarrow> u8 list \<Rightarrow> u64 \<Rightarrow> real" where
  "share_difficulty cfg hash_bin hash_int =
     (if algo_name cfg = ''equihash'' then target_to_diff_equi (fpu_of cfg) hash_bin
      else real (unat (diff_to_target (fpu_of cfg) (diff_multiplier cfg) (rnd (fpu_of cfg) (real (unat hash_int))))))"

text \<open>The checks of \<open>client_submit_equi\<close> behind the job: the error, or the values of the share.\<close>

definition equi_checks ::
    "'s config \<Rightarrow> nat \<Rightarrow> nat \<Rightarrow> string \<Rightarrow> string \<Rightarrow> string \<Rightarrow> stratum \<Rightarrow> (int \<times> string + job_values \<times> u64) option" where
  "equi_checks cfg c j ntime nonce equi_solution s =
     (let t = templ (job_at s j); cl = client_at s c
      in if length nonce \<noteq> 56 \<or> \<not> ishexa nonce then Some (Inl (20, ''Invalid nonce size''))
         else if ntime_error cfg t ntime s \<noteq> None then Some (Inl (23, the (ntime_error cfg t ntime s)))
         else if share_find (obj_id (job_at s j)) [] ntime nonce (extranonce1 cl) s \<noteq> None
         then Some (Inl (22, ''Duplicate share''))
         else do {
           v \<leftarrow> build_submit_values_equi cfg t (extranonce1 cl) [] ntime nonce equi_solution;
           valid \<leftarrow> (if algo_name cfg = ''equihash''
                     then verifyEH (blake cfg) (v_header_bin v) (drop 143 (v_header_bin v)) else Some True);
           if \<not> valid then Some (Inl (25, ''Invalid equihash solution''))
           else do {
             (if algo_name cfg = ''equihash'' then map_option (\<lambda>t. []) (target_string cfg (difficulty_actual cl)) else Some ([] :: string));
             (hash_int, coin_target) \<leftarrow> share_targets cfg t (v_hash_bin v);
             let user_target = diff_to_target (fpu_of cfg) (diff_multiplier cfg) (difficulty_actual cl);
             if user_target < hash_int \<and> coin_target < hash_int then Some (Inl (26, ''Low difficulty share''))
             else Some (Inr (v, hash_int))
           }
         })"

definition client_submit_equi :: "'s config \<Rightarrow> nat \<Rightarrow> json list \<Rightarrow> stratum \<Rightarrow> (bool \<times> stratum) option" where
  "client_submit_equi cfg c ps s =
     (if length ps < 5 \<or> \<not> valid_string_params ps then Some (bad_params c s)
      else if 32 < length (param_text ps 1) then Some (bad_params c s)
      else do {
        rev_ntime \<leftarrow> reversed_in 9 (take 8 (param_text ps 2));
        let ntime = string_lower rev_ntime;
        let nonce = string_lower (take 64 (param_text ps 3));
        let equi_solution = string_lower (take (1344 * 2 + 3 * 2) (param_text ps 4));
        let (job, s) = find_job (job_id_of (param_text ps 1)) s;
        (case job of
           None \<Rightarrow> map_option (Pair True) (client_submit_error cfg c None 21 ''Invalid job id'' [] ntime nonce s)
         | Some j \<Rightarrow>
             if deleted (job_at s j) then Some (True, unlock_job job (send c (Result ''true'') s))
             else do {
               r \<leftarrow> equi_checks cfg c j ntime nonce equi_solution s;
               case r of
                 Inl (err, msg) \<Rightarrow> map_option (Pair True) (client_submit_error cfg c job err msg [] ntime nonce s)
               | Inr (v, hash_int) \<Rightarrow>
                   map_option (Pair True)
                     (accept_share cfg c j v (share_difficulty cfg (v_hash_bin v) hash_int) [] ntime nonce s)
             })
      })"

text \<open>
  \<open>client_submit\<close>, for the other algorithms. The suffix of a Decred extra nonce is compared in arrays of
  16 characters.
\<close>

definition decred_suffix :: "nat \<Rightarrow> string \<Rightarrow> string option" where
  "decred_suffix e2size t = strcpy_in 16 (drop (e2size * 2 - 8) t)"

definition submit_checks ::
    "'s config \<Rightarrow> nat \<Rightarrow> nat \<Rightarrow> string \<Rightarrow> string \<Rightarrow> string \<Rightarrow> string \<Rightarrow> stratum \<Rightarrow>
     (int \<times> string \<times> bool + job_values \<times> u64) option" where
  "submit_checks cfg c j extranonce2 ntime nonce vote s =
     (let t = templ (job_at s j); cl = client_at s c; n2 = nat (extranonce2size cl);
          is_decred = (case coind_of (job_at s j) of Some k \<Rightarrow> rpcencoding (coind_at s k) = ''DCR'' | None \<Rightarrow> False)
      in if length nonce \<noteq> 8 \<or> \<not> ishexa nonce then Some (Inl (20, ''Invalid nonce size'', False))
         else if ntime_error cfg t ntime s \<noteq> None then Some (Inl (23, the (ntime_error cfg t ntime s), False))
         else if share_find (obj_id (job_at s j)) extranonce2 ntime nonce (extranonce1 cl) s \<noteq> None
         then Some (Inl (22, ''Duplicate share'', False))
         else if int (length extranonce2) \<noteq> extranonce2size cl * 2 then Some (Inl (24, ''Invalid extranonce2 size'', False))
         else do {
           bad \<leftarrow> (if is_decred \<and> 4 < extranonce2size cl
                   then do {
                     extra1_id \<leftarrow> decred_suffix n2 (extranonce1 cl);
                     extra2_id \<leftarrow> decred_suffix n2 extranonce2;
                     let extranull = (extra2_id = ''00000000'');
                     let extranull = (if extranull \<and> 8 < extranonce2size cl
                                      then drop 8 extranonce2 = ''0000000000000000'' else extranull);
                     Some (if extranull then Some (''Invalid extranonce2 suffix'', False)
                           else if extra2_id \<noteq> extra1_id then Some (''Invalid extranonce2 suffix'', True)
                           else None)
                   }
                   else Some (if ishexa extranonce2 then None else Some (''Invalid nonce2'', False)));
           case bad of
             Some (msg, resend) \<Rightarrow> Some (Inl (27, msg, resend))
           | None \<Rightarrow> do {
               v \<leftarrow> (if is_decred then build_submit_values_decred cfg t extranonce2 nonce vote
                     else build_submit_values cfg t (extranonce1 cl) extranonce2 ntime nonce);
               if v_hash_bin v ! 30 OR v_hash_bin v ! 31 \<noteq> 0 then Some (Inl (25, ''Invalid share'', False))
               else (let hash_int = get_hash_difficulty (v_hash_bin v);
                         user_target = diff_to_target (fpu_of cfg) (diff_multiplier cfg) (difficulty_actual cl);
                         coin_target = network_target (decode_compact (fpu_of cfg) (nbits t))
                     in if user_target < hash_int \<and> coin_target < hash_int
                        then Some (Inl (26, ''Low difficulty share'', False))
                        else Some (Inr (v, hash_int)))
             }
         })"

definition client_submit :: "'s config \<Rightarrow> nat \<Rightarrow> json list \<Rightarrow> stratum \<Rightarrow> (bool \<times> stratum) option" where
  "client_submit cfg c ps s =
     (if length ps < 5 \<or> \<not> valid_string_params ps then Some (bad_params c s)
      else if 32 < length (param_text ps 1) then Some (bad_params c s)
      else (let extranonce2 = string_lower (take 31 (param_text ps 2));
                ntime = string_lower (take 31 (param_text ps 3));
                nonce = string_lower (take 31 (param_text ps 4));
                vote = (if length ps = 6 \<and> strstr (g_stratum_algo cfg) ''phi'' = None
                        then string_lower (take 7 (param_text ps 5)) else []);
                (job, s) = find_job (job_id_of (param_text ps 1)) s
            in case job of
                 None \<Rightarrow> map_option (Pair True) (client_submit_error cfg c None 21 ''Invalid job id'' extranonce2 ntime nonce s)
               | Some j \<Rightarrow>
                   if deleted (job_at s j) then Some (True, unlock_job job (send c (Result ''true'') s))
                   else do {
                     r \<leftarrow> submit_checks cfg c j extranonce2 ntime nonce vote s;
                     case r of
                       Inl (err, msg, resend) \<Rightarrow> do {
                         s \<leftarrow> client_submit_error cfg c job err msg extranonce2 ntime nonce s;
                         Some (True, if resend
                                     then send c (Set_extranonce (extranonce1 (client_at s c)) (extranonce2size (client_at s c))) s
                                     else s)
                       }
                     | Inr (v, hash_int) \<Rightarrow>
                         map_option (Pair True)
                           (accept_share cfg c j v
                             (real (unat (diff_to_target (fpu_of cfg) (diff_multiplier cfg) (rnd (fpu_of cfg) (real (unat hash_int))))))
                             extranonce2 ntime nonce s)
                   }))"

text \<open>\<open>mining.submit\<close> in \<open>client_thread\<close>\<close>

definition mining_submit :: "'s config \<Rightarrow> nat \<Rightarrow> json list \<Rightarrow> stratum \<Rightarrow> (bool \<times> stratum) option" where
  "mining_submit cfg c ps s =
     (if algo_name cfg = ''equihash'' then client_submit_equi cfg c ps s else client_submit cfg c ps s)"

end
