(* ===== verification/Submit_Correct.thy ===== *)
theory Submit_Correct
  imports Submit
begin

text \<open>
  What the handlers of \<open>mining.submit\<close> guarantee: one answer and no lock left behind, only valid shares
  accepted and none twice; what the solution of a share does not protect; the text of a block.
\<close>

section \<open>What a submission leaves alone\<close>

text \<open>The answers to requests, and what the parts of a submission do not touch.\<close>

fun is_reply :: "nat \<times> message \<Rightarrow> bool" where
  "is_reply (c, Result t) = True"
| "is_reply (c, Error n t) = True"
| "is_reply (c, Subscribed d n e l) = True"
| "is_reply (c, m) = False"

definition replies :: "stratum \<Rightarrow> (nat \<times> message) list" where
  "replies s = filter is_reply (sent s)"

definition quiet :: "stratum \<Rightarrow> stratum \<Rightarrow> bool" where
  "quiet s s' \<longleftrightarrow>
     g_list_job s' = g_list_job s \<and> timestamp s' = timestamp s \<and> g_list_share s' = g_list_share s \<and>
     replies s' = replies s \<and>
     (\<forall>j. obj_id (job_at s' j) = obj_id (job_at s j) \<and> deleted (job_at s' j) = deleted (job_at s j) \<and>
          lock_count (job_at s' j) = lock_count (job_at s j) \<and> templ (job_at s' j) = templ (job_at s j)) \<and>
     (\<forall>c. extranonce1 (client_at s' c) = extranonce1 (client_at s c) \<and> cl_shares (client_at s' c) = cl_shares (client_at s c))"

named_theorems quiet_intros \<open>steps that are quiet\<close>

lemma quiet_refl [simp]: "quiet s s"
  by (simp add: quiet_def)

lemma quiet_trans [trans]: "quiet s t \<Longrightarrow> quiet t u \<Longrightarrow> quiet s u"
  by (simp add: quiet_def)

lemma rpc_call_quiet [quiet_intros]: "quiet s (snd (rpc_call cfg k m p s))"
  by (simp add: rpc_call_def quiet_def replies_def Let_def)

lemma rpc_call_quiet_eq: "rpc_call cfg k m p s = (a, s') \<Longrightarrow> quiet s s'"
  using rpc_call_quiet [of s cfg k m p] by simp

lemma block_add_quiet: "block_add u w co ht d du h1 h2 sw s = Some s' \<Longrightarrow> quiet s s'"
  by (auto simp: block_add_def quiet_def replies_def split: bind_splits)

lemma block_confirm_quiet: "block_confirm cfg co h s = Some (b, s') \<Longrightarrow> quiet s s'"
  by (auto simp: block_confirm_def quiet_def replies_def rpc_call_def Let_def
      split: bind_splits option.splits if_splits prod.splits)

lemma coind_submit_quiet: "coind_submit cfg k text s = (b, s') \<Longrightarrow> quiet s s'"
  by (auto simp: coind_submit_def coind_submitwork_def coind_submitblock_def coind_submitblocktemplate_def submit_by_def
      split: if_splits prod.splits option.splits dest!: rpc_call_quiet_eq intro: quiet_trans)

lemma coind_submitgetauxblock_quiet: "coind_submitgetauxblock cfg k h text s = (b, s') \<Longrightarrow> quiet s s'"
  by (auto simp: coind_submitgetauxblock_def split: if_splits prod.splits option.splits dest!: rpc_call_quiet_eq)

lemma submit_aux_quiet:
  assumes "submit_aux cfg c k t v hash_int aux s = Some s'"
  shows "quiet s s'"
  using assms unfolding submit_aux_def Let_def
  by (auto split: option.splits if_splits bind_splits prod.splits
      dest!: coind_submitgetauxblock_quiet block_add_quiet intro: quiet_trans)

lemma submit_auxs_quiet:
  assumes "submit_auxs cfg c k t v hash_int s = Some s'"
  shows "quiet s s'"
proof -
  have "fold_opt (submit_aux cfg c k t v hash_int) as s = Some s' \<Longrightarrow> quiet s s'" for as s
    by (induction as arbitrary: s) (auto split: option.splits dest!: submit_aux_quiet intro: quiet_trans)
  then show ?thesis using assms by (auto simp: submit_auxs_def split: bind_splits)
qed

lemma block_found_quiet: "quiet s (update_job j (\<lambda>b. b\<lparr>block_found := True\<rparr>) s)"
  by (simp add: quiet_def replies_def state_simps)

lemma submit_block_quiet:
  assumes "submit_block cfg c j k v hash_int coin_target s = Some s'"
  shows "quiet s s'"
proof -
  obtain blk b t where t: "coind_submit cfg k blk s = (b, t)"
      "(if \<not> b then Some t else do {
         let t = update_job j (\<lambda>b. b\<lparr>block_found := True\<rparr>) t;
         hash1 \<leftarrow> reversed_in 1024 (hexlify (double_sha cfg (take (length (v_header_be v) div 2) (v_header_bin v))));
         let hash1 = (if usegetwork (coind_at t k) \<and> rpcencoding (coind_at t k) = ''DCR'' then v_hash_hex v else hash1);
         t \<leftarrow> block_add (userid (client_at t c)) (workerid (client_at t c)) (obj_id (coind_at t k)) (height (templ (job_at s j)))
                (target_to_diff (fpu_of cfg) coin_target) (target_to_diff (fpu_of cfg) hash_int)
                hash1 (v_hash_be v) (has_segwit_txs (templ (job_at s j))) t;
         if lastnotifyhash (coind_at t k) = v_hash_be v
         then map_option snd (block_confirm cfg (obj_id (coind_at t k)) (v_hash_be v) t)
         else Some t }) = Some s'"
    using assms unfolding submit_block_def Let_def by (auto split: bind_splits prod.splits)
  have st: "quiet s t" using t(1) by (rule coind_submit_quiet)
  show ?thesis
  proof (cases b)
    case True
    define u where "u = update_job j (\<lambda>b. b\<lparr>block_found := True\<rparr>) t"
    have su: "quiet s u" unfolding u_def using quiet_trans [OF st block_found_quiet] .
    show ?thesis
      using t(2) True su unfolding Let_def u_def [symmetric]
      by (auto split: bind_splits if_splits dest!: block_add_quiet block_confirm_quiet intro: quiet_trans)
  qed (use t(2) st in simp)
qed

lemma client_do_submit_quiet:
  assumes "client_do_submit cfg c j k v s = Some s'"
  shows "quiet s s'"
  using assms unfolding client_do_submit_def Let_def
  by (auto split: bind_splits if_splits dest!: submit_auxs_quiet submit_block_quiet intro: quiet_trans)

lemma remote_submit_quiet: "quiet s (remote_submit cfg c j v e2 nt no s)"
  by (simp add: remote_submit_def quiet_def replies_def update_remote_def submit_add_def Let_def split: option.split)

lemma client_record_difficulty_quiet: "quiet s (client_record_difficulty cfg c s)"
  by (simp add: client_record_difficulty_def quiet_def replies_def state_simps Let_def)

lemma client_ask_stats_quiet: "client_ask_stats c s = (b, s') \<Longrightarrow> quiet s s'"
  by (auto simp: client_ask_stats_def quiet_def replies_def state_simps split: if_splits)

section \<open>Answers and locks\<close>

definition released :: "nat option \<Rightarrow> stratum \<Rightarrow> stratum \<Rightarrow> bool" where
  "released job s s' \<longleftrightarrow>
     (\<forall>j. lock_count (job_at s' j) = lock_count (job_at s j) - (if job = Some j then 1 else 0))"

lemma find_job_cases:
  "find_job i s = (job, t) \<Longrightarrow>
   job = List.find (\<lambda>j. obj_id (job_at s j) = i) (g_list_job s) \<and>
   client_at t = client_at s \<and> sent t = sent s \<and> g_list_share t = g_list_share s \<and> g_list_job t = g_list_job s \<and>
   timestamp t = timestamp s \<and>
   (\<forall>j. obj_id (job_at t j) = obj_id (job_at s j) \<and> deleted (job_at t j) = deleted (job_at s j) \<and>
        templ (job_at t j) = templ (job_at s j)) \<and>
   (\<forall>j. lock_count (job_at t j) = lock_count (job_at s j) + (if job = Some j then 1 else 0))"
  by (auto simp: find_job_def state_simps split: option.splits if_splits)

lemma unlock_released: "released job s (unlock_job job s)"
  by (simp add: released_def unlock_job_def state_simps split: option.splits)

lemma unlock_job_simps [state_simps]:
  "g_list_job (unlock_job job s) = g_list_job s" "client_at (unlock_job job s) = client_at s"
  "sent (unlock_job job s) = sent s" "g_list_share (unlock_job job s) = g_list_share s"
  "timestamp (unlock_job job s) = timestamp s"
  "obj_id (job_at (unlock_job job s) j) = obj_id (job_at s j)"
  "deleted (job_at (unlock_job job s) j) = deleted (job_at s j)"
  "templ (job_at (unlock_job job s) j) = templ (job_at s j)"
  by (simp_all add: unlock_job_def state_simps split: option.split)

text \<open>A share that was recorded: the list of shares grows by it.\<close>

definition recorded :: "nat \<Rightarrow> nat option \<Rightarrow> string \<Rightarrow> string \<Rightarrow> string \<Rightarrow> stratum \<Rightarrow> stratum \<Rightarrow> bool" where
  "recorded c job extranonce2 ntime nonce s s' \<longleftrightarrow>
     (\<exists>sh. g_list_share s' = g_list_share s @ [sh] \<and> \<not> deleted sh \<and>
        sh_jobid sh = (case job of None \<Rightarrow> 0 | Some j \<Rightarrow> obj_id (job_at s j)) \<and> sh_extranonce2 sh = extranonce2 \<and>
        sh_ntime sh = ntime \<and> sh_nonce sh = nonce \<and> sh_nonce1 sh = extranonce1 (client_at s c))"

lemma share_add_cases:
  assumes "share_add cfg c job valid e2 nt no d e s = Some s'"
  shows "recorded c job e2 nt no s s'" and "sent s' = sent s" and "g_list_job s' = g_list_job s"
    and "job_at s' = job_at s" and "extranonce1 (client_at s' k) = extranonce1 (client_at s k)"
    and "cl_shares (client_at s' k) = cl_shares (client_at s k)" and "timestamp s' = timestamp s"
    and "length (extranonce1 (client_at s c)) < 64"
proof -
  have fits: "share_fits s c e2 nt no"
    using assms share_add_None [of s c e2 nt no cfg job valid d e] by (cases "share_fits s c e2 nt no") simp_all
  note eq = assms [unfolded share_add_Some [OF fits], simplified, symmetric]
  show "length (extranonce1 (client_at s c)) < 64" using fits by (simp add: share_fits_def)
  show "recorded c job e2 nt no s s'" by (simp add: recorded_def eq)
  show "sent s' = sent s" "g_list_job s' = g_list_job s" "job_at s' = job_at s"
    "extranonce1 (client_at s' k) = extranonce1 (client_at s k)" by (simp_all add: eq)
  show "cl_shares (client_at s' k) = cl_shares (client_at s k)" "timestamp s' = timestamp s"
    by (simp_all add: eq share_add_worker_def Let_def state_simps split: option.splits)
qed

lemma client_submit_error_cases:
  assumes "client_submit_error cfg c job err msg e2 nt no s = Some s'"
  shows "released job s s'" and "cl_shares (client_at s' k) = cl_shares (client_at s k)"
    and "sent s' = sent s @ [(c, if (case job of None \<Rightarrow> False | Some j \<Rightarrow> deleted (job_at s j))
                                   then Result ''true'' else Error err msg)]"
    and "if (case job of None \<Rightarrow> False | Some j \<Rightarrow> deleted (job_at s j)) then g_list_share s' = g_list_share s
         else recorded c job e2 nt no s s'"
proof -
  let ?del = "case job of None \<Rightarrow> False | Some j \<Rightarrow> deleted (job_at s j)"
  have all: "released job s s' \<and> cl_shares (client_at s' k) = cl_shares (client_at s k) \<and>
    sent s' = sent s @ [(c, if ?del then Result ''true'' else Error err msg)] \<and>
    (if ?del then g_list_share s' = g_list_share s else recorded c job e2 nt no s s')"
  proof (cases ?del)
    case True
    then have "s' = unlock_job job (send c (Result ''true'') s)" using assms by (simp add: client_submit_error_def)
    then show ?thesis using True unlock_released [of job "send c (Result ''true'') s"]
      by (simp add: state_simps released_def)
  next
    case False
    then obtain t where t: "share_add cfg c job False e2 nt no 0 err (send c (Error err msg) s) = Some t"
        "s' = unlock_job job (update_client c (\<lambda>cl. cl\<lparr>submit_bad := submit_bad cl + 1\<rparr>) t)"
      using assms by (auto simp: client_submit_error_def split: bind_splits)
    note sh = share_add_cases [OF t(1)]
    show ?thesis
      using False sh t(2) unlock_released [of job "update_client c (\<lambda>cl. cl\<lparr>submit_bad := submit_bad cl + 1\<rparr>) t"]
      by (cases job) (auto simp: state_simps released_def recorded_def)
  qed
  then show "released job s s'" "cl_shares (client_at s' k) = cl_shares (client_at s k)"
    "sent s' = sent s @ [(c, if ?del then Result ''true'' else Error err msg)]"
    "if ?del then g_list_share s' = g_list_share s else recorded c job e2 nt no s s'" by blast+
qed

lemma accept_share_cases:
  assumes "accept_share cfg c j v d e2 nt no s = Some s'"
  shows "released (Some j) s s'" and "replies s' = replies s @ [(c, Result ''true'')]"
    and "cl_shares (client_at s' k) = cl_shares (client_at s k) + (if k = c then 1 else 0)"
    and "recorded c (Some j) e2 nt no s s'" and "g_list_job s' = g_list_job s" and "timestamp s' = timestamp s"
    and "obj_id (job_at s' i) = obj_id (job_at s i)" and "deleted (job_at s' i) = deleted (job_at s i)"
    and "templ (job_at s' i) = templ (job_at s i)"
    and "extranonce1 (client_at s' k) = extranonce1 (client_at s k)" and "length (extranonce1 (client_at s c)) < 64"
proof -
  obtain t where t: "(case coind_of (job_at s j) of Some k \<Rightarrow> client_do_submit cfg c j k v s
           | None \<Rightarrow> Some (remote_submit cfg c j v e2 nt no s)) = Some t"
    using assms unfolding accept_share_def by (auto split: bind_splits)
  define t1 where "t1 = client_record_difficulty cfg c (send c (Result ''true'') t)"
  define t2 where "t2 = update_client c (\<lambda>cl. cl\<lparr>submit_bad := 0, cl_shares := cl_shares cl + 1\<rparr>) t1"
  define t3 where "t3 = (if cl_shares (client_at t2 c) \<le> 200 \<and> cl_shares (client_at t2 c) mod 50 = 0
              then (let (b, s) = client_ask_stats c t2
                    in if b then s else update_client c (\<lambda>cl. cl\<lparr>stats := False\<rparr>) s) else t2)"
  obtain t4 where t4: "share_add cfg c (Some j) True e2 nt no d 0 t3 = Some t4" "s' = unlock_job (Some j) t4"
  proof -
    have "Option.bind (share_add cfg c (Some j) True e2 nt no d 0 t3) (\<lambda>s. Some (unlock_job (Some j) s)) = Some s'"
      using assms unfolding accept_share_def t Let_def t3_def t2_def t1_def by (simp only: Option.bind.simps)
    then show thesis using that by (auto split: bind_splits)
  qed
  have q0: "quiet s t"
    using t client_do_submit_quiet remote_submit_quiet by (auto split: option.splits)
  have q1: "quiet (send c (Result ''true'') t) t1" unfolding t1_def by (rule client_record_difficulty_quiet)
  have q3: "quiet t2 t3"
    unfolding t3_def Let_def
    by (auto simp: split: prod.splits dest: client_ask_stats_quiet)
       (auto simp: quiet_def replies_def state_simps dest!: client_ask_stats_quiet)
  note sh = share_add_cases [OF t4(1)]
  have fields: "g_list_job t3 = g_list_job s" "timestamp t3 = timestamp s" "g_list_share t3 = g_list_share s"
    "replies t3 = replies s @ [(c, Result ''true'')]"
    "obj_id (job_at t3 i) = obj_id (job_at s i)" "deleted (job_at t3 i) = deleted (job_at s i)"
    "lock_count (job_at t3 i) = lock_count (job_at s i)" "templ (job_at t3 i) = templ (job_at s i)"
    "extranonce1 (client_at t3 k) = extranonce1 (client_at s k)"
    "cl_shares (client_at t3 k) = cl_shares (client_at s k) + (if k = c then 1 else 0)" for i k
    using q0 q1 q3 by (simp_all add: quiet_def t2_def state_simps replies_def)
  show "released (Some j) s s'"
    using unlock_released [of "Some j" t4] fields sh(4) by (simp add: t4(2) released_def)
  show "replies s' = replies s @ [(c, Result ''true'')]"
    using fields(4) sh(2) by (simp add: t4(2) replies_def state_simps)
  show "cl_shares (client_at s' k) = cl_shares (client_at s k) + (if k = c then 1 else 0)"
    "g_list_job s' = g_list_job s" "timestamp s' = timestamp s"
    "obj_id (job_at s' i) = obj_id (job_at s i)" "deleted (job_at s' i) = deleted (job_at s i)"
    "templ (job_at s' i) = templ (job_at s i)" "extranonce1 (client_at s' k) = extranonce1 (client_at s k)"
    using fields sh by (simp_all add: t4(2) state_simps)
  show "length (extranonce1 (client_at s c)) < 64" using sh(8) fields(9) [of c] by simp
  show "recorded c (Some j) e2 nt no s s'"
    using sh(1) fields by (simp add: t4(2) recorded_def state_simps)
qed

definition answered :: "nat \<Rightarrow> bool \<Rightarrow> stratum \<Rightarrow> stratum \<Rightarrow> bool" where
  "answered c b s s' \<longleftrightarrow>
     (if b then \<exists>m. replies s' = replies s @ [(c, m)] else replies s' = replies s) \<and>
     (\<forall>j. lock_count (job_at s' j) = lock_count (job_at s j))"

lemma answered_locked:
  assumes "find_job i s = (job, t)" and "released job t s'" and "replies s' = replies t @ [(c, m)]"
  shows "answered c True s s'"
  using assms(2,3) find_job_cases [OF assms(1)] by (auto simp: answered_def released_def replies_def)

lemma error_answered:
  assumes "find_job i s = (job, t)" and "client_submit_error cfg c job err msg e2 nt no t = Some s'"
  shows "answered c True s s'"
proof -
  note e = client_submit_error_cases [OF assms(2)]
  have "replies s' = replies t @ [(c, if (case job of None \<Rightarrow> False | Some j \<Rightarrow> deleted (job_at t j))
      then Result ''true'' else Error err msg)]"
    by (simp add: replies_def e(3))
  then show ?thesis by (rule answered_locked [OF assms(1) e(1)])
qed

lemma accept_answered:
  assumes "find_job i s = (Some j, t)" and "accept_share cfg c j v d e2 nt no t = Some s'"
  shows "answered c True s s'"
  using answered_locked [OF assms(1)] accept_share_cases [OF assms(2)] by simp

lemma deleted_answered:
  assumes "find_job i s = (job, t)"
  shows "answered c True s (unlock_job job (send c (Result ''true'') t))"
proof -
  have "released job t (unlock_job job (send c (Result ''true'') t))"
    using unlock_released [of job "send c (Result ''true'') t"] by (simp add: released_def state_simps)
  then show ?thesis using answered_locked [OF assms] by (simp add: replies_def state_simps)
qed

lemma bad_params_answered: "bad_params c s = (b, s') \<Longrightarrow> answered c b s s'"
  by (auto simp: bad_params_def answered_def replies_def state_simps)

lemma resend_answered: "answered c True s s' \<Longrightarrow> answered c True s (send c (Set_extranonce e n) s')"
  by (simp add: answered_def replies_def state_simps)

lemmas submit_answered =
  error_answered accept_answered deleted_answered bad_params_answered resend_answered

lemma client_submit_equi_answered:
  assumes "client_submit_equi cfg c ps s = Some (b, s')"
  shows "answered c b s s'"
  using assms unfolding client_submit_equi_def Let_def
  by (auto split: bind_splits option.splits if_splits sum.splits prod.splits
      intro: submit_answered)

lemma client_submit_answered:
  assumes "client_submit cfg c ps s = Some (b, s')"
  shows "answered c b s s'"
  using assms unfolding client_submit_def Let_def
  by (auto split: bind_splits option.splits if_splits sum.splits prod.splits
      intro: submit_answered)

text \<open>
  C25. Every submission that keeps the connection is answered by exactly one message to the miner that made
  it, every one that does not by none, and the lock the handler takes on the job is released on
  every path.
\<close>

theorem submit_answered_once:
  assumes "mining_submit cfg c ps s = Some (b, s')"
  shows "(if b then \<exists>m. replies s' = replies s @ [(c, m)] else replies s' = replies s) \<and>
         (\<forall>j. lock_count (job_at s' j) = lock_count (job_at s j))"
proof -
  have "answered c b s s'"
    using assms client_submit_equi_answered [of cfg c ps s b s'] client_submit_answered [of cfg c ps s b s']
    by (simp add: mining_submit_def split: if_splits)
  then show ?thesis by (simp add: answered_def)
qed

definition example_params :: "json list" where
  "example_params = [J_string ''w'', J_string ''7'', J_string ''0000005b'', J_string ''00'', J_string ''00'']"

lemma example_params_texts: "param_text example_params (Suc 0) = ''7''" "param_text example_params 2 = ''0000005b''"
  "param_text example_params 3 = ''00''" "length example_params = 5" "valid_string_params example_params"
  by (simp_all add: example_params_def param_text_def valid_string_params_def)

lemma example_ntime: "reversed_in 9 (take 8 ''0000005b'') = Some ''5b000000''"
  by code_simp

theorem submit_answered_once_witness:
  "\<exists>s' m. mining_submit example_config 0 example_params empty_stratum = Some (True, s') \<and>
     replies s' = replies empty_stratum @ [(0, m)]"
proof -
  have "share_fits (send 0 (Error 21 ''Invalid job id'') empty_stratum) 0 [] (string_lower ''5b000000'') (string_lower (take 64 ''00''))"
    by (simp add: share_fits_def state_simps string_lower_def empty_stratum_def zero_client_def)
  then obtain s' where s': "client_submit_error example_config 0 None 21 ''Invalid job id'' []
      (string_lower ''5b000000'') (string_lower (take 64 ''00'')) empty_stratum = Some s'"
    by (simp add: client_submit_error_def share_add_Some)
  have "mining_submit example_config 0 example_params empty_stratum = Some (True, s')"
  proof -
    have "find_job i empty_stratum = (None, empty_stratum)" for i by (simp add: find_job_def empty_stratum_def)
    moreover have "algo_name example_config = ''equihash''" by (simp add: example_config_def)
    ultimately show ?thesis
      using s' by (simp add: mining_submit_def client_submit_equi_def example_params_texts Let_def
        example_ntime [simplified])
  qed
  from this submit_answered_once [OF this] show ?thesis by auto
qed

section \<open>Accepted shares\<close>

definition equi_ntime :: "json list \<Rightarrow> string" where
  "equi_ntime ps = string_lower (the (reversed_in 9 (take 8 (param_text ps 2))))"

definition equi_nonce :: "json list \<Rightarrow> string" where
  "equi_nonce ps = string_lower (take 64 (param_text ps 3))"

definition equi_solution_of :: "json list \<Rightarrow> string" where
  "equi_solution_of ps = string_lower (take (1344 * 2 + 3 * 2) (param_text ps 4))"

text \<open>What an accepted equihash share has passed.\<close>

definition valid_equi_share :: "'s config \<Rightarrow> nat \<Rightarrow> nat \<Rightarrow> json list \<Rightarrow> stratum \<Rightarrow> bool" where
  "valid_equi_share cfg c j ps s \<longleftrightarrow>
     length (equi_nonce ps) = 56 \<and> ishexa (equi_nonce ps) \<and>
     ntime_error cfg (templ (job_at s j)) (equi_ntime ps) s = None \<and>
     share_find (obj_id (job_at s j)) [] (equi_ntime ps) (equi_nonce ps) (extranonce1 (client_at s c)) s = None \<and>
     (\<exists>v hash_int coin_target.
        build_submit_values_equi cfg (templ (job_at s j)) (extranonce1 (client_at s c)) [] (equi_ntime ps)
          (equi_nonce ps) (equi_solution_of ps) = Some v \<and>
        (algo_name cfg = ''equihash'' \<longrightarrow> verifyEH (blake cfg) (v_header_bin v) (drop 143 (v_header_bin v)) = Some True) \<and>
        share_targets cfg (templ (job_at s j)) (v_hash_bin v) = Some (hash_int, coin_target) \<and>
        (hash_int \<le> diff_to_target (fpu_of cfg) (diff_multiplier cfg) (difficulty_actual (client_at s c)) \<or>
         hash_int \<le> coin_target))"

lemma equi_checks_valid:
  assumes "equi_checks cfg c j (equi_ntime ps) (equi_nonce ps) (equi_solution_of ps) s = Some (Inr (v, h))"
  shows "valid_equi_share cfg c j ps s"
  using assms unfolding equi_checks_def valid_equi_share_def Let_def
  by (auto split: if_splits bind_splits simp: not_less)

lemma valid_equi_share_cong:
  assumes "templ (job_at t j) = templ (job_at s j)" "obj_id (job_at t j) = obj_id (job_at s j)"
    "client_at t = client_at s" "timestamp t = timestamp s" "g_list_share t = g_list_share s"
  shows "valid_equi_share cfg c j ps t = valid_equi_share cfg c j ps s"
  unfolding valid_equi_share_def ntime_error_def ntime_valid_range_def share_find_def time_of_def by (simp add: assms)

lemma client_submit_equi_bad:
  assumes "length ps < 5 \<or> \<not> valid_string_params ps \<or> 32 < length (param_text ps 1)"
  shows "client_submit_equi cfg c ps s = Some (bad_params c s)"
proof (cases "length ps < 5 \<or> \<not> valid_string_params ps")
  case True
  then show ?thesis by (simp add: client_submit_equi_def)
next
  case False
  then show ?thesis using assms by (simp add: client_submit_equi_def)
qed

lemma client_submit_equi_body:
  assumes ok: "\<not> (length ps < 5 \<or> \<not> valid_string_params ps)" "\<not> 32 < length (param_text ps 1)"
    and r: "reversed_in 9 (take 8 (param_text ps 2)) = Some r" and t: "find_job (job_id_of (param_text ps 1)) s = (job, t)"
  shows "client_submit_equi cfg c ps s = (case job of
           None \<Rightarrow> map_option (Pair True) (client_submit_error cfg c None 21 ''Invalid job id'' [] (equi_ntime ps) (equi_nonce ps) t)
         | Some j \<Rightarrow>
             if deleted (job_at t j) then Some (True, unlock_job job (send c (Result ''true'') t))
             else do {
               r \<leftarrow> equi_checks cfg c j (equi_ntime ps) (equi_nonce ps) (equi_solution_of ps) t;
               case r of
                 Inl (err, msg) \<Rightarrow> map_option (Pair True) (client_submit_error cfg c job err msg [] (equi_ntime ps) (equi_nonce ps) t)
               | Inr (v, hash_int) \<Rightarrow>
                   map_option (Pair True)
                     (accept_share cfg c j v (share_difficulty cfg (v_hash_bin v) hash_int) [] (equi_ntime ps) (equi_nonce ps) t)
             })"
proof -
  have nt: "equi_ntime ps = string_lower r" by (simp only: equi_ntime_def r option.sel)
  show ?thesis
    unfolding client_submit_equi_def nt equi_nonce_def equi_solution_of_def
    by (simp only: ok r t if_False simp_thms Let_def Option.bind.simps prod.case)
qed

lemma client_submit_equi_accepts:
  assumes "client_submit_equi cfg c ps s = Some (b, s')"
    and "cl_shares (client_at s' c) \<noteq> cl_shares (client_at s c)"
  shows "\<exists>j t v d. find_job (job_id_of (param_text ps 1)) s = (Some j, t) \<and> \<not> deleted (job_at s j) \<and> b \<and>
    valid_equi_share cfg c j ps s \<and> accept_share cfg c j v d [] (equi_ntime ps) (equi_nonce ps) t = Some s' \<and>
    5 \<le> length ps \<and> valid_string_params ps \<and> length (param_text ps 1) \<le> 32 \<and>
    reversed_in 9 (take 8 (param_text ps 2)) \<noteq> None"
proof -
  obtain job t where t: "find_job (job_id_of (param_text ps 1)) s = (job, t)" by fastforce
  note f = find_job_cases [OF t]
  have "client_submit_equi cfg c ps s \<noteq> Some (bad_params c s)"
    using assms by (auto simp: bad_params_def state_simps)
  then have ok: "\<not> (length ps < 5 \<or> \<not> valid_string_params ps)" "\<not> 32 < length (param_text ps 1)"
    using client_submit_equi_bad by blast+
  obtain r where r: "reversed_in 9 (take 8 (param_text ps 2)) = Some r"
    using assms(1) ok by (auto simp: client_submit_equi_def simp del: One_nat_def split: bind_splits)
  note body = assms(1) [unfolded client_submit_equi_body [OF ok r t]]
  have same: "cl_shares (client_at t c) = cl_shares (client_at s c)" using f by simp
  have err: "cl_shares (client_at u c) = cl_shares (client_at s c)"
    if "client_submit_error cfg c job' e msg [] (equi_ntime ps) (equi_nonce ps) t = Some u" for job' e msg u
    using client_submit_error_cases(2) [OF that, of c] same by simp
  obtain j where j: "job = Some j"
    using body assms(2) err by (cases job) auto
  have live: "\<not> deleted (job_at t j)"
    using body assms(2) j same by (auto simp: state_simps split: if_splits)
  obtain v h where v: "equi_checks cfg c j (equi_ntime ps) (equi_nonce ps) (equi_solution_of ps) t = Some (Inr (v, h))"
      "accept_share cfg c j v (share_difficulty cfg (v_hash_bin v) h) [] (equi_ntime ps) (equi_nonce ps) t = Some s'" "b"
    using body assms(2) j live err by (auto split: bind_splits sum.splits prod.splits)
  have "valid_equi_share cfg c j ps s"
    using equi_checks_valid [OF v(1)] f by (simp add: valid_equi_share_cong [of t j s])
  then show ?thesis using t j live f v ok r by auto
qed

text \<open>
  C26. The number of accepted shares of a miner only grows by a share that names a live job of the list, has a
  nonce of 28 hexadecimal bytes, an allowed time, is not yet recorded, carries a valid equihash
  solution for its header and is below the miner's target or the network's; and the share is
  then recorded.
\<close>

theorem equi_share_accepted_valid:
  assumes "client_submit_equi cfg c ps s = Some (b, s')"
    and "cl_shares (client_at s' c) \<noteq> cl_shares (client_at s c)"
  shows "\<exists>j \<in> set (g_list_job s). obj_id (job_at s j) = job_id_of (param_text ps 1) \<and> \<not> deleted (job_at s j) \<and>
    valid_equi_share cfg c j ps s \<and> cl_shares (client_at s' c) = cl_shares (client_at s c) + 1 \<and>
    recorded c (Some j) [] (equi_ntime ps) (equi_nonce ps) s s'"
proof -
  obtain j t v d where j: "find_job (job_id_of (param_text ps 1)) s = (Some j, t)" "\<not> deleted (job_at s j)"
      "valid_equi_share cfg c j ps s" "accept_share cfg c j v d [] (equi_ntime ps) (equi_nonce ps) t = Some s'"
    using client_submit_equi_accepts [OF assms] by blast
  note f = find_job_cases [OF j(1)] and a = accept_share_cases [OF j(4)]
  have "Some j = List.find (\<lambda>j. obj_id (job_at s j) = job_id_of (param_text ps 1)) (g_list_job s)" using f by blast
  then have "j \<in> set (g_list_job s)" "obj_id (job_at s j) = job_id_of (param_text ps 1)"
    by (auto dest!: sym [of "Some j"] simp: find_Some_iff)
  moreover have "recorded c (Some j) [] (equi_ntime ps) (equi_nonce ps) s s'"
  proof -
    have "g_list_share t = g_list_share s" "obj_id (job_at t j) = obj_id (job_at s j)" "client_at t = client_at s"
      using f by simp_all
    then show ?thesis using a(4) by (simp add: recorded_def)
  qed
  ultimately show ?thesis using j(2,3) a(3) [of c] f by auto
qed

section \<open>What the solution is not bound to\<close>

text \<open>The header of a share: the part before the length of the solution, that length, the solution.\<close>

lemma build_equi_header:
  "\<exists>head. \<forall>sol v. build_submit_values_equi cfg t n1 n2 ntime nonce sol = Some v \<longrightarrow>
     v_header v = head @ sol \<and> length (v_header v) < 2975 \<and>
     v_header_bin v = binlify (v_header v) @ replicate (1487 - length (v_header v) div 2) 0"
proof (cases "do {
     coinbase \<leftarrow> strcpy_in (16 * 1024) (coinbase_of t);
     root \<leftarrow> merkleroot cfg t coinbase;
     root_be \<leftarrow> strcpy_in 1024 root;
     rev_version \<leftarrow> reversed_in 32 (tversion t);
     rev_ntime \<leftarrow> reversed_in 32 ntime;
     rev_nbits \<leftarrow> reversed_in 32 (nbits t);
     Some (rev_version @ prevhash_be t @ root_be @ extradata_be t @ rev_ntime @ rev_nbits @ n1 @ nonce) }")
  case None
  then show ?thesis unfolding build_submit_values_equi_def by (intro exI [of _ "[]"]) (auto split: bind_splits)
next
  case (Some head)
  show ?thesis
  proof (intro exI [of _ head] allI impI)
    fix sol v
    assume "build_submit_values_equi cfg t n1 n2 ntime nonce sol = Some v"
    then show "v_header v = head @ sol \<and> length (v_header v) < 2975 \<and>
        v_header_bin v = binlify (v_header v) @ replicate (1487 - length (v_header v) div 2) 0"
      using Some unfolding build_submit_values_equi_def
      by (auto simp: hash_header_def strcpy_in_def buf_write_def EQUI_HEADER_SIZE_def Let_def split: bind_splits if_splits)
  qed
qed

lemma header_bin_parts:
  assumes "v_header v = head @ pfx @ sol" "length head = 280" "length pfx = 6" "length (v_header v) < 2975"
    "v_header_bin v = binlify (v_header v) @ replicate (1487 - length (v_header v) div 2) 0"
  shows "take 140 (v_header_bin v) = binlify head"
    "drop 143 (v_header_bin v) = binlify sol @ replicate (1344 - length sol div 2) 0"
    "length (v_header_bin v) = 1487"
proof -
  have b: "binlify (v_header v) = binlify head @ binlify pfx @ binlify sol"
    using assms(1-3) by (simp add: binlify_append)
  have len: "length (binlify head) = 140" "length (binlify pfx) = 3" using assms(2,3) by simp_all
  have n: "1487 - length (v_header v) div 2 = 1344 - length sol div 2" using assms(1-3) by simp
  show "take 140 (v_header_bin v) = binlify head" unfolding assms(5) b using len by simp
  show "drop 143 (v_header_bin v) = binlify sol @ replicate (1344 - length sol div 2) 0"
    unfolding assms(5) b n using len by simp
  show "length (v_header_bin v) = 1487" unfolding assms(5) using assms(4) by simp
qed

lemma verifyEH_header_prefix: "length hdr = 1487 \<Longrightarrow> length hdr' = 1487 \<Longrightarrow> take 140 hdr = take 140 hdr' \<Longrightarrow>
  verifyEH B hdr sol = verifyEH B hdr' sol"
  by (simp add: verifyEH_def buf_read_def Let_def)

lemma binlify_zeros: "binlify (replicate (2 * n) CHR ''0'') = replicate n 0"
proof (induction n)
  case (Suc n)
  have "replicate (2 * Suc n) CHR ''0'' = CHR ''0'' # CHR ''0'' # replicate (2 * n) CHR ''0''" by simp
  then show ?case using Suc by (simp only: binlify.simps replicate.simps) (simp add: binvalue_def)
qed simp

lemma zero_solution_verifies:
  assumes "build_submit_values_equi cfg t n1 n2 ntime nonce (pfx @ replicate 2688 CHR ''0'') = Some v"
    and "length pfx = 6" and "length (v_header v) = 286 + 2688" and "blake2b_fills (blake cfg)"
  shows "verifyEH (blake cfg) (v_header_bin v) (drop 143 (v_header_bin v)) = Some True"
proof -
  obtain head where v: "v_header v = head @ pfx @ replicate 2688 CHR ''0''" "length (v_header v) < 2975"
      "v_header_bin v = binlify (v_header v) @ replicate (1487 - length (v_header v) div 2) 0"
    using build_equi_header [of cfg t n1 n2 ntime nonce] assms(1) by blast
  have len: "length head = 280" using v(1) assms(2,3) by simp
  note P = header_bin_parts [OF v(1) len assms(2) v(2,3)]
  have "drop 143 (v_header_bin v) = replicate 1344 0"
    unfolding P(2) using binlify_zeros [of 1344] by simp
  then show ?thesis
    using verifyEH_spec [OF assms(4), of "v_header_bin v" "replicate 1344 0"] P(3)
    by (simp add: xor_sum_paired solution_indices_zero count_list_replicate_if)
qed


section \<open>Duplicates\<close>

lemma fold_opt_length:
  "(\<And>i a b. f i a = Some b \<Longrightarrow> length b = length a) \<Longrightarrow> fold_opt f xs a = Some b \<Longrightarrow> length b = length a"
  by (induction xs arbitrary: a) (auto split: option.splits)

lemma string_be_length: "string_be s out = Some t \<Longrightarrow> length t = length out"
  unfolding string_be_def Let_def
  by (rule fold_opt_length) (auto simp: copy_chars_def dest: buf_write_length split: bind_splits)

lemma reversed_in_Some:
  assumes "length s \<le> n"
  shows "\<exists>r. reversed_in n s = Some r \<and> length r \<le> n"
proof -
  obtain r where r: "string_be s (array_of n []) = Some r"
    using string_be_spec [of s "array_of n []"] assms by (auto simp: array_of_def)
  then have "length r = n" using string_be_length [OF r] by (simp add: array_of_def)
  then show ?thesis
    using r length_takeWhile_le [of "\<lambda>c. c \<noteq> CHR 0x00" r] by (simp add: reversed_in_def c_text_def)
qed

lemma length_equi_ntime: "length (equi_ntime ps) \<le> 9"
proof -
  have "length (take 8 (param_text ps 2)) \<le> 9" by simp
  then obtain r where "reversed_in 9 (take 8 (param_text ps 2)) = Some r" "length r \<le> 9"
    using reversed_in_Some by blast
  then show ?thesis by (simp add: equi_ntime_def string_lower_def)
qed

lemma ntime_error_cong: "timestamp s1 = timestamp s \<Longrightarrow> ntime_error cfg t n s1 = ntime_error cfg t n s"
  by (simp add: ntime_error_def ntime_valid_range_def time_of_def)

lemma recorded_found:
  "recorded c (Some j) e2 nt no s s' \<Longrightarrow>
   share_find (obj_id (job_at s j)) e2 nt no (extranonce1 (client_at s c)) s' \<noteq> None"
  by (auto simp: recorded_def share_find_def find_None_iff)


section \<open>The array of five characters\<close>

lemma c_text_hexlify: "c_text (hexlify bs @ CHR 0x00 # r) = hexlify bs"
proof -
  have "\<forall>c\<in>set (hexlify bs). c \<noteq> CHR 0x00"
    using nonzero_hexlify [of bs] unfolding takeWhile_eq_all_conv .
  then have "takeWhile (\<lambda>c. c \<noteq> CHR 0x00) (hexlify bs @ CHR 0x00 # r) =
      hexlify bs @ takeWhile (\<lambda>c. c \<noteq> CHR 0x00) (CHR 0x00 # r)" by (intro takeWhile_append2) blast
  then show ?thesis by (simp add: c_text_def)
qed

lemma bits_of_digits:
  assumes "lower_hex t" and "length t = 8"
  shows "bits_of cfg t = (if 4 \<le> bits_slack cfg then Some (of_nat (be_val (binlify t))) else None)"
proof -
  define bs where "bs = binlify t"
  have bs: "t = hexlify bs" "length bs = 4"
    using assms hexlify_binlify [of t] by (simp_all add: bs_def)
  show ?thesis
  proof (cases "4 \<le> bits_slack cfg")
    case True
    obtain n where n: "5 + bits_slack cfg - 8 = Suc n" using True by (cases "5 + bits_slack cfg - 8") auto
    have "string_be t (array_of (5 + bits_slack cfg) []) = Some (hexlify (rev bs) @ CHR 0x00 # replicate n CHR 0x00)"
      using string_be_hexlify [of bs "array_of (5 + bits_slack cfg) []"] bs True n by (simp add: array_of_def)
    then show ?thesis
      using True bs by (simp add: bits_of_def c_text_hexlify binlify_hexlify)
  next
    case False
    consider "bits_slack cfg < 3" | "bits_slack cfg = 3" using False by linarith
    then show ?thesis
    proof cases
      case 1
      then have "string_be t (array_of (5 + bits_slack cfg) []) = None"
        using string_be_overflow [of "array_of (5 + bits_slack cfg) []" t] bs by (simp add: array_of_def)
      then show ?thesis using False by (simp add: bits_of_def)
    next
      case 2
      then have "string_be t (array_of (5 + bits_slack cfg) []) = Some (hexlify (rev bs))"
        using string_be_hexlify [of bs "array_of (5 + bits_slack cfg) []"] bs by (simp add: array_of_def)
      moreover have "c_text (hexlify (rev bs)) = hexlify (rev bs)" unfolding c_text_def by (rule nonzero_hexlify)
      ultimately show ?thesis using 2 bs by (simp add: bits_of_def)
    qed
  qed
qed

text \<open>
  The compact target of the network, eight hexadecimal digits, is read through an array that has room
  for four and a NUL: the value is right if the compiler leaves at least four unused bytes behind
  the array, and otherwise every equihash share that gets as far overwrites something else.
\<close>

lemma bits_of_text:
  assumes "lower_hex t" and "length t = 8"
  shows "bits_of cfg t = (if 4 \<le> bits_slack cfg then Some (of_nat (be_val (binlify t))) else None)"
  using assms by (rule bits_of_digits)

section \<open>An example\<close>

definition example_template :: template where
  "example_template = zero_template\<lparr>tversion := ''00000000'', prevhash_be := replicate 64 CHR ''0'',
     extradata_be := replicate 64 CHR ''0'', nbits := ''200f0f0f'', ntime_of := ''00000000''\<rparr>"

definition example_pool :: stratum where
  "example_pool = empty_stratum\<lparr>g_list_job := [1], job_at := (\<lambda>_. zero_job\<lparr>obj_id := 7, templ := example_template\<rparr>),
     client_at := (\<lambda>_. zero_client\<lparr>extranonce1 := ''81000001'', difficulty_actual := 16\<rparr>)\<rparr>"

definition example_share :: "json list" where
  "example_share = [J_string ''w'', J_string ''7'', J_string ''00000000'', J_string (replicate 56 CHR ''0''),
     J_string (replicate 2694 CHR ''0'')]"

lemma example_reversed: "reversed_in 9 ''00000000'' = Some ''00000000''" "reversed_in 32 ''00000000'' = Some ''00000000''"
  "reversed_in 32 ''200f0f0f'' = Some ''0f0f0f20''" "string_lower ''00000000'' = ''00000000''" "job_id_of ''7'' = 7"
  by code_simp+

lemma string_lower_zeros: "string_lower (replicate n CHR ''0'') = replicate n CHR ''0''"
  by (simp add: string_lower_def lower_char_def)

lemma example_share_texts:
  "param_text example_share (Suc 0) = ''7''" "equi_ntime example_share = ''00000000''"
  "equi_nonce example_share = replicate 56 CHR ''0''" "equi_solution_of example_share = replicate 2694 CHR ''0''"
  "length example_share = 5" "valid_string_params example_share" "param_text example_share 2 = ''00000000''"
  by (simp_all add: example_share_def param_text_def equi_ntime_def equi_nonce_def equi_solution_of_def
      valid_string_params_def string_lower_zeros example_reversed)

lemma example_merkleroot: "merkleroot example_config example_template [] = Some (hexlify (replicate 32 0))"
  by (simp add: merkleroot_def coinbase_hash_def example_config_def example_template_def zero_template_def
      buf_write_def strcpy_in_def merkle_with_first_def)

lemma example_build:
  assumes "length sol = 2694"
  shows "\<exists>v. build_submit_values_equi example_config example_template ''81000001'' [] ''00000000'' (replicate 56 CHR ''0'') sol = Some v \<and>
     length (v_header v) = 280 + 2694 \<and> v_hash_bin v = replicate 32 0"
proof -
  have "coinbase_of example_template = []" by (simp add: example_template_def zero_template_def)
  moreover obtain r where "reversed_in 1024 (hexlify (take 32 (replicate 32 0))) = Some r"
    using reversed_in_Some [of "hexlify (take 32 (replicate 32 0))" 1024] by auto
  moreover have "tversion example_template = ''00000000''" "nbits example_template = ''200f0f0f''"
    "length (prevhash_be example_template) = 64" "length (extradata_be example_template) = 64"
    by (simp_all add: example_template_def)
  moreover have "hash_function example_config bs = replicate 32 0" for bs by (simp add: example_config_def)
  ultimately show ?thesis
    using assms
    by (simp add: build_submit_values_equi_def example_merkleroot strcpy_in_def example_reversed EQUI_HEADER_SIZE_def
        buf_write_def hash_header_def Let_def)
qed


lemma example_accepted:
  "\<exists>s1. client_submit_equi example_config 0 example_share example_pool = Some (True, s1) \<and>
     cl_shares (client_at s1 0) \<noteq> cl_shares (client_at example_pool 0)"
proof -
  obtain t where t: "find_job 7 example_pool = (Some 1, t)"
    by (simp add: find_job_def example_pool_def)
  note f = find_job_cases [OF t]
  have pool: "job_at example_pool j = zero_job\<lparr>obj_id := 7, templ := example_template\<rparr>"
    "client_at example_pool c = zero_client\<lparr>extranonce1 := ''81000001'', difficulty_actual := 16\<rparr>"
    "g_list_share example_pool = []" for j c
    by (simp_all add: example_pool_def empty_stratum_def)
  have tt: "templ (job_at t 1) = example_template" "deleted (job_at t 1) = False" "client_at t 0 = client_at example_pool 0"
    using f by (simp_all add: pool zero_job_def)
  obtain v where v: "build_submit_values_equi example_config example_template ''81000001'' [] ''00000000'' (replicate 56 CHR ''0'')
       (replicate 2694 CHR ''0'') = Some v" "length (v_header v) = 280 + 2694" "v_hash_bin v = replicate 32 0"
    using example_build [of "replicate 2694 CHR ''0''"] by auto
  have parts: "replicate 2694 CHR ''0'' = replicate 6 CHR ''0'' @ replicate 2688 CHR ''0''"
    by (simp flip: replicate_add)
  have "blake2b_fills (blake example_config)" by (simp add: example_config_def sum_blake2b_fills)
  then have eh: "verifyEH (blake example_config) (v_header_bin v) (drop 143 (v_header_bin v)) = Some True"
    using zero_solution_verifies [OF v(1) [unfolded parts]] v(2) by simp
  obtain tgt where tgt: "diff_to_target_equi exact_fpu (replicate 32 0) 16 = Some tgt" "length tgt = 32"
    using diff_to_target_equi_large [OF rounds_exact, of "replicate 32 0" 16] by auto
  then have "\<exists>x. string_be (hexlify tgt) (replicate 64 CHR 0x00) = Some x"
    using string_be_spec [of "hexlify tgt" "replicate 64 CHR 0x00"] by auto
  then have target: "\<exists>x. target_string example_config 16 = Some x"
    using tgt by (simp add: target_string_def example_config_def)
  have bits: "\<exists>b. bits_of example_config ''200f0f0f'' = Some b"
    using bits_of_digits [of "''200f0f0f''" example_config] by (simp add: lower_hex_def example_config_def)
  have targets: "\<exists>n. share_targets example_config example_template (replicate 32 0) = Some (0, n)"
    using bits by (auto simp: share_targets_def example_template_def example_config_def equi_hash_int_def
      target_to_diff_equi_def target_word_equi_def diff_to_target_def)
  have "ntime_error example_config example_template ''00000000'' t = None"
    by (simp add: ntime_error_def example_template_def)
  moreover have "share_find 7 [] ''00000000'' (replicate 56 CHR ''0'') ''81000001'' t = None"
    using f by (simp add: share_find_def pool)
  moreover have "ishexa (replicate 56 CHR ''0'')" by (simp add: ishexa_def list_all_iff)
  moreover have "obj_id (job_at t 1) = 7" using f by (simp add: pool)
  ultimately have checks: "equi_checks example_config 0 1 ''00000000'' (replicate 56 CHR ''0'') (replicate 2694 CHR ''0'') t =
      Some (Inr (v, 0))"
    using tt v eh target targets by (auto simp: equi_checks_def pool)
  have "coind_of (job_at t 1) = None" "remote_of (job_at t 1) = None"
    by (use t in \<open>auto simp: find_job_def example_pool_def zero_job_def state_simps split: if_splits\<close>)
  moreover have "share_fits u 0 [] ''00000000'' (replicate 56 CHR ''0'')"
    if "extranonce1 (client_at u 0) = ''81000001''" for u
    using that by (simp add: share_fits_def)
  ultimately have "\<exists>s1. accept_share example_config 0 1 v (share_difficulty example_config (v_hash_bin v) 0) []
      ''00000000'' (replicate 56 CHR ''0'') t = Some s1"
    using tt(3) pool(2) [of 0]
    by (auto simp: accept_share_def remote_submit_def share_add_Some Let_def client_record_difficulty_def
        client_ask_stats_def state_simps)
  then obtain s1 where s1: "accept_share example_config 0 1 v (share_difficulty example_config (v_hash_bin v) 0) []
      ''00000000'' (replicate 56 CHR ''0'') t = Some s1" by blast
  have "client_submit_equi example_config 0 example_share example_pool = Some (True, s1)"
    using client_submit_equi_body [of example_share "''00000000''" example_pool "Some 1" t example_config 0] t checks s1 tt(2)
    by (simp add: example_share_texts example_reversed)
  then show ?thesis using accept_share_cases(3) [OF s1, of 0] tt(3) by auto
qed

theorem equi_share_accepted_valid_witness:
  "\<exists>s1. client_submit_equi example_config 0 example_share example_pool = Some (True, s1) \<and>
     (\<exists>j \<in> set (g_list_job example_pool). valid_equi_share example_config 0 j example_share example_pool)"
proof -
  obtain s1 where s1: "client_submit_equi example_config 0 example_share example_pool = Some (True, s1)"
      "cl_shares (client_at s1 0) \<noteq> cl_shares (client_at example_pool 0)" using example_accepted by blast
  from equi_share_accepted_valid [OF s1] s1(1) show ?thesis by blast
qed


section \<open>The text of a block\<close>

text \<open>The compact size of a number of transactions, as the network reads it.\<close>

definition compact_size :: "nat \<Rightarrow> u8 list" where
  "compact_size n = (if n \<le> 252 then [of_nat n] else 0xfd # le_bytes 2 n)"

lemma hex_nat_byte: "n < 256 \<Longrightarrow> hex_nat n = hex2 (of_nat n)"
proof -
  assume n: "n < 256"
  have "be_bytes (Suc 3) n = be_bytes 3 (n div 256) @ [of_nat n]" by (rule be_bytes_Suc)
  then have b: "be_bytes 4 n = be_bytes 3 0 @ [of_nat n]" using n by simp
  have "unat (of_nat n :: u32) = n" using n by (simp add: unsigned_of_nat take_bit_nat_eq_self)
  moreover have "hexlify (be_bytes 3 0) = ''000000''"
  proof -
    have "be_bytes 3 0 = [0, 0, 0]" by (simp add: numeral_3_eq_3 be_bytes_Suc)
    then show ?thesis by (simp add: hex2_def hexchar_def)
  qed
  ultimately have h: "hex8 (of_nat n) = ''000000'' @ hex2 (of_nat n)"
    unfolding hex8_def by (simp only: b hexlify_simps append_Nil2)
  have "take 6 (hex8 (of_nat n)) = ''000000''" "drop 6 (hex8 (of_nat n)) = hex2 (of_nat n)"
    by (simp_all add: h)
  then show ?thesis by (simp add: hex_nat_def Let_def eval_nat_numeral)
qed

lemma count_hex_compact:
  assumes "n < 65536"
  shows "count_hex n = Some (hexlify (compact_size n))"
proof (cases "n \<le> 252")
  case False
  have "hex_nat (n div 256) = hex2 (of_nat (n div 256))" using assms by (intro hex_nat_byte) simp
  moreover have "hex2 0xfd = ''fd''" by code_simp
  moreover have "le_bytes (Suc (Suc 0)) n = [of_nat n, of_nat (n div 256)]"
    by (simp only: le_bytes_Suc) (simp add: le_bytes_def)
  moreover have "length (hex2 b) = 2" for b by (simp add: hex2_def)
  ultimately show ?thesis
    using False by (simp add: count_hex_def compact_size_def strcpy_in_def numeral_2_eq_2)
qed (simp add: count_hex_def compact_size_def)



end
