(* ===== verification/Base58.thy ===== *)
theory Base58
  imports Targets
begin

text \<open>
  \<open>base58.cpp\<close>: the addresses of the miners and of the payees of a block. A number in base 58 is
  multiplied into an array of 32-bit words, the most significant first, one digit at a time.
\<close>

definition b58digits :: "int list" where
  "b58digits =
    [-1,-1,-1,-1,-1,-1,-1,-1, -1,-1,-1,-1,-1,-1,-1,-1,
     -1,-1,-1,-1,-1,-1,-1,-1, -1,-1,-1,-1,-1,-1,-1,-1,
     -1,-1,-1,-1,-1,-1,-1,-1, -1,-1,-1,-1,-1,-1,-1,-1,
     -1, 0, 1, 2, 3, 4, 5, 6,  7, 8,-1,-1,-1,-1,-1,-1,
     -1, 9,10,11,12,13,14,15, 16,-1,17,18,19,20,21,-1,
     22,23,24,25,26,27,28,29, 30,31,32,-1,-1,-1,-1,-1,
     -1,33,34,35,36,37,38,39, 40,41,42,43,-1,44,45,46,
     47,48,49,50,51,52,53,54, 55,56,57,-1,-1,-1,-1,-1]"

text \<open>The value of a digit, or \<open>return false\<close>.\<close>

definition b58_digit :: "char \<Rightarrow> u32 option" where
  "b58_digit ch =
     (let n = of_char ch :: nat
      in if n AND 0x80 \<noteq> 0 then None
         else if b58digits ! n = -1 then None
         else Some (of_int (b58digits ! n)))"

text \<open>The loop over the words, from the last to the first, with the carry \<open>c\<close>.\<close>

fun b58_words :: "u32 \<Rightarrow> u32 list \<Rightarrow> u32 list \<times> u32" where
  "b58_words c [] = ([], c)"
| "b58_words c (w # ws) =
     (let (ws, c) = b58_words c ws;
          t = ucast w * 58 + ucast c :: u64
      in (ucast (t AND 0xffffffff) # ws, ucast (drop_bit 32 (t AND 0x3f00000000))))"

definition b58_round :: "u32 \<Rightarrow> char \<Rightarrow> u32 list \<Rightarrow> u32 list option" where
  "b58_round zeromask ch outi = do {
     c \<leftarrow> b58_digit ch;
     let (outi, c) = b58_words c outi;
     if c \<noteq> 0 then None
     else if outi ! 0 AND zeromask \<noteq> 0 then None
     else Some outi
   }"

text \<open>\<open>None\<close> is \<open>return false\<close>; the only caller passes 0 for \<open>b58sz\<close>, which takes the whole text.\<close>

definition b58tobin :: "nat \<Rightarrow> string \<Rightarrow> u8 list option" where
  "b58tobin binsz b58 =
     (let outisz = (binsz + 3) div 4;
          bytesleft = binsz mod 4;
          zeromask = NOT (push_bit (bytesleft * 8) 1 - 1)
      in do {
        outi \<leftarrow> fold_opt (b58_round zeromask) b58 (replicate outisz 0);
        Some (drop (4 - bytesleft) (if bytesleft = 0 then [] else be_bytes 4 (unat (outi ! 0))) @
              concat (map (\<lambda>w. be_bytes 4 (unat w)) (if bytesleft = 0 then outi else tl outi)))
      })"

text \<open>The result, and the text left in \<open>output\<close>.\<close>

definition base58_decode :: "string \<Rightarrow> bool \<times> string" where
  "base58_decode input =
     (case b58tobin 26 input of
        None \<Rightarrow> (False, [])
      | Some output_bin \<Rightarrow> (True, concat (map (\<lambda>i. hex2 (output_bin ! i)) [2..<22])))"

definition is_base58 :: "string \<Rightarrow> bool" where
  "is_base58 input \<longleftrightarrow>
     list_all (\<lambda>ch.
       let n = of_char ch :: nat;
           isdigit = (49 \<le> n \<and> n \<le> 57);
           isalpha = ((97 \<le> n \<and> n \<le> 122) \<or> (65 \<le> n \<and> n \<le> 90))
       in (isdigit \<or> isalpha) \<and> ch \<noteq> CHR ''I'' \<and> ch \<noteq> CHR ''O'' \<and> ch \<noteq> CHR ''l'') input"

section \<open>Numbers in base 58\<close>

definition alphabet :: string where
  "alphabet = ''123456789ABCDEFGHJKLMNPQRSTUVWXYZabcdefghijkmnopqrstuvwxyz''"

definition digit_of :: "char \<Rightarrow> nat" where
  "digit_of ch = length (takeWhile (\<lambda>a. a \<noteq> ch) alphabet)"

definition b58_number :: "string \<Rightarrow> nat" where
  "b58_number s = foldl (\<lambda>v ch. v * 58 + digit_of ch) 0 s"

text \<open>The value of a text, by the position of its digits in the alphabet.\<close>

definition b58_value :: "string \<Rightarrow> nat option" where
  "b58_value s = (if set s \<subseteq> set alphabet then Some (b58_number s) else None)"

fun word_value :: "u32 list \<Rightarrow> nat" where
  "word_value [] = 0"
| "word_value (w # ws) = unat w * 2 ^ (32 * length ws) + word_value ws"

lemma length_alphabet: "length alphabet = 58"
  by (simp add: alphabet_def)

lemma distinct_alphabet: "distinct alphabet"
  by (simp add: alphabet_def)

lemma takeWhile_other: "distinct xs \<Longrightarrow> i < length xs \<Longrightarrow> length (takeWhile (\<lambda>a. a \<noteq> xs ! i) xs) = i"
  by (induction xs arbitrary: i) (auto simp: nth_Cons split: nat.splits)

lemma digit_of_nth: "i < 58 \<Longrightarrow> digit_of (alphabet ! i) = i"
  by (simp add: digit_of_def takeWhile_other distinct_alphabet length_alphabet)

lemma digit_of_less: "ch \<in> set alphabet \<Longrightarrow> digit_of ch < 58"
  by (auto simp: in_set_conv_nth digit_of_nth length_alphabet)

lemma b58digits_alphabet: "map (\<lambda>a. b58digits ! of_char a) alphabet = map int [0..<58]"
  by (simp add: alphabet_def b58digits_def upt_rec_numeral) (simp add: upt_rec)

lemma alphabet_ascii: "list_all (\<lambda>a. of_char a < (128 :: nat)) alphabet"
  by (simp add: alphabet_def)

lemma b58digits_of: "ch \<in> set alphabet \<Longrightarrow> b58digits ! of_char ch = int (digit_of ch)"
  using arg_cong [OF b58digits_alphabet, of "\<lambda>l. l ! digit_of ch"] digit_of_less [of ch]
  by (auto simp: in_set_conv_nth length_alphabet digit_of_nth)

lemma length_b58digits: "length b58digits = 128"
  by (simp add: b58digits_def)

lemma b58digits_other:
  assumes "n < 128" and "char_of n \<notin> set alphabet"
  shows "b58digits ! n = -1"
proof (rule ccontr)
  let ?D = "{i. i < length b58digits \<and> b58digits ! i \<noteq> -1}"
  let ?A = "of_char ` set alphabet :: nat set"
  assume "b58digits ! n \<noteq> -1"
  then have "n \<in> ?D" using assms(1) by (simp add: length_b58digits)
  moreover have "?A \<subseteq> ?D"
    using alphabet_ascii by (auto simp: b58digits_of list_all_iff length_b58digits)
  moreover have "card ?D = 58"
    using length_filter_conv_card [of "\<lambda>d. d \<noteq> -1" b58digits] by (simp add: b58digits_def)
  moreover have "card ?A = 58"
    by (subst card_image) (simp_all add: inj_on_def distinct_card distinct_alphabet length_alphabet)
  ultimately have "?A = ?D" by (intro card_subset_eq) simp_all
  then have "n \<in> ?A" using \<open>n \<in> ?D\<close> by simp
  then show False using assms(2) by auto
qed

lemma b58_digit_spec:
  "b58_digit ch = (if ch \<in> set alphabet then Some (of_nat (digit_of ch)) else None)"
proof -
  define n where "n = (of_char ch :: nat)"
  have n: "n < 256" "char_of n = ch" by (simp_all add: n_def)
  have high: "(n AND 0x80 \<noteq> 0) \<longleftrightarrow> 128 \<le> n"
  proof -
    have "n div 128 = (if 128 \<le> n then 1 else 0)" using n(1) by (simp add: div_nat_eqI)
    then show ?thesis using and_exp_eq_0_iff_not_bit [of n 7] by (auto simp: bit_iff_odd)
  qed
  have "ch \<in> set alphabet \<Longrightarrow> n < 128" using alphabet_ascii by (auto simp: list_all_iff n_def)
  then show ?thesis
    using high b58digits_other [of n] n(2) b58digits_of [of ch]
    by (auto simp: b58_digit_def Let_def simp flip: n_def)
qed

section \<open>The multiplication\<close>

lemma b58_words_value:
  assumes "unat c < 58"
  shows "case b58_words c ws of (ws', c') \<Rightarrow> length ws' = length ws \<and> unat c' < 58 \<and>
           word_value ws' + unat c' * 2 ^ (32 * length ws) = word_value ws * 58 + unat c"
proof (induction ws)
  case (Cons w ws)
  obtain vs d where vs: "b58_words c ws = (vs, d)" by fastforce
  have IH: "length vs = length ws" "unat d < 58"
    "word_value vs + unat d * 2 ^ (32 * length ws) = word_value ws * 58 + unat c"
    using Cons.IH by (simp_all add: vs)
  define t :: u64 where "t = ucast w * 58 + ucast d"
  have "unat w < 2 ^ 32" using unsigned_less [of w] by simp
  then have less: "unat w * 58 + unat d < 58 * 2 ^ 32" using IH(2) by simp
  have t: "unat t = unat w * 58 + unat d"
    using less by (simp add: t_def unat_word_ariths unsigned_ucast_eq take_bit_nat_eq_self)
  have "(0xffffffff :: u64) = mask 32" by (simp add: mask_eq_exp_minus_1)
  then have lo: "unat (ucast (t AND 0xffffffff) :: u32) = unat t mod 2 ^ 32"
    by (simp only: flip: take_bit_eq_mask) (simp only: unsigned_ucast_eq unsigned_take_bit_eq, simp add: take_bit_eq_mod)
  have "drop_bit 32 (0x3f00000000 :: u64) = mask 6" by (simp add: mask_eq_exp_minus_1)
  then have d: "drop_bit 32 (t AND 0x3f00000000) = take_bit 6 (drop_bit 32 t)"
    by (simp only: drop_bit_and flip: take_bit_eq_mask)
  have less_58: "unat t div 2 ^ 32 < 58" using less by (simp add: t div_less_iff_less_mult)
  have hi: "unat (ucast (drop_bit 32 (t AND 0x3f00000000)) :: u32) = unat t div 2 ^ 32"
    unfolding d unsigned_ucast_eq unsigned_take_bit_eq unat_drop_bit_eq
    using less_58 by (simp add: drop_bit_eq_div take_bit_nat_eq_self)
  have "word_value (ucast (t AND 0xffffffff) # vs) + unat t div 2 ^ 32 * 2 ^ (32 * length (w # ws)) =
      (unat t mod 2 ^ 32) * 2 ^ (32 * length ws) + word_value vs + unat t div 2 ^ 32 * (2 ^ 32 * 2 ^ (32 * length ws))"
    by (simp only: word_value.simps lo IH(1) list.size add_Suc_right mult_Suc_right add_0_right power_add)
  also have "\<dots> = (unat t mod 2 ^ 32 + unat t div 2 ^ 32 * 2 ^ 32) * 2 ^ (32 * length ws) + word_value vs"
    by (simp only: add_mult_distrib mult.assoc add.assoc add.commute [of "word_value vs"])
  also have "\<dots> = word_value (w # ws) * 58 + unat c"
    unfolding mod_div_mult_eq using IH(3) by (simp add: t algebra_simps)
  finally show ?case
    using hi less_58 IH(1) by (simp add: vs Let_def flip: t_def)
qed (simp add: assms)

lemma word_value_less: "word_value ws < 2 ^ (32 * length ws)"
proof (induction ws)
  case (Cons w ws)
  have "unat w < 2 ^ 32" using unsigned_less [of w] by simp
  then have "(unat w + 1) * 2 ^ (32 * length ws) \<le> 2 ^ 32 * 2 ^ (32 * length ws)"
    by (intro mult_right_mono) simp_all
  moreover have "word_value (w # ws) < (unat w + 1) * 2 ^ (32 * length ws)"
    using Cons.IH by (simp add: add_mult_distrib)
  ultimately have "word_value (w # ws) < 2 ^ 32 * 2 ^ (32 * length ws)" by (rule less_le_trans [rotated])
  then show ?case by (simp only: list.size add_Suc_right mult_Suc_right add_0_right power_add)
qed simp

text \<open>The words as bytes.\<close>

lemma be_val_words: "be_val (concat (map (\<lambda>w. be_bytes 4 (unat w)) ws)) = word_value ws"
proof (induction ws)
  case (Cons w ws)
  have "unat w < 2 ^ 32" using unsigned_less [of w] by simp
  moreover have "length (concat (map (\<lambda>w. be_bytes 4 (unat w)) ws)) = 4 * length ws" by (induction ws) simp_all
  ultimately show ?case
    by (simp add: be_val_append be_val_be_bytes Cons.IH) (simp add: power_mult)
qed simp

section \<open>Decoding\<close>

text \<open>\<open>zeromask\<close> keeps the words below \<open>256 ^ binsz\<close>.\<close>

lemma zeromask_fits:
  assumes "0 < k" and "k < 4"
  shows "(w :: u32) AND NOT (push_bit (k * 8) 1 - 1) = 0 \<longleftrightarrow> unat w < 2 ^ (8 * k)"
proof -
  have "push_bit (k * 8) 1 - 1 = (mask (8 * k) :: u32)" by (simp add: mask_eq_exp_minus_1 push_bit_eq_mult mult.commute)
  moreover have "w AND NOT (mask (8 * k)) = 0 \<longleftrightarrow> take_bit (8 * k) w = w"
    by (auto simp: bit_eq_iff bit_simps)
  moreover have "take_bit (8 * k) w = w \<longleftrightarrow> unat w < 2 ^ (8 * k)"
    by (metis take_bit_nat_eq_self_iff unsigned_take_bit_eq word_unat_eq_iff)
  ultimately show ?thesis by simp
qed

lemma b58_number_snoc: "b58_number (s @ [ch]) = b58_number s * 58 + digit_of ch"
  by (simp add: b58_number_def)

lemma b58_number_append_ge: "b58_number s \<le> b58_number (s @ s')"
  by (induction s' rule: rev_induct) (auto simp: b58_number_snoc simp flip: append_assoc)

lemma scaled_less_iff: "v < M \<Longrightarrow> a * M + v < K * M \<longleftrightarrow> a < K" for a v M K :: nat
proof -
  assume v: "v < M"
  then have "(a * M + v) div M = a" by simp
  then show ?thesis using div_less_iff_less_mult [of M "a * M + v" K] v by simp
qed

text \<open>One digit on words whose value fits.\<close>

lemma b58_round_spec:
  assumes "0 < k" and "k < 4" and "length ws = Suc m" and "ch \<in> set alphabet"
    and n: "n = word_value ws * 58 + digit_of ch"
  shows "\<exists>ws'. b58_round (NOT (push_bit (k * 8) 1 - 1)) ch ws = (if n < 256 ^ (4 * m + k) then Some ws' else None) \<and>
               (n < 256 ^ (4 * m + k) \<longrightarrow> length ws' = Suc m \<and> word_value ws' = n)"
proof -
  let ?c = "of_nat (digit_of ch) :: u32"
  let ?P = "256 ^ (4 * m + k) :: nat"
  have p: "?P = 2 ^ (8 * (4 * m + k))" unfolding power_mult by simp
  then have P: "?P = 2 ^ (8 * k) * 2 ^ (32 * m)" "?P \<le> 2 ^ (32 * Suc m)"
    using assms(2) by (simp_all add: distrib_left flip: power_add)
  obtain ws' c' where r: "b58_words ?c ws = (ws', c')" by fastforce
  have len: "length ws' = Suc m" and val: "word_value ws' + unat c' * 2 ^ (32 * Suc m) = n"
    using b58_words_value [of ?c ws] digit_of_less [OF assms(4)] assms(3) n
    by (simp_all add: r unsigned_of_nat take_bit_nat_eq_self)
  obtain w vs where ws': "ws' = w # vs" "length vs = m" using len by (cases ws') auto
  have top: "unat w < 2 ^ (8 * k) \<longleftrightarrow> word_value ws' < ?P"
    using scaled_less_iff [of "word_value vs" "2 ^ (32 * m)" "unat w" "2 ^ (8 * k)"] word_value_less [of vs]
    by (simp add: P(1) ws')
  have step: "b58_round (NOT (push_bit (k * 8) 1 - 1)) ch ws = (if c' = 0 \<and> word_value ws' < ?P then Some ws' else None)"
    using zeromask_fits [OF assms(1,2), of w] top assms(4)
    by (simp add: b58_round_def b58_digit_spec r ws'(1))
  show ?thesis
  proof (cases "c' = 0")
    case True
    then show ?thesis using val len unfolding step by (intro exI [of _ ws']) simp
  next
    case False
    then have "0 < unat c'" by (simp add: word_neq_0_conv unat_gt_0)
    then have "1 \<le> unat c'" by simp
    then have "?P \<le> unat c' * 2 ^ (32 * Suc m)" using P(2) by (metis mult_le_mono mult_1 le_trans order_refl)
    then show ?thesis using val False unfolding step by simp
  qed
qed

lemma b58_loop_spec:
  assumes "0 < k" and "k < 4" and "length ws = Suc m" and "word_value ws = b58_number p"
    and "b58_number p < 256 ^ (4 * m + k)"
  shows "\<exists>ws'. fold_opt (b58_round (NOT (push_bit (k * 8) 1 - 1))) s ws =
      (if set s \<subseteq> set alphabet \<and> b58_number (p @ s) < 256 ^ (4 * m + k) then Some ws' else None) \<and>
      (set s \<subseteq> set alphabet \<and> b58_number (p @ s) < 256 ^ (4 * m + k) \<longrightarrow>
         length ws' = Suc m \<and> word_value ws' = b58_number (p @ s))"
  using assms(3-)
proof (induction s arbitrary: ws p)
  case (Cons ch s)
  show ?case
  proof (cases "ch \<in> set alphabet \<and> b58_number (p @ [ch]) < 256 ^ (4 * m + k)")
    case True
    then obtain ws' where "b58_round (NOT (push_bit (k * 8) 1 - 1)) ch ws = Some ws'"
      "length ws' = Suc m" "word_value ws' = b58_number (p @ [ch])"
      using b58_round_spec [OF assms(1,2) Cons.prems(1), of ch, OF _ refl] Cons.prems(2)
      by (auto simp: b58_number_snoc)
    then show ?thesis using Cons.IH [of ws' "p @ [ch]"] True by simp
  next
    case False
    have "b58_number (p @ [ch]) \<le> b58_number (p @ ch # s)"
      using b58_number_append_ge [of "p @ [ch]" s] by simp
    moreover have "b58_round (NOT (push_bit (k * 8) 1 - 1)) ch ws = None"
    proof (cases "ch \<in> set alphabet")
      case True
      then show ?thesis
        using b58_round_spec [OF assms(1,2) Cons.prems(1) True refl] False Cons.prems(2)
        by (auto simp: b58_number_snoc)
    qed (simp add: b58_round_def b58_digit_spec)
    ultimately show ?thesis using False by auto
  qed
qed simp

lemma drop_be_bytes: "j \<le> n \<Longrightarrow> drop (n - j) (be_bytes n v) = be_bytes j v"
  by (simp add: be_bytes_def le_bytes_def drop_rev take_map)

lemma map_nth_slice: "a + n \<le> length b \<Longrightarrow> map (\<lambda>i. f (b ! i)) [a..<a + n] = map f (take n (drop a b))"
  by (rule nth_equalityI) simp_all

text \<open>The bytes, when \<open>binsz\<close> is no multiple of 4.\<close>

lemma b58tobin_spec:
  assumes "0 < k" and "k < 4"
  shows "b58tobin (4 * m + k) s =
    (case b58_value s of None \<Rightarrow> None
     | Some v \<Rightarrow> if v < 256 ^ (4 * m + k) then Some (be_bytes (4 * m + k) v) else None)"
proof -
  have q: "(4 * m + k + 3) div 4 = Suc m" "(4 * m + k) mod 4 = k" using assms by simp_all
  have "word_value (replicate i 0) = 0" for i by (induction i) simp_all
  then obtain ws where ws: "fold_opt (b58_round (NOT (push_bit (k * 8) 1 - 1))) s (replicate (Suc m) 0) =
      (if set s \<subseteq> set alphabet \<and> b58_number s < 256 ^ (4 * m + k) then Some ws else None)"
    and v: "set s \<subseteq> set alphabet \<and> b58_number s < 256 ^ (4 * m + k) \<longrightarrow> length ws = Suc m \<and> word_value ws = b58_number s"
    using b58_loop_spec [OF assms, of "replicate (Suc m) 0" m "[]" s] by (auto simp: b58_number_def)
  show ?thesis
  proof (cases "set s \<subseteq> set alphabet \<and> b58_number s < 256 ^ (4 * m + k)")
    case True
    then obtain w us where c: "ws = w # us" "length us = m" using v by (cases ws) auto
    let ?all = "concat (map (\<lambda>w. be_bytes 4 (unat w)) ws)"
    have "length (concat (map (\<lambda>w. be_bytes 4 (unat w)) us)) = 4 * length us" for us :: "u32 list"
      by (induction us) simp_all
    then have all: "?all = be_bytes (4 * m + 4) (b58_number s)"
      using be_bytes_be_val [of ?all] be_val_words [of ws] v True by (simp add: add.commute)
    have "drop (4 * m + 4 - (4 * m + k)) ?all = be_bytes (4 * m + k) (b58_number s)"
      unfolding all using assms(2) by (intro drop_be_bytes) simp
    then have "drop (4 - k) (be_bytes 4 (unat w)) @ concat (map (\<lambda>w. be_bytes 4 (unat w)) us) = be_bytes (4 * m + k) (b58_number s)"
      using assms(2) by (simp add: c)
    moreover have "fold_opt (b58_round (NOT (push_bit (k * 8) 1 - 1))) s (replicate (Suc m) 0) = Some (w # us)"
      using ws True c by simp
    ultimately show ?thesis
      using True assms unfolding b58tobin_def q Let_def by (simp add: b58_value_def del: replicate_Suc)
  next
    case False
    then have "fold_opt (b58_round (NOT (push_bit (k * 8) 1 - 1))) s (replicate (Suc m) 0) = None"
      using ws by simp
    then show ?thesis
      using False unfolding b58tobin_def q Let_def by (auto simp: b58_value_def simp del: replicate_Suc)
  qed
qed

text \<open>
  C30. \<open>base58_decode\<close> accepts exactly the texts over the alphabet whose number fits 26 bytes, and
  returns bytes 2 to 21 of it in hexadecimal: of an address with one version byte these are the 20
  bytes of the hash. The four bytes of the checksum behind them are not looked at.
\<close>

theorem base58_decode_bytes:
  "base58_decode s =
    (case b58_value s of
       Some v \<Rightarrow> if v < 256 ^ 26 then (True, hexlify (take 20 (drop 2 (be_bytes 26 v)))) else (False, [])
     | None \<Rightarrow> (False, []))"
proof -
  have "concat (map (\<lambda>i. hex2 (b ! i)) [2..<22]) = hexlify (take 20 (drop 2 b))" if "length b = 26" for b
    using map_nth_slice [of 2 20 b hex2] that by (simp add: hexlify_def)
  moreover have "b58tobin 26 s =
      (case b58_value s of None \<Rightarrow> None | Some v \<Rightarrow> if v < 256 ^ 26 then Some (be_bytes 26 v) else None)"
    using b58tobin_spec [of 2 6 s] by (simp split: option.splits)
  ultimately show ?thesis
    unfolding base58_decode_def by (auto split: option.splits)
qed

lemma alphabet_codes:
  "map of_char alphabet = [49..<58] @ [65..<73] @ [74..<79] @ [80..<91] @ [97..<108] @ [109..<123]"
  by (simp add: alphabet_def upt_rec_numeral)

lemma is_base58_alphabet: "is_base58 s \<longleftrightarrow> b58_value s \<noteq> None"
proof -
  have code: "ch \<in> set alphabet \<longleftrightarrow> (of_char ch :: nat) \<in> set (map of_char alphabet)" for ch
    by auto
  have eq: "ch = a \<longleftrightarrow> (of_char ch :: nat) = of_char a" for ch a :: char by simp
  have "ch \<in> set alphabet \<longleftrightarrow>
      ((49 \<le> (of_char ch :: nat) \<and> of_char ch \<le> (57 :: nat)) \<or>
       (97 \<le> (of_char ch :: nat) \<and> of_char ch \<le> (122 :: nat)) \<or> 65 \<le> (of_char ch :: nat) \<and> of_char ch \<le> (90 :: nat)) \<and>
      ch \<noteq> CHR ''I'' \<and> ch \<noteq> CHR ''O'' \<and> ch \<noteq> CHR ''l''" for ch
    unfolding code alphabet_codes eq [of ch "CHR ''I''"] eq [of ch "CHR ''O''"] eq [of ch "CHR ''l''"]
    by (simp only: set_append set_upt Un_iff atLeastLessThan_iff) (simp del: of_char_eq_iff, linarith)
  then show ?thesis
    by (auto simp: is_base58_def list_all_iff b58_value_def subset_iff Let_def)
qed

end
