(* ===== verification/Coinbase.thy ===== *)
theory Coinbase
  imports Submit Base58 "HOL-Library.Signed_Division"
begin

text \<open>
  \<open>coinbase.cpp\<close>: the coinbase transaction of a block, in two texts around the extra nonces of the
  miners. \<open>coinb2\<close> has the outputs: who is paid depends on the coin, and on what its daemon asks
  for in the block template \<open>json\<close>. The texts are built with \<open>strcat\<close> and \<open>sprintf\<close> in arrays of
  fixed size; \<open>None\<close> is a write behind one of them, or a member of \<open>json\<close> of a wrong type.
\<close>

section \<open>Outputs\<close>

definition strcat_in :: "nat \<Rightarrow> string \<Rightarrow> string \<Rightarrow> string option" where
  "strcat_in n s t = strcpy_in n (s @ t)"

text \<open>The amount as eight bytes, least significant first.\<close>

definition encode_tx_value :: "int \<Rightarrow> string" where
  "encode_tx_value amount = hexlify (le_bytes 8 (unat (of_int amount :: u64)))"

text \<open>The length of a script in one byte.\<close>

definition len_hex :: "string \<Rightarrow> string" where
  "len_hex script = hex2 (of_nat (length script div 2))"

definition p2sh_pack_tx :: "nat \<Rightarrow> string \<Rightarrow> int \<Rightarrow> string \<Rightarrow> string option" where
  "p2sh_pack_tx n txt amount payee = do {
     part \<leftarrow> strcpy_in 256 (''a9'' @ len_hex payee @ payee @ ''87'');
     strcat_in n txt (encode_tx_value amount @ len_hex part @ part)
   }"

definition job_pack_tx :: "nat \<Rightarrow> coind \<Rightarrow> string \<Rightarrow> int \<Rightarrow> string option \<Rightarrow> string option" where
  "job_pack_tx n k txt amount key =
     (if p2sh_address k \<and> key = None then p2sh_pack_tx n txt amount (script_pubkey k)
      else if pos k \<and> key = None
      then strcat_in n txt (encode_tx_value amount @ ''2321'' @ pubkey k @ ''ac'')
      else strcat_in n txt (encode_tx_value amount @ ''1976a914'' @
             (case key of Some key \<Rightarrow> key | None \<Rightarrow> script_pubkey k) @ ''88ac''))"

section \<open>Merged mining\<close>

text \<open>The root of the hashes of the auxiliary chains.\<close>

function aux_root_loop :: "(string \<Rightarrow> string option) \<Rightarrow> string list \<Rightarrow> string list option" where
  "aux_root_loop h hashlist =
     (if 1 < length hashlist then do {
        l \<leftarrow> hash_level h hashlist 0 (length hashlist div 2);
        aux_root_loop h l
      } else Some hashlist)"
  by pat_completeness auto
termination
  by (relation "measure (\<lambda>(h, hashlist). length hashlist)") (auto simp: length_hash_level)

declare aux_root_loop.simps [simp del]

definition coinbase_aux :: "'s config \<Rightarrow> stratum \<Rightarrow> template \<Rightarrow> string \<Rightarrow> string option" where
  "coinbase_aux cfg s t aux_script = do {
     hashlist \<leftarrow> coind_aux_hashlist s (auxs t) (auxs_size t);
     hashlist \<leftarrow> aux_root_loop (hash_pair (double_sha cfg) (stack64 cfg)) hashlist;
     merkle_hash \<leftarrow> reversed_in (4 * 1024) (hashlist ! 0);
     strcat_in 32 aux_script (''fabe6d6d'' @ merkle_hash @ hex_nat (auxs_size t) @ ''00000000000000'')
   }"

section \<open>Who is paid\<close>

text \<open>The arrays of the template have 4096 characters.\<close>

definition COINB :: nat where
  "COINB = 4 * 1024"

definition script_of :: "string \<Rightarrow> string" where
  "script_of payee = snd (base58_decode payee)"

text \<open>\<open>coind->reward\<close>, and a percentage of an amount as a \<open>json_int_t\<close>.\<close>

definition set_reward :: "'s config \<Rightarrow> int \<Rightarrow> coind \<Rightarrow> coind" where
  "set_reward cfg available k =
     (let r = rnd (fpu_of cfg) in k\<lparr>reward := r (r (r (of_int available) / 100000000) * reward_mul k)\<rparr>)"

definition to_int :: "real \<Rightarrow> int" where
  "to_int x = (if 0 \<le> x then \<lfloor>x\<rfloor> else \<lceil>x\<rceil>)"

definition percent_of :: "'s config \<Rightarrow> int \<Rightarrow> real \<Rightarrow> int" where
  "percent_of cfg available percent =
     (let r = rnd (fpu_of cfg) in to_int (r (r (r (of_int available) * percent) / 100)))"

text \<open>The address of the template or else of the coin, in \<open>char charity_payee[256]\<close>.\<close>

definition charity_payee_of :: "members \<Rightarrow> string \<Rightarrow> coind \<Rightarrow> string option" where
  "charity_payee_of json key k = do {
     p \<leftarrow> json_get_string json key;
     (case p of Some p \<Rightarrow> Some (take 254 p) | None \<Rightarrow> strcpy_in 256 (charity_address k))
   }"

text \<open>Destinations: their text in \<open>script_dests[2048]\<close>, how many there are, and what is left.\<close>

type_synonym dests = "string \<times> nat \<times> int"

definition pay_to :: "bool \<Rightarrow> coind \<Rightarrow> string option \<Rightarrow> int \<Rightarrow> dests \<Rightarrow> dests option" where
  "pay_to p2sh k payee amount st =
     (case payee of
        Some payee \<Rightarrow>
          if amount \<noteq> 0
          then (case st of (text, n, available) \<Rightarrow>
            map_option (\<lambda>text. (text, n + 1, available - amount))
              (if p2sh then p2sh_pack_tx 2048 text amount (script_of payee)
               else job_pack_tx 2048 k text amount (Some (script_of payee))))
          else Some st
      | None \<Rightarrow> Some st)"

definition pay_member :: "bool \<Rightarrow> coind \<Rightarrow> members \<Rightarrow> string \<Rightarrow> string \<Rightarrow> dests \<Rightarrow> dests option" where
  "pay_member p2sh k json payee_key amount_key st = do {
     payee \<leftarrow> json_get_string json payee_key;
     amount \<leftarrow> json_get_int json amount_key;
     pay_to p2sh k payee amount st
   }"

definition pay_superblocks :: "bool \<Rightarrow> coind \<Rightarrow> bool \<Rightarrow> json option \<Rightarrow> dests \<Rightarrow> dests option" where
  "pay_superblocks p2sh k enabled superblock st =
     (case superblock of
        Some l \<Rightarrow>
          if enabled then do {
            l \<leftarrow> u_array l;
            fold_opt (\<lambda>v st. do { ms \<leftarrow> u_object v; pay_member p2sh k ms ''payee'' ''amount'' st }) l st
          } else Some st
      | None \<Rightarrow> Some st)"

text \<open>The node of the object \<open>node\<close>, when it is there; \<open>started\<close> is a member of \<open>json\<close>.\<close>

definition pay_node :: "bool \<Rightarrow> coind \<Rightarrow> members \<Rightarrow> bool \<Rightarrow> string option \<Rightarrow> json option \<Rightarrow> dests \<Rightarrow> dests option" where
  "pay_node p2sh k json enabled started_key node st =
     (case node of
        Some v \<Rightarrow>
          if enabled then do {
            started \<leftarrow> (case started_key of Some key \<Rightarrow> json_get_bool json key | None \<Rightarrow> Some True);
            ms \<leftarrow> u_object v;
            payee \<leftarrow> json_get_string ms ''payee'';
            amount \<leftarrow> json_get_int ms ''amount'';
            if started then pay_to p2sh k payee amount st else Some st
          } else Some st
      | None \<Rightarrow> Some st)"

text \<open>The count, the commitment, the destinations, the pool itself and the lock time.\<close>

definition write_dests :: "'s config \<Rightarrow> nat \<Rightarrow> string \<Rightarrow> coind \<Rightarrow> string \<Rightarrow> dests \<Rightarrow> (coind \<times> string) option" where
  "write_dests cfg width commit k out st =
     (case st of (text, n, available) \<Rightarrow> do {
        payees \<leftarrow> strcpy_in width (hex_nat n);
        out \<leftarrow> strcat_in COINB out payees;
        out \<leftarrow> strcat_in COINB out commit;
        out \<leftarrow> strcat_in COINB out text;
        out \<leftarrow> job_pack_tx COINB k out available None;
        out \<leftarrow> strcat_in COINB out ''00000000'';
        Some (set_reward cfg available k, out)
      })"

text \<open>Two outputs, or three with the commitment.\<close>

definition count_two :: "template \<Rightarrow> string \<Rightarrow> string \<Rightarrow> string option" where
  "count_two t commit out = strcat_in COINB out ((if has_segwit_txs t then ''03'' else ''02'') @ commit)"

section \<open>The coins\<close>

definition first_count :: "template \<Rightarrow> nat" where
  "first_count t = (if has_segwit_txs t then 2 else 1)"

definition coinbase_dyn :: "'s config \<Rightarrow> template \<Rightarrow> string \<Rightarrow> members \<Rightarrow> coind \<Rightarrow> string \<Rightarrow> int \<Rightarrow> (coind \<times> string) option" where
  "coinbase_dyn cfg t commit json k out available = do {
     dynode_enabled \<leftarrow> json_get_bool json ''dynode_payments_enforced'';
     superblocks_enabled \<leftarrow> json_get_bool json ''superblocks_enabled'';
     let superblock = json_get_array json ''superblock'';
     let dynode = json_get_object json ''dynode'';
     old \<leftarrow> (if dynode = None then json_get_bool json ''dynode_payments'' else Some False);
     if old then Some (k\<lparr>oldmasternodes := True\<rparr>, out)
     else do {
       st \<leftarrow> pay_superblocks False k superblocks_enabled superblock ([], first_count t, available);
       st \<leftarrow> pay_node False k json dynode_enabled (Some ''dynode_payments_started'') dynode st;
       write_dests cfg 3 commit k out st
     }
   }"

definition coinbase_xzc :: "'s config \<Rightarrow> coind \<Rightarrow> string \<Rightarrow> int \<Rightarrow> (coind \<times> string) option" where
  "coinbase_xzc cfg k out available = do {
     let k = (if charity_percent k \<le> 0 then k\<lparr>charity_percent := 25\<rparr> else k);
     let charity = percent_of cfg available (charity_percent k);
     let k = (if charity_address k = [] then k\<lparr>charity_address := ''aHu897ivzmeFuLNB6956X6gyGeVNHUBRgD''\<rparr> else k);
     out \<leftarrow> strcat_in COINB out ''06'';
     out \<leftarrow> job_pack_tx COINB k out available None;
     out \<leftarrow> fold_opt (\<lambda>a out. job_pack_tx COINB k out (charity sdiv 5) (Some (script_of a)))
       [''aCAgTPgtYcA4EysU4UKC86EQd5cTtHtCcr'', charity_address k, ''aQ18FBVFtnueucZKeVg4srhmzbpAeb1KoN'',
        ''a1HwTdCmQV3NspP2QqCGpehoFpi8NY4Zg3'', ''a1kCCGddf5pMXSipLVD9hBG2MGGVNaJ15U''] out;
     out \<leftarrow> strcat_in COINB out ''00000000'';
     Some (set_reward cfg available k, out)
   }"

text \<open>The address the height selects; negative heights select none.\<close>

definition stak_address :: "int \<Rightarrow> string \<Rightarrow> string" where
  "stak_address h old =
     (if h smod 4 = 0 then ''3K3bPrW5h7DYEMp2RcXawTCXajcm4ZU9Zh''
      else if h smod 4 = 1 then ''33Ssxmn3ehVMgyxgegXhpLGSBpubPjLZQ6''
      else if h smod 4 = 2 then ''3HFPNAjesiBY5sSVUmuBFnMEGut69R49ca''
      else if h smod 4 = 3 then ''37jLjjfUXQU4bdqVzvpUXyzAqPQSmxyByi''
      else old)"

definition stak_outputs ::
    "'s config \<Rightarrow> template \<Rightarrow> string \<Rightarrow> coind \<Rightarrow> string \<Rightarrow> int \<Rightarrow> string option \<Rightarrow> int \<Rightarrow> (coind \<times> string) option" where
  "stak_outputs cfg t commit k out available payee amount = do {
     let node = (payee \<noteq> None \<and> amount \<noteq> 0);
     let npayees = first_count t + (if node then 1 else 0) + 1;
     let charity = 50000000;
     let k = k\<lparr>charity_address := stak_address (height t) (charity_address k)\<rparr>;
     let available = available - charity;
     out \<leftarrow> strcat_in COINB out (hex_nat npayees @ commit);
     out \<leftarrow> p2sh_pack_tx COINB out charity (script_of (charity_address k));
     (out, available) \<leftarrow>
       (if node
        then map_option (\<lambda>out. (out, available - amount)) (job_pack_tx COINB k out amount (Some (script_of (the payee))))
        else Some (out, available));
     out \<leftarrow> job_pack_tx COINB k out available None;
     out \<leftarrow> strcat_in COINB out ''00000000'';
     Some (set_reward cfg available k, out)
   }"

definition coinbase_stak :: "'s config \<Rightarrow> template \<Rightarrow> string \<Rightarrow> members \<Rightarrow> coind \<Rightarrow> string \<Rightarrow> int \<Rightarrow> (coind \<times> string) option" where
  "coinbase_stak cfg t commit json k out available = do {
     masternode_payments \<leftarrow> json_get_bool json ''masternode_payments'';
     masternodes_enabled \<leftarrow> json_get_bool json ''enforce_masternode_payments'';
     if masternodes_enabled \<and> masternode_payments then do {
       payee \<leftarrow> json_get_string json ''payee'';
       amount \<leftarrow> json_get_int json ''payee_amount'';
       stak_outputs cfg t commit k out available payee amount
     } else stak_outputs cfg t commit k out available None 0
   }"

text \<open>\<open>Inl\<close> is a return, \<open>Inr\<close> goes on behind the special coins.\<close>

definition coinbase_tux ::
    "'s config \<Rightarrow> template \<Rightarrow> string \<Rightarrow> members \<Rightarrow> coind \<Rightarrow> string \<Rightarrow> int \<Rightarrow> (coind \<times> string + coind) option" where
  "coinbase_tux cfg t commit json k out available = do {
     payee \<leftarrow> json_get_string json ''donation_payee'';
     a \<leftarrow> strcpy_in 1024 (case payee of Some p \<Rightarrow> p | None \<Rightarrow> []);
     let k = k\<lparr>charity_address := a\<rparr>;
     if a = [] then Some (Inr k)
     else do {
       charity_payee \<leftarrow> strcpy_in 256 a;
       charity \<leftarrow> json_get_int json ''donation_amount'';
       let k = k\<lparr>charity_amount := rnd (fpu_of cfg) (of_int charity)\<rparr>;
       out \<leftarrow> count_two t commit out;
       out \<leftarrow> job_pack_tx COINB k out available None;
       out \<leftarrow> p2sh_pack_tx COINB out charity (script_of charity_payee);
       out \<leftarrow> strcat_in COINB out ''00000000'';
       Some (Inl (set_reward cfg available k, out))
     }
   }"

definition founder_outputs ::
    "'s config \<Rightarrow> template \<Rightarrow> string \<Rightarrow> coind \<Rightarrow> string \<Rightarrow> int \<Rightarrow> string \<Rightarrow> int \<Rightarrow> (coind \<times> string) option" where
  "founder_outputs cfg t commit k out available payee amount = do {
     let script = script_of (take 254 payee);
     let available = available - amount;
     out \<leftarrow> count_two t commit out;
     out \<leftarrow> job_pack_tx COINB k out available None;
     out \<leftarrow> (if symbol k = ''PGN'' then p2sh_pack_tx COINB out amount script
             else job_pack_tx COINB k out amount (Some script));
     out \<leftarrow> strcat_in COINB out ''00000000'';
     Some (set_reward cfg available k, out)
   }"

definition coinbase_founder ::
    "'s config \<Rightarrow> template \<Rightarrow> string \<Rightarrow> members \<Rightarrow> coind \<Rightarrow> string \<Rightarrow> int \<Rightarrow> (coind \<times> string) option option" where
  "coinbase_founder cfg t commit json k out available = do {
     founder_enabled \<leftarrow> json_get_bool json ''founder_payments_started'';
     (case json_get_object json ''founder'' of
        Some founder \<Rightarrow>
          if \<not> hasmasternodes k \<and> founder_enabled then do {
            ms \<leftarrow> u_object founder;
            payee \<leftarrow> json_get_string ms ''payee'';
            amount \<leftarrow> json_get_int ms ''amount'';
            (case payee of
               Some payee \<Rightarrow>
                 if amount \<noteq> 0 then map_option Some (founder_outputs cfg t commit k out available payee amount)
                 else Some None
             | None \<Rightarrow> Some None)
          } else Some None
      | None \<Rightarrow> Some None)
   }"

definition coinbase_charity ::
    "'s config \<Rightarrow> template \<Rightarrow> string \<Rightarrow> members \<Rightarrow> coind \<Rightarrow> string \<Rightarrow> int \<Rightarrow> (coind \<times> string) option" where
  "coinbase_charity cfg t commit json k out available = do {
     charity_payee \<leftarrow> charity_payee_of json ''payee'' k;
     charity \<leftarrow> json_get_int json ''payee_amount'';
     let charity = (if charity \<le> 0 then percent_of cfg available (charity_percent k) else charity);
     let available = available - charity;
     let k = k\<lparr>charity_amount := rnd (fpu_of cfg) (of_int charity)\<rparr>;
     out \<leftarrow> count_two t commit out;
     out \<leftarrow> job_pack_tx COINB k out available None;
     out \<leftarrow> job_pack_tx COINB k out charity (Some (script_of charity_payee));
     out \<leftarrow> strcat_in COINB out ''00000000'';
     Some (set_reward cfg available k, out)
   }"

definition coinbase_xvc :: "'s config \<Rightarrow> members \<Rightarrow> coind \<Rightarrow> string \<Rightarrow> int \<Rightarrow> (coind \<times> string) option option" where
  "coinbase_xvc cfg json k out available =
     (case json_get_object json ''incentive'' of
        Some incentive \<Rightarrow> do {
          ms \<leftarrow> u_object incentive;
          charity_payee \<leftarrow> charity_payee_of ms ''address'' k;
          enforced \<leftarrow> json_get_bool ms ''enforced'';
          charity \<leftarrow> json_get_int ms ''amount'';
          if enforced \<and> charity \<noteq> 0 \<and> charity_payee \<noteq> [] then do {
            out \<leftarrow> strcat_in COINB out ''02'';
            out \<leftarrow> job_pack_tx COINB k out available None;
            out \<leftarrow> job_pack_tx COINB k out charity (Some (script_of charity_payee));
            out \<leftarrow> strcat_in COINB out ''00000000'';
            Some (Some (set_reward cfg available (k\<lparr>charity_amount := rnd (fpu_of cfg) (of_int charity)\<rparr>), out))
          } else Some None
        }
      | None \<Rightarrow> Some None)"

definition coinbase_masternodes ::
    "'s config \<Rightarrow> template \<Rightarrow> string \<Rightarrow> members \<Rightarrow> coind \<Rightarrow> string \<Rightarrow> int \<Rightarrow> (coind \<times> string) option" where
  "coinbase_masternodes cfg t commit json k out available = do {
     masternode_enabled \<leftarrow> json_get_bool json ''masternode_payments_enforced'';
     superblocks_enabled \<leftarrow> json_get_bool json ''superblocks_enabled'';
     let superblock = json_get_array json ''superblock'';
     let masternode = json_get_object json ''masternode'';
     old \<leftarrow> (if masternode = None then json_get_bool json ''masternode_payments'' else Some False);
     if old then Some (k\<lparr>oldmasternodes := True\<rparr>, out)
     else do {
       let st = ([], first_count t, available);
       (k, st) \<leftarrow>
         (if charity_percent k \<noteq> 0 then do {
            charity_payee \<leftarrow> charity_payee_of json ''payee'' k;
            let charity = percent_of cfg available (charity_percent k);
            let k = k\<lparr>charity_amount := rnd (fpu_of cfg) (of_int charity)\<rparr>;
            dest \<leftarrow> job_pack_tx 2048 k [] charity (Some (script_of charity_payee));
            Some (k, dest, first_count t + 1, available - charity)
          } else Some (k, st));
       let screfund = json_get_array json ''screfund'';
       refund \<leftarrow> (case screfund of Some l \<Rightarrow> map_option (\<lambda>l. l \<noteq> []) (u_array l) | None \<Rightarrow> Some False);
       st \<leftarrow> pay_superblocks (symbol k = ''MAC'') k (superblocks_enabled \<or> refund)
              (if refund then screfund else superblock) st;
       st \<leftarrow> pay_node (symbol k = ''MAC'') k json masternode_enabled (Some ''masternode_payments_started'') masternode st;
       write_dests cfg 4 commit k out st
     }
   }"

text \<open>ARC and ENT differ in the names of the members only.\<close>

definition coinbase_named ::
    "'s config \<Rightarrow> string \<Rightarrow> string \<Rightarrow> members \<Rightarrow> coind \<Rightarrow> string \<Rightarrow> int \<Rightarrow> (coind \<times> string) option" where
  "coinbase_named cfg enforced_key node_key json k out available = do {
     enabled \<leftarrow> json_get_bool json enforced_key;
     superblocks_enabled \<leftarrow> json_get_bool json ''superblocks_enabled'';
     st \<leftarrow> pay_superblocks False k superblocks_enabled (json_get_array json ''superblock'') ([], 1, available);
     st \<leftarrow> pay_node False k json enabled None (json_get_object json node_key) st;
     write_dests cfg 4 [] k out st
   }"

definition coinbase_crw :: "'s config \<Rightarrow> members \<Rightarrow> coind \<Rightarrow> string \<Rightarrow> int \<Rightarrow> (coind \<times> string) option" where
  "coinbase_crw cfg json k out available = do {
     masternodes_enabled \<leftarrow> json_get_bool json ''enforce_masternode_payments'';
     systemnodes_enabled \<leftarrow> json_get_bool json ''enforce_systemnode_payments'';
     systemnodes \<leftarrow> json_get_bool json ''systemnodes'';
     masternodes \<leftarrow> json_get_bool json ''masternodes'';
     st \<leftarrow> (if systemnodes_enabled \<and> systemnodes
            then pay_member False k json ''payeeSN'' ''payeeSN_amount'' ([], 1, available)
            else Some ([], 1, available));
     st \<leftarrow> (if masternodes_enabled \<and> masternodes then pay_member False k json ''payee'' ''amount'' st else Some st);
     write_dests cfg 4 [] k out st
   }"

text \<open>The pool alone behind what is there.\<close>

definition coinbase_last :: "'s config \<Rightarrow> coind \<Rightarrow> string \<Rightarrow> int \<Rightarrow> (coind \<times> string) option" where
  "coinbase_last cfg k out available = do {
     out \<leftarrow> job_pack_tx COINB k out available None;
     out \<leftarrow> strcat_in COINB out ''00000000'';
     Some (set_reward cfg available k, out)
   }"

definition coinbase_old ::
    "'s config \<Rightarrow> template \<Rightarrow> string \<Rightarrow> members \<Rightarrow> coind \<Rightarrow> string \<Rightarrow> int \<Rightarrow> (coind \<times> string) option" where
  "coinbase_old cfg t commit json k out available = do {
     payee \<leftarrow> json_get_string json ''payee'';
     let charity_payee = (case payee of Some p \<Rightarrow> take 254 p | None \<Rightarrow> []);
     charity \<leftarrow> json_get_int json ''payee_amount'';
     payments \<leftarrow> json_get_bool json ''masternode_payments'';
     enforce \<leftarrow> json_get_bool json ''enforce_masternode_payments'';
     if symbol k = ''CRW'' then coinbase_crw cfg json k out available
     else if payments \<and> enforce then do {
       out \<leftarrow> count_two t commit out;
       out \<leftarrow> job_pack_tx COINB k out charity (Some (script_of charity_payee));
       coinbase_last cfg k out (available - charity)
     } else do {
       out \<leftarrow> strcat_in COINB out ''01'';
       coinbase_last cfg k out available
     }
   }"

text \<open>The coins with masternodes and the others.\<close>

definition coinbase_nodes ::
    "'s config \<Rightarrow> template \<Rightarrow> string \<Rightarrow> members \<Rightarrow> coind \<Rightarrow> string \<Rightarrow> int \<Rightarrow> (coind \<times> string) option" where
  "coinbase_nodes cfg t commit json k out available =
     (if hasmasternodes k \<and> \<not> oldmasternodes k then coinbase_masternodes cfg t commit json k out available
      else if symbol k = ''ARC''
      then coinbase_named cfg ''goldminenode_payments_enforced'' ''goldminenode'' json k out available
      else if symbol k = ''ENT''
      then coinbase_named cfg ''eternitynode_payments_enforced'' ''eternitynode'' json k out available
      else if hasmasternodes k \<and> oldmasternodes k then coinbase_old cfg t commit json k out available
      else do {
        out \<leftarrow> strcat_in COINB out ((if has_segwit_txs t then ''02'' else ''01'') @ commit);
        coinbase_last cfg k out available
      })"

text \<open>Everything behind the special coins.\<close>

definition coinbase_rest ::
    "'s config \<Rightarrow> template \<Rightarrow> string \<Rightarrow> members \<Rightarrow> coind \<Rightarrow> string \<Rightarrow> int \<Rightarrow> (coind \<times> string) option" where
  "coinbase_rest cfg t commit json k out available = do {
     founder \<leftarrow> coinbase_founder cfg t commit json k out available;
     (case founder of
        Some r \<Rightarrow> Some r
      | None \<Rightarrow>
          if charity_percent k \<noteq> 0 \<and> \<not> hasmasternodes k then coinbase_charity cfg t commit json k out available
          else if charity_amount k \<noteq> 0 \<and> rpcencoding k = ''DCR''
          then Some (k\<lparr>reward := rnd (fpu_of cfg) (rnd (fpu_of cfg) (of_int available) / 100000000)\<rparr>, out)
          else do {
            xvc \<leftarrow> (if symbol k = ''XVC'' then coinbase_xvc cfg json k out available else Some None);
            (case xvc of Some r \<Rightarrow> Some r | None \<Rightarrow> coinbase_nodes cfg t commit json k out available)
          })
   }"

text \<open>A coin with a fixed charity, unless it is configured.\<close>

definition default_charity :: "real \<Rightarrow> string \<Rightarrow> coind \<Rightarrow> coind" where
  "default_charity percent a k =
     k\<lparr>charity_percent := (if charity_percent k \<le> 0 then percent else charity_percent k),
       charity_address := (if charity_address k = [] then a else charity_address k)\<rparr>"

definition coinbase_outputs ::
    "'s config \<Rightarrow> template \<Rightarrow> string \<Rightarrow> members \<Rightarrow> coind \<Rightarrow> string \<Rightarrow> int \<Rightarrow> (coind \<times> string) option" where
  "coinbase_outputs cfg t commit json k out available =
     (if symbol k = ''EGC''
      then coinbase_rest cfg t commit json (default_charity 2 ''EdFwYw4Mo2Zq6CFM2yNJgXvE2DTJxgdBRX'' k) out available
      else if symbol k = ''DYN'' then coinbase_dyn cfg t commit json k out available
      else if symbol k = ''LTCR''
      then coinbase_rest cfg t commit json (default_charity 10 ''BCDrF1hWdKTmrjXXVFTezPjKBmGigmaXg5'' k) out available
      else if symbol k = ''XZC'' then coinbase_xzc cfg k out available
      else if rpcencoding k = ''DCR''
      then coinbase_rest cfg t commit json
        (k\<lparr>reward_mul := 6, charity_percent := 0, charity_amount := rnd (fpu_of cfg) (of_int available),
           charity_address := (if charity_address k = [] \<and> symbol k = ''DCR''
             then ''Dcur2mcGjmENx4DhNqDctW5wJCVyT3Qeqkx'' else charity_address k)\<rparr>) out
        (to_int (rnd (fpu_of cfg) (rnd (fpu_of cfg) (of_int available) * 6)))
      else if symbol k = ''STAK'' then coinbase_stak cfg t commit json k out available
      else if symbol k = ''TUX''
      then do {
        r \<leftarrow> coinbase_tux cfg t commit json k out available;
        (case r of Inl r \<Rightarrow> Some r | Inr k \<Rightarrow> coinbase_rest cfg t commit json k out available)
      }
      else coinbase_rest cfg t commit json k out available)"

section \<open>The whole coinbase\<close>

text \<open>\<open>available\<close> starts as \<open>templ->value\<close>.\<close>

definition coinbase_create ::
    "'s config \<Rightarrow> stratum \<Rightarrow> nat \<Rightarrow> template \<Rightarrow> members \<Rightarrow> (coind \<times> template) option" where
  "coinbase_create cfg s c t json = do {
     let k = coind_at s c;
     eheight \<leftarrow> strcpy_in 32 (ser_number (height t));
     etime \<leftarrow> strcpy_in 32 (ser_number (time_of s));
     entime \<leftarrow> (if pos k then map_option c_text (ser_string_be (array_of 32 (ntime_of t)) 1 (array_of 32 [])) else Some []);
     let eversion1 = (if txmessage k then ''02000000'' else ''01000000'');
     script1 \<leftarrow> strcpy_in (4 * 1024) (eheight @ tflags t @ etime @ ''08'');
     script2 \<leftarrow> (if \<not> pos k \<and> \<not> isaux k \<and> auxs_size t \<noteq> 0 then coinbase_aux cfg s t ''7969696d7000''
                 else Some ''7969696d7000'');
     let script_len = length script1 div 2 + length script2 div 2 + 8;
     coinb1 \<leftarrow> strcpy_in COINB (eversion1 @ entime @ ''01'' @ replicate 64 CHR ''0'' @ ''ffffffff'' @
                hex_nat script_len @ script1);
     out \<leftarrow> strcpy_in COINB (script2 @ ''00000000'');
     commit \<leftarrow> (if has_segwit_txs t
                 then strcpy_in 128 (replicate 16 CHR ''0'' @ hex_nat (length (commitment k) div 2) @ commitment k)
                 else Some []);
     (k, out) \<leftarrow> coinbase_outputs cfg t commit json k out (tvalue t);
     Some (k, t\<lparr>coinb1 := coinb1, coinb2 := out\<rparr>)
   }"

end
