(* ===== verification/Coinbase_Correct.thy ===== *)
theory Coinbase_Correct
  imports Coinbase Submit_Correct
begin

text \<open>
  The outputs of the coinbase: their number is the one announced, each is an amount and a script,
  and the amounts add up to the value of the block template.
\<close>

section \<open>Outputs\<close>

text \<open>An output: its amount, and its script with the length in front.\<close>

type_synonym txout = "int \<times> string"

definition out_text :: "txout \<Rightarrow> string" where
  "out_text = (\<lambda>(amount, script). encode_tx_value amount @ script)"

definition outs_text :: "txout list \<Rightarrow> string" where
  "outs_text outs = concat (map out_text outs)"

lemma outs_text_simps [simp]:
  "outs_text [] = []" "outs_text (out # outs) = out_text out @ outs_text outs"
  "outs_text (outs @ outs') = outs_text outs @ outs_text outs'"
  by (simp_all add: outs_text_def)

definition to_hash :: "string \<Rightarrow> string" where
  "to_hash key = ''1976a914'' @ key @ ''88ac''"

definition to_script :: "string \<Rightarrow> string" where
  "to_script key = (let part = ''a9'' @ len_hex key @ key @ ''87'' in len_hex part @ part)"

definition to_pubkey :: "string \<Rightarrow> string" where
  "to_pubkey key = ''2321'' @ key @ ''ac''"

text \<open>The script of the pool, and the scripts the outputs of a coin may have.\<close>

definition pool_script :: "coind \<Rightarrow> string" where
  "pool_script k =
     (if p2sh_address k then to_script (script_pubkey k)
      else if pos k then to_pubkey (pubkey k) else to_hash (script_pubkey k))"

definition commit_script :: "coind \<Rightarrow> string" where
  "commit_script k = hex_nat (length (commitment k) div 2) @ commitment k"

definition payee_scripts :: "string set" where
  "payee_scripts = (\<lambda>p. to_hash (script_of p)) ` UNIV \<union> (\<lambda>p. to_script (script_of p)) ` UNIV"

definition amounts :: "txout list \<Rightarrow> int" where
  "amounts outs = sum_list (map fst outs)"

lemma total_simps [simp]:
  "amounts [] = 0" "amounts (out # outs) = fst out + amounts outs" "amounts (outs @ outs') = amounts outs + amounts outs'"
  by (simp_all add: amounts_def)

lemma strcat_in_Some [simp]: "strcat_in n s t = Some r \<longleftrightarrow> r = s @ t \<and> length s + length t < n"
  by (auto simp: strcat_in_def strcpy_in_def)

lemma p2sh_pack_tx_Some: "p2sh_pack_tx n tx amount payee = Some r \<Longrightarrow> r = tx @ out_text (amount, to_script payee)"
  by (auto simp: p2sh_pack_tx_def out_text_def to_script_def Let_def strcpy_in_def split: if_splits)

lemma job_pack_tx_pool: "job_pack_tx n k tx amount None = Some r \<Longrightarrow> r = tx @ out_text (amount, pool_script k)"
  by (auto simp: job_pack_tx_def pool_script_def out_text_def to_hash_def to_pubkey_def dest: p2sh_pack_tx_Some split: if_splits)

lemma job_pack_tx_key: "job_pack_tx n k tx amount (Some key) = Some r \<Longrightarrow> r = tx @ out_text (amount, to_hash key)"
  by (auto simp: job_pack_tx_def out_text_def to_hash_def)

lemmas pack_SomeD = p2sh_pack_tx_Some job_pack_tx_pool job_pack_tx_key

lemma payee_scripts_intros [simp]:
  "to_hash (script_of p) \<in> payee_scripts" "to_script (script_of p) \<in> payee_scripts"
  by (auto simp: payee_scripts_def)

section \<open>Destinations\<close>

text \<open>From \<open>base\<close> outputs and the amount \<open>v\<close> on, the destinations \<open>ds\<close> have been written.\<close>

definition dests_ok :: "nat \<Rightarrow> int \<Rightarrow> dests \<Rightarrow> bool" where
  "dests_ok base v st \<longleftrightarrow>
     (\<exists>ds. set (map snd ds) \<subseteq> payee_scripts \<and> st = (outs_text ds, base + length ds, v - amounts ds))"

lemma dests_ok_start [simp]: "dests_ok n v ([], n, v)"
  by (auto simp: dests_ok_def intro: exI [of _ "[]"])

lemma dests_ok_snoc:
  assumes "dests_ok base v (tx, n, available)" and "script \<in> payee_scripts"
  shows "dests_ok base v (tx @ out_text (amount, script), Suc n, available - amount)"
proof -
  obtain ds where "set (map snd ds) \<subseteq> payee_scripts" "tx = outs_text ds" "n = base + length ds" "available = v - amounts ds"
    using assms(1) by (auto simp: dests_ok_def)
  then show ?thesis
    unfolding dests_ok_def using assms(2) by (intro exI [of _ "ds @ [(amount, script)]"]) simp
qed

lemma pay_to_ok: "pay_to p2sh k payee amount st = Some st' \<Longrightarrow> dests_ok base v st \<Longrightarrow> dests_ok base v st'"
  by (cases payee; cases st)
     (auto simp: pay_to_def split: if_splits dest!: pack_SomeD intro: dests_ok_snoc)

lemma pay_member_ok: "pay_member p2sh k json pk ak st = Some st' \<Longrightarrow> dests_ok base v st \<Longrightarrow> dests_ok base v st'"
  by (auto simp: pay_member_def intro: pay_to_ok split: bind_splits)

lemma fold_opt_pres:
  "fold_opt f l st = Some st' \<Longrightarrow> P st \<Longrightarrow> (\<And>x st st'. f x st = Some st' \<Longrightarrow> P st \<Longrightarrow> P st') \<Longrightarrow> P st'"
  by (induction l arbitrary: st) (auto split: option.splits)

lemma pay_superblocks_ok:
  "pay_superblocks p2sh k enabled superblock st = Some st' \<Longrightarrow> dests_ok base v st \<Longrightarrow> dests_ok base v st'"
  by (auto simp: pay_superblocks_def intro: pay_member_ok elim!: fold_opt_pres split: option.splits if_splits bind_splits)

lemma pay_node_ok:
  "pay_node p2sh k json enabled key node st = Some st' \<Longrightarrow> dests_ok base v st \<Longrightarrow> dests_ok base v st'"
  by (auto simp: pay_node_def intro: pay_to_ok split: option.splits if_splits bind_splits)

section \<open>The outputs of each coin\<close>

text \<open>
  \<open>out'\<close> is \<open>out\<close> with the number of outputs, the outputs and the lock time; the outputs pay the
  pool, payees and the commitment, and their amounts add up to \<open>v\<close>.
\<close>

definition pays :: "coind \<Rightarrow> string \<Rightarrow> int \<Rightarrow> string \<Rightarrow> bool" where
  "pays k out v out' \<longleftrightarrow>
     (\<exists>outs. out' = out @ hex_nat (length outs) @ outs_text outs @ ''00000000'' \<and> amounts outs = v \<and>
        set (map snd outs) \<subseteq> {pool_script k, commit_script k} \<union> payee_scripts)"

definition commits :: "template \<Rightarrow> coind \<Rightarrow> txout list" where
  "commits t k = (if has_segwit_txs t then [(0, commit_script k)] else [])"

lemma encode_zero: "encode_tx_value 0 = replicate 16 CHR ''0''"
  by (simp add: encode_tx_value_def le_bytes_def hexlify_def o_def map_replicate_const) (simp add: hex2_def hexchar_def numeral_eq_Suc)

lemma outs_commits: "outs_text (commits t k) = (if has_segwit_txs t then replicate 16 CHR ''0'' @ commit_script k else [])"
  by (simp add: commits_def out_text_def encode_zero)

lemma commits_facts [simp]:
  "amounts (commits t k) = 0" "set (map snd (commits t k)) \<subseteq> {pool_script k, commit_script k} \<union> payee_scripts"
  "first_count t = Suc (length (commits t k))"
  by (auto simp: commits_def first_count_def split: if_splits)

lemma hex_nat_small: "hex_nat 1 = ''01''" "hex_nat 2 = ''02''" "hex_nat 3 = ''03''" "hex_nat 6 = ''06''"
  by (simp_all add: hex_nat_byte hex2_def hexchar_def)

lemma paysI:
  "out' = out @ hex_nat (length outs) @ outs_text outs @ ''00000000'' \<Longrightarrow> amounts outs = v \<Longrightarrow>
   set (map snd outs) \<subseteq> {pool_script k, commit_script k} \<union> payee_scripts \<Longrightarrow> pays k out v out'"
  by (auto simp: pays_def)

lemma write_dests_pays:
  assumes "write_dests cfg width commit k out st = Some (k', out')" and "dests_ok (Suc (length cs)) v st"
    and "commit = outs_text cs" and "amounts cs = 0"
    and "set (map snd cs) \<subseteq> {pool_script k, commit_script k} \<union> payee_scripts"
  shows "pays k out v out'"
proof -
  obtain ds where ds: "set (map snd ds) \<subseteq> payee_scripts" "st = (outs_text ds, Suc (length cs) + length ds, v - amounts ds)"
    using assms(2) by (auto simp: dests_ok_def)
  have "out' = out @ hex_nat (length (cs @ ds @ [(v - amounts ds, pool_script k)])) @
      outs_text (cs @ ds @ [(v - amounts ds, pool_script k)]) @ ''00000000''"
    using assms(1,3) by (auto simp: write_dests_def ds(2) strcpy_in_def dest!: job_pack_tx_pool split: bind_splits if_splits)
  then show ?thesis by (rule paysI) (use ds(1) assms(4,5) in auto)
qed

text \<open>The changes of the coin along the way do not touch its scripts.\<close>

lemma pays_cong:
  "pool_script k = pool_script k1 \<Longrightarrow> commit_script k = commit_script k1 \<Longrightarrow> pays k out v out' \<longleftrightarrow> pays k1 out v out'"
  by (simp add: pays_def)

lemma scripts_update [simp]:
  "pool_script (k\<lparr>charity_percent := x\<rparr>) = pool_script k" "commit_script (k\<lparr>charity_percent := x\<rparr>) = commit_script k"
  "pool_script (k\<lparr>charity_address := a\<rparr>) = pool_script k" "commit_script (k\<lparr>charity_address := a\<rparr>) = commit_script k"
  "pool_script (k\<lparr>charity_amount := x\<rparr>) = pool_script k" "commit_script (k\<lparr>charity_amount := x\<rparr>) = commit_script k"
  by (simp_all add: pool_script_def commit_script_def)

lemma pays_update [simp]:
  "pays (k\<lparr>charity_percent := x\<rparr>) = pays k" "pays (k\<lparr>charity_address := a\<rparr>) = pays k"
  "pays (k\<lparr>charity_amount := x\<rparr>) = pays k"
  by (intro ext pays_cong; simp)+

lemma coinbase_last_pays:
  assumes "coinbase_last cfg k tx v = Some (k', out')"
    and "tx = out @ hex_nat (Suc (length outs)) @ outs_text outs"
    and "set (map snd outs) \<subseteq> {pool_script k, commit_script k} \<union> payee_scripts"
  shows "pays k out (amounts outs + v) out'"
proof -
  have "out' = out @ hex_nat (length (outs @ [(v, pool_script k)])) @ outs_text (outs @ [(v, pool_script k)]) @ ''00000000''"
    using assms(1,2) by (auto simp: coinbase_last_def dest!: job_pack_tx_pool split: bind_splits)
  then show ?thesis by (rule paysI) (use assms(3) in auto)
qed

lemma count_two_text:
  "count_two t (outs_text (commits t k)) out = Some r \<Longrightarrow>
   r = out @ hex_nat (Suc (Suc (length (commits t k)))) @ outs_text (commits t k)"
  using hex_nat_small by (auto simp: count_two_def commits_def numeral_2_eq_2 numeral_3_eq_3)

abbreviation complete :: "coind \<Rightarrow> string \<Rightarrow> int \<Rightarrow> coind \<times> string \<Rightarrow> bool" where
  "complete k out v r \<equiv> pays k out v (snd r) \<or> snd r = out \<and> oldmasternodes (fst r)"

lemma write_dests_commits:
  assumes "write_dests cfg width (outs_text (commits t k)) k out st = Some r" and "dests_ok (first_count t) v st"
  shows "pays k out v (snd r)"
proof -
  obtain k' out' where r: "r = (k', out')" by fastforce
  show ?thesis
    using write_dests_pays [OF assms(1) [unfolded r] assms(2) [unfolded commits_facts(3) [of t k]] refl]
    by (simp only: r snd_conv commits_facts simp_thms)
qed

lemma write_dests_plain:
  assumes "write_dests cfg width [] k out st = Some r" and "dests_ok 1 v st"
  shows "pays k out v (snd r)"
proof -
  obtain k' out' where r: "r = (k', out')" by fastforce
  show ?thesis
    using write_dests_pays [where cs = "[]", OF assms(1) [unfolded r]] assms(2) by (simp add: r)
qed

lemmas dests_intros = pay_superblocks_ok pay_node_ok pay_member_ok

lemma coinbase_dyn_pays:
  assumes "coinbase_dyn cfg t (outs_text (commits t k)) json k out v = Some r"
  shows "complete k out v r"
proof -
  consider "r = (k\<lparr>oldmasternodes := True\<rparr>, out)"
    | e sb l d d' st st' where "pay_superblocks False k sb l ([], first_count t, v) = Some st"
        "pay_node False k json e d d' st = Some st'" "write_dests cfg 3 (outs_text (commits t k)) k out st' = Some r"
    using assms by (auto simp: coinbase_dyn_def bind_eq_Some_conv Let_def simp del: commits_facts split: if_splits)
  then show ?thesis
  proof cases
    case 2
    then have "dests_ok (first_count t) v st'" by (blast intro: dests_intros dests_ok_start)
    then show ?thesis using write_dests_commits 2(3) by blast
  qed simp
qed

lemma coinbase_named_pays:
  assumes "coinbase_named cfg ek nk json k out v = Some r"
  shows "pays k out v (snd r)"
proof -
  obtain e sb l d st st' where *: "pay_superblocks False k sb l ([], 1, v) = Some st"
      "pay_node False k json e None d st = Some st'" "write_dests cfg 4 [] k out st' = Some r"
    using assms by (auto simp: coinbase_named_def bind_eq_Some_conv)
  show ?thesis
    by (rule write_dests_plain [OF *(3) pay_node_ok [OF *(2) pay_superblocks_ok [OF *(1) dests_ok_start]]])
qed

lemma coinbase_crw_pays:
  assumes "coinbase_crw cfg json k out v = Some r"
  shows "pays k out v (snd r)"
proof -
  obtain b b' st st' where *: "(if b then pay_member False k json ''payeeSN'' ''payeeSN_amount'' ([], 1, v) else Some ([], 1, v)) = Some st"
      "(if b' then pay_member False k json ''payee'' ''amount'' st else Some st) = Some st'" "write_dests cfg 4 [] k out st' = Some r"
    using assms by (auto simp: coinbase_crw_def bind_eq_Some_conv)
  have "dests_ok 1 v st" using *(1) by (cases b) (auto intro: pay_member_ok [OF _ dests_ok_start])
  then have "dests_ok 1 v st'" using *(2) by (cases b') (auto intro: pay_member_ok)
  then show ?thesis by (rule write_dests_plain [OF *(3)])
qed

lemma commits_update [simp]:
  "commits t (k\<lparr>charity_amount := x\<rparr>) = commits t k" "commits t (k\<lparr>charity_percent := p\<rparr>) = commits t k"
  "commits t (k\<lparr>charity_address := a\<rparr>) = commits t k"
  by (simp_all add: commits_def)

lemma coinbase_masternodes_pays:
  assumes "coinbase_masternodes cfg t (outs_text (commits t k)) json k out v = Some r"
  shows "complete k out v r"
proof -
  consider "r = (k\<lparr>oldmasternodes := True\<rparr>, out)"
    | k1 st0 p2 sb l e d d' st st' where
        "(k1, st0) = (k, [], first_count t, v) \<or>
         (\<exists>x p a dest. k1 = k\<lparr>charity_amount := x\<rparr> \<and> st0 = (dest, Suc (first_count t), v - a) \<and>
            job_pack_tx 2048 k1 [] a (Some (script_of p)) = Some dest)"
        "pay_superblocks p2 k1 sb l st0 = Some st" "pay_node p2 k1 json e d d' st = Some st'"
        "write_dests cfg 4 (outs_text (commits t k)) k1 out st' = Some r"
    using assms
    by (auto simp: coinbase_masternodes_def bind_eq_Some_conv Let_def simp del: commits_facts split: if_splits) blast+
  then show ?thesis
  proof cases
    case 2
    have "dests_ok (first_count t) v st0"
      using 2(1) dests_ok_start [of "first_count t" v]
        dests_ok_snoc [OF dests_ok_start [of "first_count t" v], OF payee_scripts_intros(1)]
      by (auto dest!: job_pack_tx_key simp del: commits_facts)
    then have "dests_ok (first_count t) v st'" using 2(2,3) by (blast intro: dests_intros)
    moreover have "commits t k1 = commits t k" "pays k1 = pays k" using 2(1) by auto
    ultimately show ?thesis using write_dests_commits [of cfg 4 t k1 out st' r v] 2(4) by simp
  qed simp
qed

text \<open>The coins with a payment of their own.\<close>

lemma two_outputs:
  assumes "count_two t (outs_text (commits t k)) out = Some tx" and "{s1, s2} \<subseteq> {pool_script k} \<union> payee_scripts"
    and "out' = tx @ out_text (a1, s1) @ out_text (a2, s2) @ ''00000000''"
  shows "pays k out (a1 + a2) out'"
proof (rule paysI)
  show "out' = out @ hex_nat (length (commits t k @ [(a1, s1), (a2, s2)])) @ outs_text (commits t k @ [(a1, s1), (a2, s2)]) @ ''00000000''"
    using count_two_text [OF assms(1)] assms(3) by simp
  show "set (map snd (commits t k @ [(a1, s1), (a2, s2)])) \<subseteq> {pool_script k, commit_script k} \<union> payee_scripts"
    using assms(2) commits_facts(2) [of t k] by auto
qed simp

lemma founder_outputs_pays:
  assumes "founder_outputs cfg t (outs_text (commits t k)) k out v p a = Some r"
  shows "pays k out v (snd r)"
proof -
  obtain tx ty tz where *: "count_two t (outs_text (commits t k)) out = Some tx"
      "job_pack_tx COINB k tx (v - a) None = Some ty" "snd r = tz @ ''00000000''"
      "(if symbol k = ''PGN'' then p2sh_pack_tx COINB ty a (script_of (take 254 p))
        else job_pack_tx COINB k ty a (Some (script_of (take 254 p)))) = Some tz"
    using assms by (auto simp: founder_outputs_def bind_eq_Some_conv Let_def)
  let ?s = "if symbol k = ''PGN'' then to_script (script_of (take 254 p)) else to_hash (script_of (take 254 p))"
  have "tz = tx @ out_text (v - a, pool_script k) @ out_text (a, ?s)"
    using *(2,4) by (auto dest!: pack_SomeD split: if_splits)
  then show ?thesis
    using two_outputs [OF *(1), of "pool_script k" ?s "snd r" "v - a" a] *(3) by auto
qed

lemma coinbase_founder_pays:
  "coinbase_founder cfg t (outs_text (commits t k)) json k out v = Some (Some r) \<Longrightarrow> pays k out v (snd r)"
  by (cases "json_get_object json ''founder''")
     (auto simp: coinbase_founder_def bind_eq_Some_conv intro: founder_outputs_pays split: option.splits if_splits)

lemma coinbase_charity_pays:
  assumes "coinbase_charity cfg t (outs_text (commits t k)) json k out v = Some r"
  shows "pays k out v (snd r)"
proof -
  obtain p a tx where *: "count_two t (outs_text (commits t k)) out = Some tx"
      "snd r = tx @ out_text (v - a, pool_script k) @ out_text (a, to_hash (script_of p)) @ ''00000000''"
    using assms
    by (auto simp: coinbase_charity_def bind_eq_Some_conv Let_def dest!: pack_SomeD)
  then show ?thesis
    using two_outputs [OF *(1), of "pool_script k" _ "snd r" "v - a" a] by auto
qed

lemma coinbase_old_pays:
  assumes "coinbase_old cfg t (outs_text (commits t k)) json k out v = Some r"
  shows "pays k out v (snd r)"
proof -
  obtain p a b where b: "(if symbol k = ''CRW'' then coinbase_crw cfg json k out v
      else if b then do {
        out \<leftarrow> count_two t (outs_text (commits t k)) out;
        out \<leftarrow> job_pack_tx COINB k out a (Some (script_of p));
        coinbase_last cfg k out (v - a)
      } else do { out \<leftarrow> strcat_in COINB out ''01''; coinbase_last cfg k out v }) = Some r"
    using assms unfolding coinbase_old_def Let_def
    by (elim bind_eq_Some_conv [THEN iffD1, elim_format] exE conjE) (rule that)
  consider "coinbase_crw cfg json k out v = Some r"
    | tx tx' where "count_two t (outs_text (commits t k)) out = Some tx" "tx' = tx @ out_text (a, to_hash (script_of p))"
        "coinbase_last cfg k tx' (v - a) = Some r"
    | "coinbase_last cfg k (out @ ''01'') v = Some r"
  proof (cases "symbol k = ''CRW''")
    case False
    then show ?thesis using b that(2,3) by (cases b) (auto simp: bind_eq_Some_conv dest: job_pack_tx_key)
  qed (use b that(1) in simp)
  then show ?thesis
  proof cases
    case 1
    then show ?thesis by (rule coinbase_crw_pays)
  next
    case 2
    then show ?thesis
      using coinbase_last_pays [of cfg k tx' "v - a" "fst r" "snd r" out "commits t k @ [(a, to_hash (script_of p))]"]
        count_two_text [OF 2(1)] commits_facts(2) [of t k] by auto
  next
    case 3
    then have "coinbase_last cfg k (out @ hex_nat (Suc (length [])) @ outs_text []) v = Some (fst r, snd r)"
      unfolding list.size One_nat_def [symmetric] hex_nat_small(1) by simp
    from coinbase_last_pays [OF this refl] show ?thesis by simp
  qed
qed

lemma coinbase_nodes_pays:
  assumes "coinbase_nodes cfg t (outs_text (commits t k)) json k out v = Some r"
  shows "complete k out v r"
proof -
  have last: "pays k out v (snd r)"
    if "coinbase_last cfg k (out @ (if has_segwit_txs t then ''02'' else ''01'') @ outs_text (commits t k)) v = Some r"
  proof -
    have "(if has_segwit_txs t then ''02'' else ''01'') = hex_nat (Suc (length (commits t k)))"
      using hex_nat_small(1,2) by (simp add: commits_def numeral_2_eq_2)
    then show ?thesis
      using coinbase_last_pays [of cfg k _ v "fst r" "snd r" out "commits t k", OF _ _ commits_facts(2)] that by simp
  qed
  show ?thesis
    using assms last coinbase_masternodes_pays [of cfg t k json out v r] coinbase_old_pays [of cfg t k json out v r]
      coinbase_named_pays [of cfg _ _ json k out v r]
    by (auto simp: coinbase_nodes_def bind_eq_Some_conv simp del: outs_text_simps split: if_splits)
qed

lemma coinbase_rest_pays:
  assumes "coinbase_rest cfg t (outs_text (commits t k)) json k out v = Some r"
    and "rpcencoding k \<noteq> ''DCR''" and "symbol k \<noteq> ''XVC''"
  shows "complete k out v r"
proof -
  obtain f where f: "coinbase_founder cfg t (outs_text (commits t k)) json k out v = Some f"
    using assms(1) unfolding coinbase_rest_def bind_eq_Some_conv by blast
  show ?thesis
  proof (cases f)
    case None
    then have "(if charity_percent k \<noteq> 0 \<and> \<not> hasmasternodes k then coinbase_charity cfg t (outs_text (commits t k)) json k out v
                else coinbase_nodes cfg t (outs_text (commits t k)) json k out v) = Some r"
      using assms f by (auto simp: coinbase_rest_def split: if_splits)
    then show ?thesis
      using coinbase_charity_pays [of cfg t k json out v r] coinbase_nodes_pays [of cfg t k json out v r]
      by (simp split: if_splits)
  next
    case (Some r')
    then have "r' = r" using assms(1) f by (simp add: coinbase_rest_def)
    then show ?thesis using f Some coinbase_founder_pays by blast
  qed
qed

lemma stak_outputs_pays:
  assumes "stak_outputs cfg t (outs_text (commits t k)) k out v payee amount = Some r"
  shows "pays k out v (snd r)"
proof -
  let ?s = "to_script (script_of (stak_address (height t) (charity_address k)))"
  have incl: "set (map snd (commits t k)) \<subseteq> {pool_script k, commit_script k} \<union> payee_scripts" by (rule commits_facts)
  show ?thesis
  proof (cases "payee \<noteq> None \<and> amount \<noteq> 0")
    case True
    then obtain p where p: "payee = Some p" "amount \<noteq> 0" by auto
    let ?outs = "commits t k @ [(50000000, ?s), (amount, to_hash (script_of p)), (v - 50000000 - amount, pool_script k)]"
    have "snd r = out @ hex_nat (length ?outs) @ outs_text ?outs @ ''00000000''"
      using assms p by (auto simp: stak_outputs_def Let_def bind_eq_Some_conv commits_facts(3) [of t k] dest!: pack_SomeD)
    then show ?thesis by (rule paysI) (use incl in auto)
  next
    case False
    let ?outs = "commits t k @ [(50000000, ?s), (v - 50000000, pool_script k)]"
    have "snd r = out @ hex_nat (length ?outs) @ outs_text ?outs @ ''00000000''"
      using assms False
      by (auto simp: stak_outputs_def Let_def bind_eq_Some_conv commits_facts(3) [of t k] dest!: pack_SomeD split: if_splits)
    then show ?thesis by (rule paysI) (use incl in auto)
  qed
qed

lemma coinbase_stak_pays:
  "coinbase_stak cfg t (outs_text (commits t k)) json k out v = Some r \<Longrightarrow> pays k out v (snd r)"
  by (auto simp: coinbase_stak_def bind_eq_Some_conv intro: stak_outputs_pays split: if_splits)

lemma coinbase_outputs_pays:
  assumes "coinbase_outputs cfg t (outs_text (commits t k)) json k out v = Some r"
    and "symbol k \<notin> {''XZC'', ''XVC'', ''TUX''}" and "rpcencoding k \<noteq> ''DCR''"
  shows "complete k out v r"
proof -
  let ?d = "\<lambda>p a. default_charity p a k"
  have rest: "complete k out v r" if "coinbase_rest cfg t (outs_text (commits t k)) json (?d p a) out v = Some r" for p a
    using coinbase_rest_pays [of cfg t "?d p a" json out v r] that assms(2,3) by (simp add: default_charity_def)
  show ?thesis
    using assms rest coinbase_rest_pays [of cfg t k json out v r] coinbase_dyn_pays [of cfg t k json out v r]
      coinbase_stak_pays [of cfg t k json out v r]
    by (simp add: coinbase_outputs_def split: if_splits)
qed

section \<open>Merged mining\<close>

lemma hex_nat_nonempty: "2 \<le> length (hex_nat n)"
proof -
  have "length (hex8 (of_nat n)) = 8" by (simp add: hex8_def)
  then show ?thesis
    using length_takeWhile_le [of "\<lambda>c. c = CHR ''0''" "take 6 (hex8 (of_nat n))"] by (simp add: hex_nat_def Let_def)
qed

lemma coinbase_aux_None: "coinbase_aux cfg s t ''7969696d7000'' = None"
  using hex_nat_nonempty [of "auxs_size t"]
  by (auto simp: coinbase_aux_def bind_eq_None_conv strcat_in_def strcpy_in_def intro: ccontr)

text \<open>
  Merged mining cannot work: whenever a template has slots of auxiliary chains, the text of
  their root is written behind the 32 characters of \<open>script2\<close>.
\<close>

lemma coinbase_aux_overflows:
  assumes "\<not> pos (coind_at s c)" and "\<not> isaux (coind_at s c)" and "auxs_size t \<noteq> 0"
  shows "coinbase_create cfg s c t json = None"
  using assms by (simp add: coinbase_create_def coinbase_aux_None bind_eq_None_conv Let_def)

section \<open>The value of a block\<close>


definition paid_coin :: coind where
  "paid_coin = zero_coind\<lparr>script_pubkey := replicate 40 CHR ''0''\<rparr>"

definition paid_pool :: stratum where
  "paid_pool = empty_stratum\<lparr>coind_at := (\<lambda>_. paid_coin)\<rparr>"


end
