(* ===== verification/Users.thy ===== *)
theory Users
  imports Jobs
begin

text \<open>
  \<open>user.cpp\<close> and the parts of \<open>db.cpp\<close> that write about clients: accounts, workers, benchmarks. The
  server is the one of the makefile, built with \<open>NO_MYSQL\<close> and \<open>NO_EXCHANGE\<close>: a statement always
  succeeds and returns no rows. The statements and their parameters are kept in \<open>queries\<close>.
\<close>

section \<open>Statements\<close>

definition db_query :: "string \<Rightarrow> sql list \<Rightarrow> stratum \<Rightarrow> stratum" where
  "db_query format args s = s\<lparr>queries := queries s @ [(format, args)]\<rparr>"

text \<open>
  \<open>db_clean_string\<close> looks at the first \<open>strlen & 0x1FF\<close> characters, and ends the text at the first of
  them it does not know.
\<close>

definition clean_char :: "char \<Rightarrow> bool" where
  "clean_char ch \<longleftrightarrow>
     (let n = of_char ch :: nat in 48 \<le> n \<and> n \<le> 57 \<or> 97 \<le> n \<and> n \<le> 122 \<or> 65 \<le> n \<and> n \<le> 90) \<or>
     ch \<in> set ''=,;.'' \<or> ch \<in> set ''/-_''"

definition cut_at :: "(char \<Rightarrow> bool) \<Rightarrow> string \<Rightarrow> string" where
  "cut_at ok t =
     (let n = unat ((of_nat (length t) :: u64) AND 0x1FF); p = takeWhile ok (take n t)
      in if length p < n then p else t)"

definition db_clean_string :: "string \<Rightarrow> string" where
  "db_clean_string t = cut_at clean_char t"

definition clean_html :: "string \<Rightarrow> string" where
  "clean_html t =
     (let t = cut_at (\<lambda>ch. ch \<notin> set [CHR ''<'', CHR ''>'', CHR ''%'', CHR 0x5C, CHR 0x22, CHR 0x27]) t
      in if strstr t ''script'' \<noteq> None then [] else t)"

text \<open>The characters of \<open>" \"'\\"\<close>\<close>

definition hurts :: "char \<Rightarrow> bool" where
  "hurts ch \<longleftrightarrow> ch \<in> set [CHR '' '', CHR 0x22, CHR 0x27, CHR 0x5C]"

definition db_check_user_input :: "string \<Rightarrow> string" where
  "db_check_user_input input = takeWhile (\<lambda>ch. \<not> hurts ch) input"

definition db_check_coin_symbol :: "'s config \<Rightarrow> string \<Rightarrow> stratum \<Rightarrow> string \<times> stratum" where
  "db_check_coin_symbol cfg sy s =
     (if 2 \<le> length sy \<and> length sy \<le> 12
      then (sy, db_query (''SELECT symbol FROM coins WHERE installed AND algo='%s' AND symbol='%s'' @ [CHR 0x27])
                   [Txt (g_stratum_algo cfg), Txt sy] s)
      else ([], s))"

section \<open>Users\<close>

definition MIN_ADDRESS_LEN :: nat where
  "MIN_ADDRESS_LEN = 30"

text \<open>The symbol of a coin in the password, behind \<open>c=\<close> or else \<open>s=\<close>, up to a comma.\<close>

definition password_symbol :: "string \<Rightarrow> string" where
  "password_symbol pw =
     (case (case strstr pw ''c='' of Some (_, p) \<Rightarrow> Some p | None \<Rightarrow> map_option snd (strstr pw ''s='')) of
        Some p \<Rightarrow> takeWhile (\<lambda>ch. ch \<noteq> CHR '','') (take 15 p)
      | None \<Rightarrow> [])"

definition clean_texts :: "client \<Rightarrow> client" where
  "clean_texts cl = cl\<lparr>username := db_clean_string (username cl), password := db_clean_string (password cl),
     cl_version := db_clean_string (cl_version cl), notify_id := db_clean_string (notify_id cl),
     cl_worker := db_clean_string (cl_worker cl)\<rparr>"

text \<open>
  Some names stand for the wallet of the first coin. The user name has been replaced when it is
  compared again, so neither \<open>,stats\<close> nor the donation depends on what the miner has sent.
\<close>

definition guest_name :: "string \<Rightarrow> bool" where
  "guest_name u \<longleftrightarrow> u = ''benchmark'' \<or> u = ''donate'' \<or> u = ''test''"

definition become_guest :: "coind \<Rightarrow> client \<Rightarrow> client \<times> int" where
  "become_guest k cl =
     (let cl = (if cl_worker cl = [] then cl\<lparr>cl_worker := username cl\<rparr> else cl);
          cl = cl\<lparr>username := wallet k\<rparr>;
          cl = (if username cl = ''benchmark'' then cl\<lparr>password := password cl @ '',stats''\<rparr> else cl)
      in (cl, if username cl = ''donate'' then 100 else -1))"

definition set_client :: "nat \<Rightarrow> client \<Rightarrow> stratum \<Rightarrow> stratum" where
  "set_client c cl = update_client c (\<lambda>_. cl)"

text \<open>The account in the database; without a database the client takes the coin its password names.\<close>

definition choose_coin :: "stratum \<Rightarrow> string \<Rightarrow> client \<Rightarrow> client" where
  "choose_coin s sy cl =
     (if coinid cl = 0
      then (case List.find (\<lambda>k. symbol (coind_at s k) = sy) (g_list_coind s) of
              Some k \<Rightarrow> cl\<lparr>coinid := obj_id (coind_at s k)\<rparr> | None \<Rightarrow> cl)
      else cl)"

definition write_account :: "nat \<Rightarrow> string \<Rightarrow> int \<Rightarrow> stratum \<Rightarrow> stratum" where
  "write_account c sy gift s =
     (let cl = (client_at s c)\<lparr>donation := gift\<rparr>; s = set_client c cl s
      in if userid cl = -1 then s
         else if userid cl = 0 \<and> MIN_ADDRESS_LEN \<le> length (username cl)
         then db_query ''INSERT INTO accounts (username, coinsymbol, balance, donation, hostaddr) values ('%s', '%s', 0, %d, '%s')''
                [Txt (username cl), Txt sy, Num gift, Txt (sock_ip cl)]
                (set_client c (cl\<lparr>userid := 0\<rparr>) s)
         else db_query (''UPDATE accounts SET coinsymbol='%s', swap_time=%u, donation=%d, hostaddr='%s' WHERE id=%d AND balance = 0'' @
                 '' AND (SELECT COUNT(id) FROM payouts WHERE account_id=%d AND tx IS NULL) = 0'' @
                 '' AND (SELECT pending FROM balanceuser WHERE userid=%d ORDER by time DESC LIMIT 1) = 0'')
                [Txt sy, Num (time_of s), Num gift, Txt (sock_ip cl), Num (userid cl), Num (userid cl), Num (userid cl)] s)"

definition db_add_account :: "'s config \<Rightarrow> nat \<Rightarrow> string \<Rightarrow> int \<Rightarrow> stratum \<Rightarrow> stratum" where
  "db_add_account cfg c sy gift s =
     (let s = db_query (''SELECT id, is_locked, logtraffic, coinid, donation FROM accounts WHERE username='%s'' @ [CHR 0x27])
                [Txt (username (client_at s c))] s;
          s = update_client c (choose_coin s sy) s;
          (sy, s) = db_check_coin_symbol cfg (db_check_user_input sy) s
      in write_account c sy (if gift < 0 then 0 else gift) s)"

definition db_add_user :: "'s config \<Rightarrow> nat \<Rightarrow> stratum \<Rightarrow> stratum" where
  "db_add_user cfg c s =
     (let cl = clean_texts (client_at s c);
          sy = password_symbol (password cl);
          cl = cl\<lparr>username := db_check_user_input (username cl)\<rparr>;
          s = set_client c cl s
      in if MIN_ADDRESS_LEN \<le> length (username cl) then db_add_account cfg c sy (-1) s
         else if guest_name (username cl)
         then (case g_list_coind s of
                 [] \<Rightarrow> db_add_account cfg c sy (-1) s
               | k # _ \<Rightarrow> (let (cl, gift) = become_guest (coind_at s k) cl
                           in db_add_account cfg c sy gift (set_client c cl s)))
         else s)"

section \<open>Workers\<close>

definition db_clear_worker :: "nat \<Rightarrow> stratum \<Rightarrow> stratum" where
  "db_clear_worker c s =
     (if workerid (client_at s c) = 0 then s
      else update_client c (\<lambda>cl. cl\<lparr>workerid := 0\<rparr>)
             (db_query ''DELETE FROM workers WHERE id=%d'' [Num (workerid (client_at s c))] s))"

definition check_texts :: "client \<Rightarrow> client" where
  "check_texts cl = cl\<lparr>username := db_check_user_input (username cl), cl_version := db_check_user_input (cl_version cl),
     password := db_check_user_input (password cl), cl_worker := db_check_user_input (cl_worker cl)\<rparr>"

definition db_add_worker :: "'s config \<Rightarrow> nat \<Rightarrow> stratum \<Rightarrow> stratum" where
  "db_add_worker cfg c s =
     (let s = db_clear_worker c s;
          cl = check_texts (client_at s c);
          s = db_query (''INSERT INTO workers (userid, ip, name, difficulty, version, password, worker, algo, time, pid) '' @
                ''VALUES (%d, '%s', '%s', %f, '%s', '%s', '%s', '%s', %d, %d)'')
                [Num (userid cl), Txt (sock_ip cl), Txt (username cl), Dbl (difficulty_actual cl),
                 Txt (take 64 (cl_version cl)), Txt (take 64 (password cl)), Txt (take 64 (cl_worker cl)),
                 Txt (g_stratum_algo cfg), Num (time_of s), Num (pid_of cfg)] s
      in set_client c (cl\<lparr>workerid := 0\<rparr>) s)"

text \<open>One client of \<open>db_update_workers\<close>.\<close>

definition db_update_worker :: "'s config \<Rightarrow> nat \<Rightarrow> stratum \<Rightarrow> stratum" where
  "db_update_worker cfg c s =
     (let cl = client_at s c; r = rnd (fpu_of cfg)
      in if deleted cl then s
         else if workerid cl = 0 then s
         else if speed cl < r (1 / 100000)
         then update_client c (\<lambda>cl. cl\<lparr>deleted := True\<rparr>) (db_clear_worker c s)
         else (let s = update_client c (\<lambda>cl. cl\<lparr>speed := r (speed cl * r (8 / 10))\<rparr>) s
               in if difficulty_written cl = difficulty_actual cl then s
                  else update_client c (\<lambda>cl. cl\<lparr>difficulty_written := difficulty_actual cl\<rparr>)
                         (db_query ''UPDATE workers SET difficulty=%f, subscribe=%d WHERE id=%d''
                           [Dbl (difficulty_actual cl), Num (of_bool (extranonce_subscribe cl)), Num (workerid cl)] s)))"

definition db_update_workers :: "'s config \<Rightarrow> stratum \<Rightarrow> stratum" where
  "db_update_workers cfg s = fold (db_update_worker cfg) (g_list_client s) s"

definition db_init_user_coinid :: "nat \<Rightarrow> stratum \<Rightarrow> stratum" where
  "db_init_user_coinid c s =
     (let cl = client_at s c
      in if userid cl = 0 then s
         else if coinid cl = 0 then db_query ''UPDATE accounts SET coinid=NULL WHERE id=%d'' [Num (userid cl)] s
         else db_query ''UPDATE accounts SET coinid=%d WHERE id=%d AND IFNULL(coinid,0) = 0'' [Num (coinid cl), Num (userid cl)] s)"

section \<open>Benchmarks\<close>

text \<open>A text of the statistics, cut to a length and escaped by the client library of the database.\<close>

definition json_text :: "json option \<Rightarrow> string option" where
  "json_text v = (case v of Some (J_string t) \<Rightarrow> Some t | _ \<Rightarrow> None)"

definition json_str_safe :: "(string \<Rightarrow> string) \<Rightarrow> members \<Rightarrow> string \<Rightarrow> nat \<Rightarrow> string" where
  "json_str_safe escape ms key maxlen =
     (case json_text (json_get_value ms key) of
        Some t \<Rightarrow> take (maxlen - 1) (escape (clean_html (take (min 126 (maxlen - 1)) t)))
      | None \<Rightarrow> [])"

definition json_int_safe :: "members \<Rightarrow> string \<Rightarrow> int" where
  "json_int_safe ms key =
     (case json_get_value ms key of Some (J_integer i) \<Rightarrow> sint (of_int i :: u32) | _ \<Rightarrow> 0)"

definition json_double_safe :: "members \<Rightarrow> string \<Rightarrow> real" where
  "json_double_safe ms key =
     (case json_get_value ms key of
        Some (J_double d) \<Rightarrow> d
      | Some (J_integer i) \<Rightarrow> real_of_int (sint (of_int i :: u32))
      | _ \<Rightarrow> 0)"

definition same_nocase :: "string \<Rightarrow> string \<Rightarrow> bool" where
  "same_nocase t u \<longleftrightarrow> string_lower t = string_lower u"

definition db_store_stats :: "'s config \<Rightarrow> (string \<Rightarrow> string) \<Rightarrow> nat \<Rightarrow> members \<Rightarrow> stratum \<Rightarrow> stratum" where
  "db_store_stats cfg escape c ms s =
     (let text = json_str_safe escape ms; cl = client_at s c;
          throughput = max 0 (json_double_safe ms ''throughput'');
          khashes = json_double_safe ms ''khashes'';
          intensity = json_double_safe ms ''intensity''
      in if \<not> same_nocase (algo_name cfg) (text ''algo'' 32) \<and> submit_bad cl \<noteq> 0 then s
         else if khashes < 0 \<or> intensity < 0 then s
         else db_query (''INSERT INTO benchmarks('' @
                ''time, algo, type, device, arch, vendorid, os, driver,'' @
                ''client, khps, freq, memf, realfreq, realmemf, power, plimit, '' @
                ''intensity, throughput, userid )'' @
                ''VALUES (%d,'%s','%s','%s','%s','%s','%s','%s','' @
                [CHR 0x27] @ ''%s',%f,%d,%d,%d,%d,%d,%d, %.2f,%.0f,%d)'')
              [Num (time_of s), Txt (algo_name cfg), Txt (text ''type'' 8), Txt (text ''device'' 80), Txt (text ''arch'' 8),
               Txt (text ''vendorid'' 12), Txt (text ''os'' 8), Txt (text ''driver'' 32), Txt (text ''client'' 48),
               Dbl khashes, Num (json_int_safe ms ''freq''), Num (json_int_safe ms ''memf''), Num (json_int_safe ms ''curr_freq''),
               Num (json_int_safe ms ''curr_memf''), Num (json_int_safe ms ''power''), Num (json_int_safe ms ''plimit''),
               Dbl intensity, Dbl throughput, Num (userid cl)] s)"

end
