(* ===== verification/Templates.thy ===== *)
theory Templates
  imports Coinbase
begin

text \<open>
  \<open>coind_template.cpp\<close>: a block template of a daemon becomes the template of a job, and the job is
  made when it is not the one the miners have. \<open>None\<close> is a write behind an array, a \<open>NULL\<close> used
  as a text, or a JSON member of a wrong type; a template that cannot be had is an inner \<open>None\<close>.
\<close>

section \<open>Errors\<close>

definition coind_error :: "nat \<Rightarrow> stratum \<Rightarrow> stratum" where
  "coind_error k s = update_coind k (\<lambda>d. d\<lparr>auto_ready := False, deleted := True\<rparr>) s"

text \<open>The result of a call; \<open>None\<close> when there is none or it is \<open>null\<close>.\<close>

definition call_result :: "members option \<Rightarrow> json option" where
  "call_result answer =
     (case answer of None \<Rightarrow> None
      | Some a \<Rightarrow> (case json_get_object a ''result'' of Some J_null \<Rightarrow> None | r \<Rightarrow> r))"

text \<open>A text that must be there, and one that may be missing.\<close>

definition text_of :: "members \<Rightarrow> string \<Rightarrow> string option" where
  "text_of ms name = do { p \<leftarrow> json_get_string ms name; p }"

definition text_or_empty :: "members \<Rightarrow> string \<Rightarrow> string option" where
  "text_or_empty ms name = map_option (\<lambda>p. case p of Some t \<Rightarrow> t | None \<Rightarrow> []) (json_get_string ms name)"

text \<open>\<open>sprintf(buf, "%08x", (unsigned int)json_get_int(ms, name))\<close>\<close>

definition hex_member :: "members \<Rightarrow> string \<Rightarrow> string option" where
  "hex_member ms name = map_option (\<lambda>i. hex8 (of_int i)) (json_get_int ms name)"

section \<open>Merged mining\<close>

definition coind_getauxblock :: "'s config \<Rightarrow> nat \<Rightarrow> stratum \<Rightarrow> stratum option" where
  "coind_getauxblock cfg k s =
     (if \<not> isaux (coind_at s k) then Some s
      else (let (answer, s) = rpc_call cfg k ''getauxblock'' [] s
            in case (case answer of None \<Rightarrow> None | Some a \<Rightarrow> rpc_result a) of
                 None \<Rightarrow> Some (coind_error k s)
               | Some r \<Rightarrow> do {
                   ms \<leftarrow> u_object r;
                   cid \<leftarrow> json_get_int ms ''chainid'';
                   target \<leftarrow> json_get_string ms ''target'';
                   t \<leftarrow> strcpy_in 1024 (case target of Some p \<Rightarrow> p | None \<Rightarrow> aux_target (coind_at s k));
                   hash \<leftarrow> json_get_string ms ''hash'';
                   h \<leftarrow> strcpy_in 1024 (case hash of Some p \<Rightarrow> p | None \<Rightarrow> aux_hash (coind_at s k));
                   Some (update_coind k (\<lambda>d. d\<lparr>chainid := of_int cid, aux_target := t, aux_hash := h\<rparr>) s)
                 }))"

section \<open>Old daemons\<close>

definition coind_create_template_memorypool :: "'s config \<Rightarrow> nat \<Rightarrow> stratum \<Rightarrow> (template option \<times> stratum) option" where
  "coind_create_template_memorypool cfg k s =
     (let (answer, s) = rpc_call cfg k ''getmemorypool'' [] s
      in case call_result answer of
           None \<Rightarrow> Some (None, coind_error k s)
         | Some r \<Rightarrow> do {
             ms \<leftarrow> u_object r;
             v \<leftarrow> json_get_int ms ''coinbasevalue'';
             version \<leftarrow> hex_member ms ''version'';
             time \<leftarrow> hex_member ms ''time'';
             bits \<leftarrow> text_of ms ''bits'';
             bits \<leftarrow> strcpy_in 32 bits;
             prev \<leftarrow> text_of ms ''previousblockhash'';
             prev \<leftarrow> strcpy_in 512 prev;
             let (answer, s) = rpc_call cfg k ''getmininginfo'' [''[]''] s;
             (case call_result answer of
                None \<Rightarrow> Some (None, coind_error k s)
              | Some r \<Rightarrow> do {
                  ms \<leftarrow> u_object r;
                  blocks \<leftarrow> json_get_int ms ''blocks'';
                  s \<leftarrow> coind_getauxblock cfg k s;
                  Some (Some (zero_template\<lparr>created_at := time_of s, tvalue := v, tversion := version, ntime_of := time,
                          nbits := bits, prevhash_hex := prev, height := blocks + 1\<rparr>),
                        update_coind k (\<lambda>d. d\<lparr>usememorypool := True\<rparr>) s)
                })
           })"

section \<open>Decred\<close>

definition bswap32 :: "u32 \<Rightarrow> u32" where
  "bswap32 w = of_nat (be_val (le_bytes 4 (unat w)))"

definition le32_at :: "u8 list \<Rightarrow> nat \<Rightarrow> u32" where
  "le32_at header off = of_nat (be_val (rev (take 4 (drop off header))))"

text \<open>The packed structure has 192 bytes; a shorter text leaves some of it unwritten.\<close>

definition decred_parse_header :: "template \<Rightarrow> string \<Rightarrow> bool \<Rightarrow> template option" where
  "decred_parse_header t header_hex getwork = do {
     let header = binlify header_hex;
     if length header \<noteq> 192 then None
     else do {
       let prev = concat (map (\<lambda>i. let w = le32_at header (4 + 4 * (7 - i)) in hex8 (if getwork then w else bswap32 w)) [0..<8]);
       prev_be \<leftarrow> map_option c_text (ser_string_be2 prev 8 (array_of 512 (prevhash_be t)));
       Some (t\<lparr>height := sint (le32_at header 128),
               tversion := hex8 (if getwork then bswap32 (le32_at header 0) else le32_at header 0),
               ntime_of := hex8 (le32_at header 136), nbits := hex8 (le32_at header 116),
               prevhash_hex := prev, prevhash_be := prev_be, theader := header\<rparr>)
     }
   }"

text \<open>\<open>getwork\<close> is called again after no answer and after an internal error, \<open>n\<close> times in all.\<close>

fun getwork_retry :: "'s config \<Rightarrow> nat \<Rightarrow> nat \<Rightarrow> stratum \<Rightarrow> (members option \<times> stratum) option" where
  "getwork_retry cfg k 0 s = Some (None, s)"
| "getwork_retry cfg k (Suc n) s =
     (let (answer, s) = rpc_call cfg k ''getwork'' [''[]''] s
      in case answer of
           None \<Rightarrow> getwork_retry cfg k n s
         | Some a \<Rightarrow>
             (case rpc_result a of
                None \<Rightarrow> Some (None, s)
              | Some J_null \<Rightarrow>
                  (case rpc_error a of
                     None \<Rightarrow> Some (None, s)
                   | Some J_null \<Rightarrow> Some (None, s)
                   | Some e \<Rightarrow> do {
                       ms \<leftarrow> u_object e;
                       err \<leftarrow> json_get_string ms ''message'';
                       if err = Some ''internal error'' then getwork_retry cfg k n s else Some (None, s)
                     })
              | Some r \<Rightarrow> map_option (\<lambda>ms. (Some ms, s)) (u_object r)))"

definition decred_create_worktemplate :: "'s config \<Rightarrow> nat \<Rightarrow> stratum \<Rightarrow> (template option \<times> stratum) option" where
  "decred_create_worktemplate cfg k s = do {
     (gwr, s) \<leftarrow> getwork_retry cfg k 3 s;
     (case gwr of
        None \<Rightarrow> Some (None, s)
      | Some ms \<Rightarrow> do {
          header_hex \<leftarrow> text_or_empty ms ''data'';
          if header_hex = [] then Some (None, s)
          else do {
            t \<leftarrow> decred_parse_header (zero_template\<lparr>created_at := time_of s\<rparr>) header_hex True;
            steps \<leftarrow> merkle_steps (hash_pair (double_sha cfg) (stack64 cfg)) [[]];
            Some (Some (t\<lparr>coinb1 := hexlify (take (192 - 80) (drop 36 (theader t))),
                          coinb2 := hexlify (take (180 - 176) (drop 176 (theader t))),
                          txmerkles := [], txcount := 1, txsteps := steps\<rparr>), s)
          }
        })
   }"

definition decred_fix_template :: "template \<Rightarrow> members \<Rightarrow> template option" where
  "decred_fix_template t json = do {
     header_hex \<leftarrow> text_or_empty json ''header'';
     if header_hex = [] then Some t else decred_parse_header t header_hex False
   }"

section \<open>Templates of getblocktemplate\<close>

text \<open>The first rule that is \<open>segwit\<close> switches it on.\<close>

fun find_rule :: "json list \<Rightarrow> bool option" where
  "find_rule [] = Some False"
| "find_rule (v # vs) = do { p \<leftarrow> u_string v; t \<leftarrow> p; if t = ''segwit'' then Some True else find_rule vs }"

definition segwit_rules :: "'s config \<Rightarrow> nat \<Rightarrow> members \<Rightarrow> stratum \<Rightarrow> stratum option" where
  "segwit_rules cfg k ms s =
     (case json_get_array ms ''rules'' of
        None \<Rightarrow> Some s
      | Some rules \<Rightarrow>
          if witness_magic (coind_at s k) \<noteq> [] then Some s
          else do {
            l \<leftarrow> u_array rules;
            b \<leftarrow> find_rule l;
            if \<not> b then Some s
            else do {
              commitment \<leftarrow> json_get_string ms ''default_witness_commitment'';
              let magic = (case commitment of
                  Some t \<Rightarrow> if 12 < length t then take 8 (drop 4 t) else ''aa21a9ed'' | None \<Rightarrow> ''aa21a9ed'');
              Some (update_coind k (\<lambda>d. d\<lparr>witness_magic := magic, usesegwit := usesegwit d \<or> g_stratum_segwit cfg\<rparr>) s)
            }
          })"

text \<open>The simple fields.\<close>

definition template_base :: "stratum \<Rightarrow> members \<Rightarrow> template option" where
  "template_base s ms = do {
     v \<leftarrow> json_get_int ms ''coinbasevalue'';
     h \<leftarrow> json_get_int ms ''height'';
     version \<leftarrow> hex_member ms ''version'';
     time \<leftarrow> hex_member ms ''curtime'';
     bits \<leftarrow> text_or_empty ms ''bits'';
     bits \<leftarrow> strcpy_in 32 bits;
     prev \<leftarrow> text_or_empty ms ''previousblockhash'';
     prev \<leftarrow> strcpy_in 512 prev;
     Some (zero_template\<lparr>created_at := time_of s, tvalue := v, height := h, tversion := version, ntime_of := time,
             nbits := bits, prevhash_hex := prev\<rparr>)
   }"

text \<open>
  Equihash: the bits of the target, written into \<open>bits_str\<close> of five characters, and the hash of
  the sapling tree.
\<close>

definition template_equi :: "'s config \<Rightarrow> members \<Rightarrow> template \<Rightarrow> template option" where
  "template_equi cfg ms t = do {
     target \<leftarrow> text_of ms ''target'';
     bits_bin \<leftarrow> target2bits (target_beyond cfg) target;
     bits_str \<leftarrow> strcpy_in (5 + bits_slack cfg) (hexlify (le_bytes 4 (unat bits_bin)));
     from_target \<leftarrow> reversed_in 32 bits_str;
     sapling \<leftarrow> text_or_empty ms ''finalsaplingroothash'';
     sapling \<leftarrow> strcpy_in 512 sapling;
     sapling_be \<leftarrow> reversed_in 512 sapling;
     Some (t\<lparr>nbits_from_target := from_target, extradata_hex := sapling, extradata_be := sapling_be\<rparr>)
   }"

text \<open>The claim tree of LBC, in the template or from a call of its own; an inner \<open>None\<close> gives up.\<close>

definition template_claim :: "'s config \<Rightarrow> nat \<Rightarrow> members \<Rightarrow> template \<Rightarrow> stratum \<Rightarrow> (template option \<times> stratum) option" where
  "template_claim cfg k ms t s = do {
     claim \<leftarrow> json_get_string ms ''claimtrie'';
     (case claim of
        Some c \<Rightarrow> do { c \<leftarrow> strcpy_in 128 c; Some (Some (t\<lparr>claim_hex := c\<rparr>), s) }
      | None \<Rightarrow>
          if symbol (coind_at s k) \<noteq> ''LBC'' then Some (Some t, s)
          else (let (answer, s) = rpc_call cfg k ''getclaimtrie'' [] s
                in case (case answer of None \<Rightarrow> None | Some a \<Rightarrow> rpc_result a) of
                     Some (J_array (v # vs)) \<Rightarrow> do {
                       ms \<leftarrow> u_object v;
                       claim \<leftarrow> json_get_string ms ''hash'';
                       c \<leftarrow> strcpy_in 128 (case claim of Some c \<Rightarrow> c | None \<Rightarrow> claim_hex t);
                       Some (Some (t\<lparr>claim_hex := c\<rparr>), s)
                     }
                   | Some (J_array []) \<Rightarrow> None
                   | _ \<Rightarrow> Some (None, s)))
   }"

text \<open>The two roots of LUX.\<close>

definition template_roots :: "members \<Rightarrow> template \<Rightarrow> template option" where
  "template_roots ms t = do {
     sc_root \<leftarrow> json_get_string ms ''stateroot'';
     sc_utxo \<leftarrow> json_get_string ms ''utxoroot'';
     (case (sc_root, sc_utxo) of
        (Some r, Some u) \<Rightarrow> do {
          r' \<leftarrow> strcpy_in 512 r;
          u' \<leftarrow> strcpy_in (512 - 64) u;
          be1 \<leftarrow> ser_string_be2 r 8 (array_of 64 []);
          be2 \<leftarrow> ser_string_be2 u 8 (array_of 64 []);
          Some (t\<lparr>extradata_hex := (if length r < 64 then r else take 64 r @ u),
                  extradata_be := c_text (be1 @ be2 @ drop 128 (extradata_be t))\<rparr>)
        }
      | _ \<Rightarrow> Some t)
   }"

text \<open>
  The chain id of MBL is never put into the version: \<open>nVersion & 0xFFFF0000UL == 0\<close> is
  \<open>nVersion & 0\<close>.
\<close>

definition template_mbl :: "coind \<Rightarrow> members \<Rightarrow> template \<Rightarrow> template option" where
  "template_mbl d ms t =
     (if symbol d = ''MBL'' then map_option (\<lambda>v. t\<lparr>tversion := v\<rparr>) (hex_member ms ''version'') else Some t)"

text \<open>The transactions: the hashes and the ids, each list with an empty text for the coinbase.\<close>

definition template_tx :: "'s config \<Rightarrow> nat \<times> json \<Rightarrow> string list \<times> string list \<times> template \<Rightarrow> (string list \<times> string list \<times> template) option" where
  "template_tx cfg itx st =
     (case (itx, st) of ((i, tx), hashes, ids, t) \<Rightarrow> do {
        ms \<leftarrow> u_object tx;
        if has_filtered_txs t then do {
          fee \<leftarrow> json_get_int ms ''fee'';
          Some (hashes, ids, t\<lparr>filtered_txs_fee := sint (of_int (filtered_txs_fee t + fee) :: u32)\<rparr>)
        } else do {
          p \<leftarrow> text_of ms ''hash'';
          hash_be \<leftarrow> reversed_in 256 p;
          txid \<leftarrow> text_or_empty ms ''txid'';
          (ids, segwit) \<leftarrow>
            (if txid \<noteq> [] then do {
               txid_be \<leftarrow> reversed_in 256 txid;
               Some (ids @ [txid_be], has_segwit_txs t \<or> hash_be \<noteq> txid_be)
             } else Some (ids, False));
          d \<leftarrow> text_of ms ''data'';
          Some (hashes @ [hash_be], ids,
            t\<lparr>has_segwit_txs := segwit, txdata := txdata t @ [d],
              has_filtered_txs := g_limit_txs_per_block cfg \<noteq> 0 \<and> g_limit_txs_per_block cfg - 2 \<le> int i\<rparr>)
        }
      })"

definition template_txs :: "'s config \<Rightarrow> json list \<Rightarrow> template \<Rightarrow> (string list \<times> string list \<times> template) option" where
  "template_txs cfg txs t = fold_opt (template_tx cfg) (enumerate 0 txs) ([[]], [[]], t)"

text \<open>The pairs of characters swapped and the whole reversed: the bytes in the opposite order.\<close>

fun swap_pairs :: "string \<Rightarrow> string" where
  "swap_pairs (a # b # s) = b # a # swap_pairs s"
| "swap_pairs s = s"

definition reverse_hex :: "string \<Rightarrow> string" where
  "reverse_hex hex = rev (swap_pairs hex)"

text \<open>
  Equihash: the coinbase of the daemon is taken as it is, and the Merkle root the miners need is
  computed from its hash. An inner \<open>None\<close> is an error of the daemon.
\<close>

definition template_coinbasetxn ::
    "'s config \<Rightarrow> members \<Rightarrow> string list \<Rightarrow> template \<Rightarrow> template option option" where
  "template_coinbasetxn cfg ms hashes t =
     (case json_get_object ms ''coinbasetxn'' of
        None \<Rightarrow> Some None
      | Some c \<Rightarrow> do {
          ms \<leftarrow> u_object c;
          v \<leftarrow> json_get_int ms ''coinbasevalue'';
          p \<leftarrow> json_get_string ms ''hash'';
          d \<leftarrow> text_of ms ''data'';
          if 16 * 1024 \<le> length d + 1 then Some None
          else do {
            p \<leftarrow> p;
            hash_be \<leftarrow> reversed_in 256 p;
            let h = hash_pair (double_sha cfg) (stack64 cfg);
            steps \<leftarrow> merkle_steps h hashes;
            mr \<leftarrow> (if steps \<noteq> [] then map_option reverse_hex (merkle_with_first h steps hash_be) else Some p);
            mr \<leftarrow> strcpy_in 512 mr;
            Some (Some (t\<lparr>tvalue := v, coinbase_of := d, mr_hex := mr\<rparr>))
          }
        })"

text \<open>The Merkle branch, and the list of it for the miners.\<close>

definition quoted_list :: "string list \<Rightarrow> string" where
  "quoted_list steps = butlast (concat (map (\<lambda>t. [CHR 0x22] @ t @ [CHR 0x22, CHR '','']) steps))"

definition template_steps :: "'s config \<Rightarrow> string list \<Rightarrow> string list \<Rightarrow> template \<Rightarrow> template option" where
  "template_steps cfg hashes ids t = do {
     let l = (if has_segwit_txs t then ids else hashes);
     steps \<leftarrow> merkle_steps (hash_pair (double_sha cfg) (stack64 cfg)) l;
     Some (t\<lparr>tvalue := (if has_filtered_txs t then tvalue t - filtered_txs_fee t else tvalue t),
             txcount := length l, txsteps := steps\<rparr>)
   }"

definition template_commitment :: "nat \<Rightarrow> members \<Rightarrow> template \<Rightarrow> stratum \<Rightarrow> (template \<times> stratum) option" where
  "template_commitment k ms t s =
     (if has_segwit_txs t then do {
        c \<leftarrow> json_get_string ms ''default_witness_commitment'';
        (case c of
           Some c \<Rightarrow> do { c \<leftarrow> strcpy_in 128 c; Some (t, update_coind k (\<lambda>d. d\<lparr>commitment := c\<rparr>) s) }
         | None \<Rightarrow> Some (t\<lparr>has_segwit_txs := False\<rparr>, s))
      } else Some (t, s))"

definition template_texts :: "'s config \<Rightarrow> coind \<Rightarrow> template \<Rightarrow> template option" where
  "template_texts cfg d t = do {
     merkles \<leftarrow> strcpy_in (32 * 1024 - 1) (quoted_list (txsteps t));
     prev_be \<leftarrow> (if g_stratum_algo cfg = ''equihash'' then reversed_in 512 (prevhash_hex t)
                 else map_option c_text (ser_string_be2 (array_of 512 (prevhash_hex t)) 8 (array_of 512 (prevhash_be t))));
     claim_be \<leftarrow> (if symbol d = ''LBC''
                  then map_option c_text (ser_string_be2 (array_of 128 (claim_hex t)) 8 (array_of 128 []))
                  else Some (claim_be t));
     Some (t\<lparr>txmerkles := merkles, prevhash_be := prev_be, claim_be := claim_be\<rparr>)
   }"

text \<open>Everything behind the transactions, for a coin that is no auxiliary chain.\<close>

definition template_finish ::
    "'s config \<Rightarrow> nat \<Rightarrow> members \<Rightarrow> json list \<Rightarrow> template \<Rightarrow> stratum \<Rightarrow> (template option \<times> stratum) option" where
  "template_finish cfg k ms txs t s = do {
     (hashes, ids, t) \<leftarrow> template_txs cfg txs (t\<lparr>has_segwit_txs := False, has_filtered_txs := False, filtered_txs_fee := 0\<rparr>);
     t \<leftarrow> (if g_stratum_algo cfg = ''equihash'' then template_coinbasetxn cfg ms hashes t else Some (Some t));
     (case t of
        None \<Rightarrow> Some (None, coind_error k s)
      | Some t \<Rightarrow> do {
          t \<leftarrow> template_steps cfg hashes ids t;
          (t, s) \<leftarrow> template_commitment k ms t s;
          t \<leftarrow> template_texts cfg (coind_at s k) t;
          (s, t) \<leftarrow> (if pos (coind_at s k) then Some (s, t) else coind_aux_build_auxs s t);
          (d, t) \<leftarrow> coinbase_create cfg s k t ms;
          Some (Some t, update_coind k (\<lambda>_. d) s)
        })
   }"

text \<open>The flags of \<open>coinbaseaux\<close> are read only where the object is missing, which has been refused before.\<close>

definition template_fields ::
    "'s config \<Rightarrow> nat \<Rightarrow> members \<Rightarrow> stratum \<Rightarrow> (template option \<times> stratum) option" where
  "template_fields cfg k ms s = do {
     t \<leftarrow> template_base s ms;
     t \<leftarrow> (if g_stratum_algo cfg = ''equihash'' then template_equi cfg ms t else Some t);
     (t, s) \<leftarrow> template_claim cfg k ms t s;
     (case t of
        None \<Rightarrow> Some (None, s)
      | Some t \<Rightarrow> do {
          t \<leftarrow> template_roots ms t;
          t \<leftarrow> (if rpcencoding (coind_at s k) = ''DCR'' then decred_fix_template t ms else Some t);
          t \<leftarrow> template_mbl (coind_at s k) ms t;
          Some (Some t, s)
        })
   }"

definition gbt_params :: "'s config \<Rightarrow> coind \<Rightarrow> string list" where
  "gbt_params cfg d =
     (if symbol d = ''PPC'' then [''[]'']
      else if g_stratum_segwit cfg
      then [''[{'' @ [CHR 0x22] @ ''rules'' @ [CHR 0x22] @ '':['' @ [CHR 0x22] @ ''segwit'' @ [CHR 0x22] @ '']}]'']
      else [''[{}]''])"

definition coind_create_template :: "'s config \<Rightarrow> nat \<Rightarrow> stratum \<Rightarrow> (template option \<times> stratum) option" where
  "coind_create_template cfg k s =
     (if usememorypool (coind_at s k) then coind_create_template_memorypool cfg k s
      else (let (answer, s) = rpc_call cfg k ''getblocktemplate'' (gbt_params cfg (coind_at s k)) s
            in case answer of
                 None \<Rightarrow> Some (None, if rpcencoding (coind_at s k) = ''DCR'' then s else coind_error k s)
               | Some a \<Rightarrow>
                   (case call_result (Some a) of
                      None \<Rightarrow> Some (None, coind_error k s)
                    | Some r \<Rightarrow> do {
                        ms \<leftarrow> u_object r;
                        s \<leftarrow> segwit_rules cfg k ms s;
                        (case json_get_array ms ''transactions'' of
                           None \<Rightarrow> Some (None, coind_error k s)
                         | Some txs \<Rightarrow>
                             if json_get_object ms ''coinbaseaux'' = None \<and> isaux (coind_at s k)
                             then Some (None, coind_error k s)
                             else do {
                               (t, s) \<leftarrow> template_fields cfg k ms s;
                               (case t of
                                  None \<Rightarrow> Some (None, s)
                                | Some t \<Rightarrow>
                                    if isaux (coind_at s k)
                                    then map_option (\<lambda>s. (Some t, s)) (coind_getauxblock cfg k s)
                                    else do { txs \<leftarrow> u_array txs; template_finish cfg k ms txs t s })
                             })
                      })))"

section \<open>Jobs\<close>

definition job_get_jobid :: "stratum \<Rightarrow> int \<times> stratum" where
  "job_get_jobid s = (let i = g_job_next_id s + 1 in (i, s\<lparr>g_job_next_id := i\<rparr>))"

text \<open>The template is the one the miners have.\<close>

definition same_template :: "stratum \<Rightarrow> template \<Rightarrow> nat option \<Rightarrow> bool" where
  "same_template s t job_last \<longleftrightarrow>
     (case job_last of
        None \<Rightarrow> False
      | Some j \<Rightarrow>
          (let t' = templ (job_at s j)
           in time_of s < created_at t' + 45 \<and> height t = height t' \<and> txcount t = txcount t' \<and> coinb2 t = coinb2 t'))"

text \<open>The network target of a template.\<close>

definition template_target :: "'s config \<Rightarrow> template \<Rightarrow> u64 option" where
  "template_target cfg t =
     map_option network_target
       (if algo_name cfg = ''equihash''
        then map_option (equi_coin_target (fpu_of cfg) (diff_multiplier cfg)) (bits_of cfg (nbits t))
        else Some (decode_compact (fpu_of cfg) (nbits t)))"

text \<open>The new job is at the address of its id.\<close>

definition new_job :: "'s config \<Rightarrow> nat \<Rightarrow> template \<Rightarrow> stratum \<Rightarrow> stratum" where
  "new_job cfg k t s =
     (let s = (case cjob (coind_at s k) of Some j \<Rightarrow> update_job j (\<lambda>b. b\<lparr>deleted := True\<rparr>) s | None \<Rightarrow> s);
          (i, s) = job_get_jobid s;
          j = nat i;
          r = rnd (fpu_of cfg);
          p = coind_profitability cfg s k;
          part = (if algo_profit cfg \<noteq> 0 then min 1 (r (p / algo_profit cfg)) else 1);
          s = update_coind k (\<lambda>d. d\<lparr>cjob := Some j\<rparr>) s;
          s = update_job j (\<lambda>_. zero_job\<lparr>obj_id := i, templ := t, profit := p,
                maxspeed := r (coind_nethash cfg (coind_at s k) * part), coind_of := Some k\<rparr>) s
      in s\<lparr>g_list_job := g_list_job s @ [j]\<rparr>)"

definition coind_create_job :: "'s config \<Rightarrow> nat \<Rightarrow> bool \<Rightarrow> stratum \<Rightarrow> (bool \<times> stratum) option" where
  "coind_create_job cfg k force s =
     (if \<not> rpc_up (coind_at s k) then Some (False, s)
      else do {
        (t, s) \<leftarrow> (if usegetwork (coind_at s k) \<and> rpcencoding (coind_at s k) = ''DCR''
                   then decred_create_worktemplate cfg k s else coind_create_template cfg k s);
        (case t of
           None \<Rightarrow> Some (False, s)
         | Some t \<Rightarrow>
             if \<not> force \<and> same_template s t (cjob (coind_at s k)) then Some (True, s)
             else do {
               let h = cheight (coind_at s k);
               let s = update_coind k (\<lambda>d. d\<lparr>cheight := height t - 1\<rparr>) s;
               let s = (if h < height t - 1 \<and> \<not> newblock (coind_at s k) \<and> auto_ready (coind_at s k)
                        then update_coind k (\<lambda>d. d\<lparr>notreportingcounter := notreportingcounter d + 1\<rparr>) s else s);
               target \<leftarrow> template_target cfg t;
               let s = update_coind k (\<lambda>d. d\<lparr>cdifficulty := target_to_diff (fpu_of cfg) target, newblock := False\<rparr>) s;
               Some (True, new_job cfg k t s)
             })
      })"

end
