(* ===== verification/Job_Send.thy ===== *)
theory Job_Send
  imports Users Templates
begin

text \<open>
  \<open>job_send.cpp\<close> and the rest of \<open>job.cpp\<close>: the text of \<open>mining.notify\<close>, the jobs that are sent to
  one client or to all that have been assigned them, and \<open>job_update\<close>, which puts the parts of
  \<open>Jobs\<close> together. The server is built with \<open>NO_EXCHANGE\<close>. \<open>None\<close> is a write behind an array.
\<close>

section \<open>The text of a job\<close>

definition YAAMP_SMALLBUFSIZE :: nat where
  "YAAMP_SMALLBUFSIZE = 32 * 1024"

text \<open>\<open>"%x"\<close>\<close>

definition hex_x :: "int \<Rightarrow> string" where
  "hex_x i =
     (let t = dropWhile (\<lambda>ch. ch = CHR ''0'') (hex8 (of_int i)) in if t = [] then ''0'' else t)"

definition quoted :: "string \<Rightarrow> string" where
  "quoted t = [CHR 0x22] @ t @ [CHR 0x22]"

text \<open>The parameters of a notification: texts, the list of the branch, and more texts.\<close>

definition notify_line :: "string list \<Rightarrow> string" where
  "notify_line params =
     ''{'' @ quoted ''id'' @ '':null,'' @ quoted ''method'' @ '':'' @ quoted ''mining.notify'' @ '','' @
     quoted ''params'' @ '':['' @ concat (map (\<lambda>p. p @ '','') (butlast params)) @ last params @ '']}'' @ [CHR 0x0A]"

text \<open>The texts of an equihash job, reversed in arrays of their own.\<close>

definition equi_notify :: "job \<Rightarrow> string option" where
  "equi_notify b = do {
     let t = templ b;
     rev_version \<leftarrow> reversed_in 32 (tversion t);
     prevHashReversed \<leftarrow> reversed_in 65 (prevhash_hex t);
     merkleRootReversed \<leftarrow> reversed_in 65 (mr_hex t);
     rev_ntime \<leftarrow> reversed_in 32 (ntime_of t);
     rev_nbits \<leftarrow> reversed_in 32 (nbits t);
     Some (notify_line (map quoted [hex_x (obj_id b), rev_version, prevHashReversed, merkleRootReversed,
       extradata_be t, rev_ntime, rev_nbits] @ ['' true'']))
   }"

definition job_mining_notify_buffer :: "'s config \<Rightarrow> job \<Rightarrow> string option" where
  "job_mining_notify_buffer cfg b =
     (let t = templ b;
          line = (\<lambda>extra. notify_line (map quoted ([hex_x (obj_id b), prevhash_be t] @ extra @ [coinb1 t, coinb2 t]) @
            [''['' @ txmerkles t @ '']''] @ map quoted [tversion t, nbits t, ntime_of t] @ [''true'']))
      in do {
        text \<leftarrow> (if g_stratum_algo cfg = ''lbry'' then Some (line [claim_be t])
                else if length (extradata_hex t) = 128 then Some (line [extradata_be t])
                else if g_stratum_algo cfg = ''equihash'' then equi_notify b
                else Some (line []));
        strcpy_in YAAMP_SMALLBUFSIZE text
      })"

section \<open>A job for one client\<close>

definition job_get_last :: "int \<Rightarrow> stratum \<Rightarrow> nat option" where
  "job_get_last coin s =
     List.find (\<lambda>j. job_can_mine s j \<and>
       (case coind_of (job_at s j) of
          None \<Rightarrow> False | Some k \<Rightarrow> \<not> (0 < coin \<and> obj_id (coind_at s k) \<noteq> coin))) (g_list_job s)"

definition job_send_last :: "'s config \<Rightarrow> nat \<Rightarrow> stratum \<Rightarrow> stratum option" where
  "job_send_last cfg c s =
     (case (case job_get_last (coinid (client_at s c)) s of None \<Rightarrow> job_get_last 0 s | Some j \<Rightarrow> Some j) of
        None \<Rightarrow> Some s
      | Some j \<Rightarrow> do {
          let s = update_client c (\<lambda>cl. cl\<lparr>jobid_sent := obj_id (job_at s j)\<rparr>) s;
          buffer \<leftarrow> job_mining_notify_buffer cfg (job_at s j);
          Some (send c (Notify buffer) s)
        })"

definition job_send_jobid :: "'s config \<Rightarrow> nat \<Rightarrow> int \<Rightarrow> stratum \<Rightarrow> stratum option" where
  "job_send_jobid cfg c jobid s =
     (let (job, s) = find_job jobid s
      in case job of
           None \<Rightarrow> job_send_last cfg c s
         | Some j \<Rightarrow> do {
             buffer \<leftarrow> job_mining_notify_buffer cfg (job_at s j);
             let s = update_client c (\<lambda>cl. cl\<lparr>jobid_sent := obj_id (job_at s j)\<rparr>) s;
             Some (unlock_job job (send c (Notify buffer) s))
           })"

section \<open>A job for all its clients\<close>

text \<open>
  One client of \<open>job_broadcast\<close>; one that could not be reached three times is given up.
\<close>

definition broadcast_wants :: "job \<Rightarrow> client \<Rightarrow> bool" where
  "broadcast_wants b cl \<longleftrightarrow>
     \<not> deleted cl \<and> sock_open cl \<and> jobid_next cl = obj_id b \<and> jobid_sent cl \<noteq> obj_id b"

definition broadcast_failed :: "nat \<Rightarrow> stratum \<Rightarrow> stratum" where
  "broadcast_failed c s =
     (let s = update_client c (\<lambda>cl. cl\<lparr>broadcast_timeouts := broadcast_timeouts cl + 1\<rparr>) s; cl = client_at s c
      in if 3 \<le> broadcast_timeouts cl
         then update_client c (\<lambda>cl. cl\<lparr>deleted := True\<rparr>)
                (if workerid cl \<noteq> 0 \<and> \<not> reconnecting cl then db_clear_worker c s else s)
         else s)"

definition broadcast_client :: "'s config \<Rightarrow> nat \<Rightarrow> string \<Rightarrow> nat \<Rightarrow> stratum \<Rightarrow> stratum option" where
  "broadcast_client cfg j buffer c s =
     (if \<not> broadcast_wants (job_at s j) (client_at s c) then Some s
      else do {
        let i = obj_id (job_at s j);
        s \<leftarrow> client_adjust_difficulty cfg c
               (update_client c (\<lambda>cl. client_add_job_history i (cl\<lparr>jobid_sent := i\<rparr>)) s);
        let s = send c (Notify buffer) s;
        Some (if socket_ok cfg (sent s) then s else broadcast_failed c s)
      })"

definition job_broadcast :: "'s config \<Rightarrow> nat \<Rightarrow> stratum \<Rightarrow> stratum option" where
  "job_broadcast cfg j s = do {
     buffer \<leftarrow> job_mining_notify_buffer cfg (job_at s j);
     s \<leftarrow> fold_opt (broadcast_client cfg j buffer) (g_list_client s) s;
     Some (s\<lparr>g_last_broadcasted := time_of s\<rparr>)
   }"

section \<open>Assigning and sending all jobs\<close>

text \<open>The jobs in the order of their profit, as long as a client is left without a job.\<close>

fun assign_jobs :: "'s config \<Rightarrow> nat list \<Rightarrow> stratum \<Rightarrow> stratum option" where
  "assign_jobs cfg [] s = Some s"
| "assign_jobs cfg (j # js) s =
     (if \<not> job_can_mine s j then assign_jobs cfg js s
      else do {
        s \<leftarrow> job_assign_clients cfg (Some j) (maxspeed (job_at s j)) s;
        let s = job_unlock_clients (Some j) s;
        if job_has_free_client s then assign_jobs cfg js s else Some s
      })"

text \<open>A client that is still without a job gets a new one of the first coin.\<close>

definition assign_first_coin :: "'s config \<Rightarrow> stratum \<Rightarrow> stratum option" where
  "assign_first_coin cfg s =
     (if \<not> job_has_free_client s then Some s
      else (let s = s\<lparr>algo_overflow := True\<rparr>
            in case g_list_coind s of
                 [] \<Rightarrow> Some s
               | k # _ \<Rightarrow> do {
                   let s = job_reset_clients (cjob (coind_at s k)) s;
                   (_, s) \<leftarrow> coind_create_job cfg k True s;
                   job_assign_clients cfg (cjob (coind_at s k)) (-1) s
                 }))"

definition broadcast_jobs :: "'s config \<Rightarrow> stratum \<Rightarrow> stratum option" where
  "broadcast_jobs cfg s = fold_opt (\<lambda>j s. if job_can_mine s j then job_broadcast cfg j s else Some s) (g_list_job s) s"

definition job_update :: "'s config \<Rightarrow> stratum \<Rightarrow> stratum option" where
  "job_update cfg s = do {
     s \<leftarrow> job_sort (job_reset_clients None s);
     s \<leftarrow> assign_jobs cfg (g_list_job s) s;
     s \<leftarrow> coind_sort cfg (job_unlock_clients None s);
     s \<leftarrow> job_assign_clients_left cfg 1 s;
     s \<leftarrow> job_assign_clients_left cfg 1 s;
     s \<leftarrow> job_assign_clients_left cfg (-1) s;
     s \<leftarrow> assign_first_coin cfg s;
     broadcast_jobs cfg s
   }"

end
