(* ===== verification/Template_Correct.thy ===== *)
theory Template_Correct
  imports Coinbase_Correct Job_Send
begin

text \<open>
  What a miner of an equihash coin is told and what it is measured by come from the same template:
  the Merkle root in the notification is the root in the header of a submitted block.
\<close>

section \<open>Texts reversed twice\<close>

lemma reversed_hexlify: "2 * length bs < n \<Longrightarrow> reversed_in n (hexlify bs) = Some (hexlify (rev bs))"
  using string_be_hexlify [of bs "array_of n []"]
  by (cases "n - 2 * length bs") (auto simp: reversed_in_def array_of_def c_text_hexlify)

lemma swap_pairs_append: "even (length a) \<Longrightarrow> swap_pairs (a @ b) = swap_pairs a @ swap_pairs b"
  by (induction a rule: swap_pairs.induct) auto

lemma reverse_hex_hexlify: "reverse_hex (hexlify bs) = hexlify (rev bs)"
  by (induction bs) (simp_all add: reverse_hex_def hexlify_def hex2_def swap_pairs_append)

lemma merkle_with_first_hexlify:
  assumes "\<And>bs. length (dsha bs) = 32" and "merkle_with_first (hash_pair dsha stack) steps (hexlify f) = Some r"
    and "length f = 32"
  shows "\<exists>bs. r = hexlify bs \<and> length bs = 32"
  using assms(2,3) unfolding merkle_with_first_def
proof (induction steps arbitrary: f)
  case (Cons a steps)
  then obtain bs where "fold_opt (\<lambda>s f. hash_pair dsha stack (f @ s)) steps (hexlify (dsha bs)) = Some r"
    by (auto simp: hash_pair_def split: option.splits)
  then show ?case using Cons.IH assms(1) by blast
qed auto

section \<open>The fields of a template\<close>

definition same_root :: "template \<Rightarrow> template \<Rightarrow> bool" where
  "same_root t t' \<longleftrightarrow> mr_hex t' = mr_hex t \<and> txsteps t' = txsteps t \<and> coinbase_of t' = coinbase_of t"

lemma place_auxs_root: "place_auxs m ks (s, t) = Some (b, s', t') \<Longrightarrow> same_root t t'"
  by (induction ks arbitrary: s t) (fastforce split: if_splits option.splits simp: Let_def same_root_def)+

lemma try_sizes_root: "try_sizes len sizes (s, t) = Some (s', t') \<Longrightarrow> same_root t t'"
  by (induction sizes arbitrary: s t)
     (fastforce split: if_splits option.splits prod.splits simp: Let_def same_root_def dest!: place_auxs_root)+

lemma build_auxs_root: "coind_aux_build_auxs s t = Some (s', t') \<Longrightarrow> same_root t t'"
  by (auto simp: coind_aux_build_auxs_def Let_def same_root_def split: if_splits dest!: try_sizes_root)

lemma coinbase_create_root: "coinbase_create cfg s k t ms = Some (d, t') \<Longrightarrow> same_root t t'"
  by (auto simp: coinbase_create_def Let_def same_root_def split: bind_splits prod.splits if_splits)

lemma template_texts_root: "template_texts cfg d t = Some t' \<Longrightarrow> same_root t t'"
  by (auto simp: template_texts_def same_root_def split: bind_splits if_splits)

lemma template_commitment_root: "template_commitment k ms t s = Some (t', s') \<Longrightarrow> same_root t t'"
  by (auto simp: template_commitment_def same_root_def split: bind_splits if_splits option.splits)

text \<open>Transactions without ids, as the daemons of equihash coins list them, never switch segwit on.\<close>

definition without_ids :: "json list \<Rightarrow> bool" where
  "without_ids txs \<longleftrightarrow> list_all (\<lambda>tx. case tx of J_object m \<Rightarrow> json_get_value m ''txid'' = None | _ \<Rightarrow> False) txs"

lemma template_tx_plain:
  assumes "template_tx cfg (i, J_object m) (hashes, ids, t) = Some (hashes', ids', t')" and "json_get_value m ''txid'' = None"
    and "\<not> has_segwit_txs t"
  shows "\<not> has_segwit_txs t' \<and> mr_hex t' = mr_hex t"
  using assms by (auto simp: template_tx_def text_or_empty_def json_get_string_def split: if_splits bind_splits)

lemma template_txs_plain:
  assumes "fold_opt (template_tx cfg) itxs (hashes, ids, t) = Some (hashes', ids', t')" and "without_ids (map snd itxs)"
    and "\<not> has_segwit_txs t"
  shows "\<not> has_segwit_txs t'"
  using assms
proof (induction itxs arbitrary: hashes ids t)
  case (Cons itx itxs)
  obtain i m where itx: "itx = (i, J_object m)" "json_get_value m ''txid'' = None" "without_ids (map snd itxs)"
    using Cons.prems(2) by (cases itx) (auto simp: without_ids_def split: json.splits)
  obtain h1 i1 t1 where st: "template_tx cfg itx (hashes, ids, t) = Some (h1, i1, t1)"
      "fold_opt (template_tx cfg) itxs (h1, i1, t1) = Some (hashes', ids', t')"
    using Cons.prems(1) by (auto split: option.splits)
  show ?case
    using Cons.IH [OF st(2) itx(3)] template_tx_plain [OF st(1) [unfolded itx(1)] itx(2)] Cons.prems(3) by blast
qed simp

text \<open>The coinbase of the daemon, with its true hash.\<close>

definition honest_coinbase :: "'s config \<Rightarrow> members \<Rightarrow> bool" where
  "honest_coinbase cfg ms \<longleftrightarrow>
     (case json_get_object ms ''coinbasetxn'' of
        Some (J_object c) \<Rightarrow>
          (case (json_get_string c ''hash'', json_get_string c ''data'') of
             (Some (Some p), Some (Some d)) \<Rightarrow> p = hexlify (rev (double_sha cfg (binlify d)))
           | _ \<Rightarrow> False)
      | _ \<Rightarrow> False)"

lemma coinbasetxn_root:
  assumes "template_coinbasetxn cfg ms hashes t = Some (Some t')" and "honest_coinbase cfg ms"
    and "\<And>bs. length (double_sha cfg bs) = 32"
  shows "\<exists>steps r d. merkle_steps (hash_pair (double_sha cfg) (stack64 cfg)) hashes = Some steps \<and>
    merkle_with_first (hash_pair (double_sha cfg) (stack64 cfg)) steps (hexlify (double_sha cfg (binlify d))) = Some (hexlify r) \<and>
    length r = 32 \<and> mr_hex t' = hexlify (rev r) \<and> coinbase_of t' = d \<and> has_segwit_txs t' = has_segwit_txs t"
proof -
  let ?h = "hash_pair (double_sha cfg) (stack64 cfg)"
  obtain c where c1: "json_get_object ms ''coinbasetxn'' = Some (J_object c)"
    using assms(2) by (simp add: honest_coinbase_def split: option.splits json.splits)
  obtain p d where c: "json_get_object ms ''coinbasetxn'' = Some (J_object c)" "json_get_string c ''hash'' = Some (Some p)"
      "json_get_string c ''data'' = Some (Some d)" "p = hexlify (rev (double_sha cfg (binlify d)))"
    using assms(2) c1 unfolding honest_coinbase_def by (simp split: option.splits)
  have rev_p: "reversed_in 256 p = Some (hexlify (double_sha cfg (binlify d)))"
    using reversed_hexlify [of "rev (double_sha cfg (binlify d))" 256] assms(3) by (simp add: c(4))
  obtain v steps mr where m: "merkle_steps ?h hashes = Some steps"
      "(if steps \<noteq> [] then map_option reverse_hex (merkle_with_first ?h steps (hexlify (double_sha cfg (binlify d)))) else Some p) = Some mr"
      "t' = t\<lparr>tvalue := v, coinbase_of := d, mr_hex := mr\<rparr>"
    using assms(1) c(1-3) rev_p
    by (auto simp: template_coinbasetxn_def text_of_def Let_def strcpy_in_def split: bind_splits if_splits)
  obtain r where r: "merkle_with_first ?h steps (hexlify (double_sha cfg (binlify d))) = Some (hexlify r)" "length r = 32"
      "mr = hexlify (rev r)"
  proof (cases "steps = []")
    case True
    then show thesis using that [of "double_sha cfg (binlify d)"] m(2) c(4) assms(3) by (simp add: merkle_with_first_def)
  next
    case False
    then obtain q where q: "merkle_with_first ?h steps (hexlify (double_sha cfg (binlify d))) = Some q" "mr = reverse_hex q"
      using m(2) by auto
    then obtain r where "q = hexlify r" "length r = 32"
      using merkle_with_first_hexlify [OF assms(3) q(1)] assms(3) by blast
    with q that show thesis by (simp add: reverse_hex_hexlify)
  qed
  then show ?thesis using m by auto
qed

lemma template_finish_root:
  assumes "template_finish cfg k ms txs t0 s = Some (Some t, s')" and "g_stratum_algo cfg = ''equihash''"
    and "honest_coinbase cfg ms" and "without_ids txs" and "\<And>bs. length (double_sha cfg bs) = 32"
  shows "\<exists>r d. merkle_with_first (hash_pair (double_sha cfg) (stack64 cfg)) (txsteps t)
      (hexlify (double_sha cfg (binlify d))) = Some (hexlify r) \<and>
    length r = 32 \<and> mr_hex t = hexlify (rev r) \<and> coinbase_of t = d"
proof -
  obtain hashes ids t1 t2 t3 t4 s4 t5 s5 t6 d6 where st:
      "template_txs cfg txs (t0\<lparr>has_segwit_txs := False, has_filtered_txs := False, filtered_txs_fee := 0\<rparr>) = Some (hashes, ids, t1)"
      "template_coinbasetxn cfg ms hashes t1 = Some (Some t2)" "template_steps cfg hashes ids t2 = Some t3"
      "template_commitment k ms t3 s = Some (t4, s4)" "template_texts cfg (coind_at s4 k) t4 = Some t5"
      "same_root t5 t6" "coinbase_create cfg s5 k t6 ms = Some (d6, t)"
    using assms(1,2) unfolding template_finish_def
    by (auto split: bind_splits prod.splits option.splits if_splits dest: build_auxs_root)
       (auto simp: same_root_def)
  have plain: "\<not> has_segwit_txs t1"
    using template_txs_plain [OF st(1) [unfolded template_txs_def]] assms(4)
    by (simp add: map_snd_enumerate)
  obtain steps r d where r: "merkle_steps (hash_pair (double_sha cfg) (stack64 cfg)) hashes = Some steps"
      "merkle_with_first (hash_pair (double_sha cfg) (stack64 cfg)) steps (hexlify (double_sha cfg (binlify d))) = Some (hexlify r)"
      "length r = 32" "mr_hex t2 = hexlify (rev r)" "coinbase_of t2 = d" "has_segwit_txs t2 = has_segwit_txs t1"
    using coinbasetxn_root [OF st(2) assms(3,5)] by blast
  have "txsteps t3 = steps" "mr_hex t3 = mr_hex t2" "coinbase_of t3 = coinbase_of t2"
    using st(3) r(1,6) plain by (auto simp: template_steps_def Let_def)
  moreover have "same_root t3 t"
    using template_commitment_root [OF st(4)] template_texts_root [OF st(5)] st(6) coinbase_create_root [OF st(7)]
    by (simp add: same_root_def)
  ultimately show ?thesis using r by (auto simp: same_root_def)
qed

section \<open>The header of a submitted block\<close>

lemma header_root:
  assumes "build_submit_values_equi cfg t nonce1 nonce2 ntime nonce sol = Some v" and "merkle_func cfg = None"
    and "\<And>bs. length (double_sha cfg bs) = 32"
  shows "merkle_with_first (hash_pair (double_sha cfg) (stack64 cfg)) (txsteps t)
    (hexlify (double_sha cfg (binlify (coinbase_of t)))) = Some (v_merkleroot_be v)"
proof -
  obtain h where h: "coinbase_hash cfg (coinbase_of t) = Some h"
      "merkle_with_first (hash_pair (double_sha cfg) (stack64 cfg)) (txsteps t) h = Some (v_merkleroot_be v)"
    using assms(1)
    by (auto simp: build_submit_values_equi_def merkleroot_def hash_header_def strcpy_in_def Let_def split: bind_splits if_splits)
  have "h = hexlify (double_sha cfg (binlify (coinbase_of t)))"
    using h(1) assms(2)
    by (auto simp: coinbase_hash_def strcpy_in_def Let_def buf_write_def split: bind_splits if_splits)
  with h(2) show ?thesis by simp
qed


section \<open>An example\<close>

definition example_coinbasetxn :: members where
  "example_coinbasetxn = [(''coinbasetxn'', J_object [(''coinbasevalue'', J_integer 5), (''data'', J_string ''''),
     (''hash'', J_string (replicate 64 CHR ''0''))])]"

definition example_base :: template where
  "example_base = zero_template\<lparr>tvalue := 5000000000, tversion := ''00000000'', ntime_of := ''00000000'',
     nbits := ''00000000'', prevhash_hex := replicate 64 CHR ''0'', extradata_be := replicate 64 CHR ''0''\<rparr>"

lemma coinbase_create_fields:
  "coinbase_create cfg s k t ms = Some (d, t') \<Longrightarrow> \<exists>a b. t' = t\<lparr>coinb1 := a, coinb2 := b\<rparr>"
  by (auto simp: coinbase_create_def Let_def split: bind_splits prod.splits if_splits)

lemma hexlify_zeros: "hexlify (replicate n 0) = replicate (2 * n) CHR ''0''"
  by (induction n) (simp_all add: hexlify_def hex2_def hexchar_def)

lemma reversed_zeros: "2 * n < m \<Longrightarrow> reversed_in m (replicate (2 * n) CHR ''0'') = Some (replicate (2 * n) CHR ''0'')"
  using reversed_hexlify [of "replicate n 0" m] by (simp add: hexlify_zeros)

lemma example_coinbase: "template_coinbasetxn example_config example_coinbasetxn [[]] t =
    Some (Some (t\<lparr>tvalue := 5, coinbase_of := [], mr_hex := replicate 64 CHR ''0''\<rparr>))"
  using reversed_zeros [of 32 256]
  by (simp add: template_coinbasetxn_def example_coinbasetxn_def json_get_object_def json_get_value_def json_get_int_def
      json_get_string_def text_of_def Let_def merkle_steps.simps strcpy_in_def)

lemma example_finish:
  "\<exists>t s'. template_finish example_config 0 example_coinbasetxn [] example_base paid_pool = Some (Some t, s') \<and>
     (\<exists>a b. t = example_base\<lparr>tvalue := 5, coinbase_of := [], mr_hex := replicate 64 CHR ''0'', txcount := 1,
       prevhash_be := replicate 64 CHR ''0'', auxs_size := 0, auxs := replicate MAX_AUXS None, coinb1 := a, coinb2 := b\<rparr>)"
proof -
  have ser: "ser_number 0 = ''0100''"
    using ser_number_script_num [of 0] by (simp add: script_num_small hexlify_def hex2_def hexchar_def)
  let ?t = "example_base\<lparr>tvalue := 5, coinbase_of := [], mr_hex := replicate 64 CHR ''0'', txcount := 1,
       prevhash_be := replicate 64 CHR ''0'', auxs_size := 0, auxs := replicate MAX_AUXS None\<rparr>"
  have "coinbase_create example_config paid_pool 0 ?t example_coinbasetxn \<noteq> None"
    by (simp add: coinbase_create_def coinbase_outputs_def coinbase_rest_def coinbase_founder_def coinbase_nodes_def
        coinbase_last_def job_pack_tx_def strcat_in_def strcpy_in_def json_get_bool_def json_get_object_def json_get_value_def
        paid_pool_def paid_coin_def empty_stratum_def zero_coind_def zero_template_def ser time_of_def Let_def
        COINB_def encode_tx_value_def length_hexlify hex_nat_byte hex2_def example_base_def example_coinbasetxn_def)
  then obtain d t where t: "coinbase_create example_config paid_pool 0 ?t example_coinbasetxn = Some (d, t)"
    by fastforce
  then obtain a b where "t = ?t\<lparr>coinb1 := a, coinb2 := b\<rparr>" using coinbase_create_fields by blast
  moreover have "template_finish example_config 0 example_coinbasetxn [] example_base paid_pool =
      Some (Some t, update_coind 0 (\<lambda>_. d) paid_pool)"
  proof -
    have alg: "g_stratum_algo example_config = ''equihash''" by (simp add: example_config_def)
    have coin: "coind_at paid_pool 0 = paid_coin" "symbol paid_coin = []" "\<not> pos paid_coin" "g_list_coind paid_pool = []"
      by (simp_all add: paid_pool_def paid_coin_def zero_coind_def empty_stratum_def)
    have base: "prevhash_hex example_base = replicate 64 CHR ''0''" "claim_be example_base = []" "txsteps example_base = []"
      "has_segwit_txs example_base = False" "has_filtered_txs example_base = False" "filtered_txs_fee example_base = 0"
      "txmerkles example_base = []"
      by (simp_all add: example_base_def zero_template_def)
    have start: "example_base\<lparr>has_segwit_txs := False, has_filtered_txs := False, filtered_txs_fee := 0\<rparr> = example_base"
      using base by simp
    have steps: "merkle_steps h [[]] = Some []" for h by (simp add: merkle_steps.simps)
    let ?u = "example_base\<lparr>tvalue := 5, coinbase_of := [], mr_hex := replicate 64 CHR ''0''\<rparr>"
    have s: "template_steps example_config [[]] [[]] ?u = Some (?u\<lparr>txcount := 1, txsteps := []\<rparr>)"
      using base by (simp add: template_steps_def steps)
    have c: "template_commitment 0 example_coinbasetxn (?u\<lparr>txcount := 1, txsteps := []\<rparr>) paid_pool =
        Some (?u\<lparr>txcount := 1, txsteps := []\<rparr>, paid_pool)"
      using base by (simp add: template_commitment_def)
    have x: "template_texts example_config paid_coin (?u\<lparr>txcount := 1, txsteps := []\<rparr>) =
        Some (?u\<lparr>txcount := 1, txsteps := [], txmerkles := [], prevhash_be := replicate 64 CHR ''0'', claim_be := []\<rparr>)"
      using base reversed_zeros [of 32 512] by (simp add: template_texts_def alg coin quoted_list_def strcpy_in_def)
    have "?u\<lparr>txcount := 1, txsteps := [], txmerkles := [], prevhash_be := replicate 64 CHR ''0'', claim_be := [],
        auxs_size := 0, auxs := replicate MAX_AUXS None\<rparr> = ?t"
      by (simp add: example_base_def zero_template_def)
    then have "coind_aux_build_auxs paid_pool (?u\<lparr>txcount := 1, txsteps := [], txmerkles := [],
        prevhash_be := replicate 64 CHR ''0'', claim_be := []\<rparr>) = Some (paid_pool, ?t)"
      by (simp only: coind_aux_build_auxs_def coin Let_def) simp
    then show ?thesis
      using t s c x
      by (simp add: template_finish_def template_txs_def start alg example_coinbase coin del: One_nat_def)
  qed
  ultimately show ?thesis by blast
qed


end
