(* ===== verification/Clients.thy ===== *)
theory Clients
  imports Job_Send
begin

text \<open>
  \<open>client.cpp\<close>, and the selection of an algorithm in \<open>client_core.cpp\<close>: the requests of a miner
  and the life of its connection. A handler returns whether the connection is kept. \<open>c\<close> is the
  client throughout; \<open>None\<close> is a write behind an array, or a JSON value of an unexpected type used
  as a pointer.
\<close>

section \<open>Several algorithms\<close>

definition YAAMP_MAXALGOS :: nat where
  "YAAMP_MAXALGOS = 32"

text \<open>
  The value of a subscribed algorithm, the best of them (the algorithms in their order, the
  subscriptions of each) and the subscription of the server's own.
\<close>

definition candidate_value :: "'s config \<Rightarrow> nat \<times> real \<Rightarrow> real" where
  "candidate_value cfg cand = rnd (fpu_of cfg) (a_profit (g_algos cfg ! fst cand) * snd cand)"

definition best_candidate :: "'s config \<Rightarrow> (nat \<times> real) list \<Rightarrow> nat option" where
  "best_candidate cfg l =
     fold (\<lambda>j best. case best of
            None \<Rightarrow> Some j
          | Some b \<Rightarrow> if candidate_value cfg (l ! b) < candidate_value cfg (l ! j) then Some j else Some b)
       (concat (map (\<lambda>i. filter (\<lambda>j. fst (l ! j) = i) [0..<length l]) [0..<length (g_algos cfg)])) None"

definition current_candidate :: "'s config \<Rightarrow> (nat \<times> real) list \<Rightarrow> nat option" where
  "current_candidate cfg l =
     List.find (\<lambda>j. a_name (g_algos cfg ! fst (l ! j)) = algo_name cfg) [0..<length l]"

text \<open>Once the 32 places are taken, the search for the end of the array leaves it.\<close>

definition client_reset_multialgo :: "'s config \<Rightarrow> nat \<Rightarrow> bool \<Rightarrow> stratum \<Rightarrow> (bool \<times> stratum) option" where
  "client_reset_multialgo cfg c initial s =
     (let l = algos_subscribed (client_at s c); r = rnd (fpu_of cfg);
          value = candidate_value cfg
      in if l = [] then Some (False, s)
         else if YAAMP_MAXALGOS \<le> length l then None
         else (case (best_candidate cfg l, current_candidate cfg l) of
                 (Some b, Some k) \<Rightarrow>
                   if b = k then Some (False, update_client c (\<lambda>cl. cl\<lparr>last_best := time_of s\<rparr>) s)
                   else (let e = time_of s - last_best (client_at s c);
                             d = r (value (l ! b) - value (l ! k));
                             p = r (r (d / a_profit (g_algos cfg ! fst (l ! b))) / snd (l ! b))
                         in if \<not> initial \<and> p < r (2 / 100) then Some (False, s)
                            else if \<not> initial \<and> r (of_int e * p) < 100 then Some (False, s)
                            else Some (True, s))
               | _ \<Rightarrow> Some (False, update_client c (\<lambda>cl. cl\<lparr>last_best := time_of s\<rparr>) s)))"

text \<open>The parts of the password between commas, each a name and perhaps a factor.\<close>

function comma_parts :: "string \<Rightarrow> string list" where
  "comma_parts p =
     (case dropWhile (\<lambda>ch. ch \<noteq> CHR '','') p of
        [] \<Rightarrow> [p]
      | _ # p1 \<Rightarrow> takeWhile (\<lambda>ch. ch \<noteq> CHR '','') p # comma_parts p1)"
  by pat_completeness auto
termination
proof (relation "measure length")
  fix p ch and p1 :: string
  assume "dropWhile (\<lambda>ch. ch \<noteq> CHR '','') p = ch # p1"
  then have "length (ch # p1) \<le> length p" by (metis length_dropWhile_le)
  then show "(p1, p) \<in> measure length" by simp
qed simp

declare comma_parts.simps [simp del]

definition subscribe_algo :: "nat \<Rightarrow> real \<Rightarrow> (nat \<times> real) list \<Rightarrow> (nat \<times> real) list" where
  "subscribe_algo i factor l =
     (if length l < YAAMP_MAXALGOS then l @ [(i, factor)] else l[YAAMP_MAXALGOS - 1 := (i, factor)])"

definition subscribe_part :: "'s config \<Rightarrow> string \<Rightarrow> (nat \<times> real) list \<Rightarrow> (nat \<times> real) list" where
  "subscribe_part cfg part l =
     (let name = takeWhile (\<lambda>ch. ch \<noteq> CHR ''='') part;
          value = (if name = part then 0 else atof cfg (drop (length name + 1) part))
      in fold (\<lambda>i l. if a_name (g_algos cfg ! i) = name
                     then subscribe_algo i (if value \<noteq> 0 then value else a_factor (g_algos cfg ! i)) l else l)
           [0..<length (g_algos cfg)] l)"

definition client_initialize_multialgo :: "'s config \<Rightarrow> nat \<Rightarrow> stratum \<Rightarrow> (bool \<times> stratum) option" where
  "client_initialize_multialgo cfg c s =
     (let pw = password (client_at s c)
      in if (case strstr pw ''p='' of Some (_, p) \<Rightarrow> algo_profit cfg < atof cfg p | None \<Rightarrow> False)
         then Some (True, s)
         else client_reset_multialgo cfg c True
                (update_client c (\<lambda>cl. cl\<lparr>algos_subscribed :=
                   fold (subscribe_part cfg) (comma_parts (take 1023 pw)) (algos_subscribed cl)\<rparr>) s))"

section \<open>Difficulty\<close>

text \<open>The double in a JSON value; zero where the parser left the value zeroed.\<close>

definition u_dbl :: "json \<Rightarrow> real option" where
  "u_dbl j = (case j of J_double d \<Rightarrow> Some d | _ \<Rightarrow> if u_integer j = Some 0 then Some 0 else None)"

definition client_suggest_difficulty :: "'s config \<Rightarrow> nat \<Rightarrow> json list \<Rightarrow> stratum \<Rightarrow> (bool \<times> stratum) option" where
  "client_suggest_difficulty cfg c ps s = do {
     s \<leftarrow> (case ps of
             [] \<Rightarrow> Some s
           | p # _ \<Rightarrow> do {
               d \<leftarrow> u_dbl p;
               let diff = normalized cfg d;
               Some (if allowed_target cfg diff then update_client c (\<lambda>cl. cl\<lparr>difficulty_actual := diff\<rparr>) s else s)
             });
     Some (True, send c (Result ''true'') s)
   }"

definition client_suggest_target :: "nat \<Rightarrow> stratum \<Rightarrow> bool \<times> stratum" where
  "client_suggest_target c s = (True, send c (Result ''true'') s)"

section \<open>Subscribing\<close>

definition YAAMP_EXTRANONCE2_SIZE :: int where
  "YAAMP_EXTRANONCE2_SIZE = 4"

definition next_key :: "'s config \<Rightarrow> stratum \<Rightarrow> string \<times> stratum" where
  "next_key cfg s =
     (let n = rand_calls s
      in (get_random_key (rand_at cfg n) (rand_at cfg (n + 1)) (rand_at cfg (n + 2)) (rand_at cfg (n + 3)),
          s\<lparr>rand_calls := n + 4\<rparr>))"

text \<open>What a new subscription starts with.\<close>

definition fresh_nonces :: "'s config \<Rightarrow> string \<Rightarrow> string \<Rightarrow> client \<Rightarrow> client" where
  "fresh_nonces cfg e key cl =
     (let dcr = (algo_name cfg = ''decred''); n = (if dcr then 12 else YAAMP_EXTRANONCE2_SIZE)
      in cl\<lparr>extranonce1_default := e, extranonce2size_default := n, difficulty_actual := g_stratum_difficulty cfg,
            extranonce1 := (if dcr then replicate 16 CHR ''0'' @ take 8 e else e), extranonce2size := n, notify_id := key\<rparr>)"

definition has_text :: "string \<Rightarrow> string \<Rightarrow> bool" where
  "has_text t search \<longleftrightarrow> strstr t search \<noteq> None"

definition set_version :: "string option \<Rightarrow> client \<Rightarrow> client" where
  "set_version p cl =
     (let cl = (case p of Some t \<Rightarrow> cl\<lparr>cl_version := take 1023 t\<rparr> | None \<Rightarrow> cl); v = cl_version cl;
          cl = (if has_text v ''NiceHash'' \<or> has_text v ''proxy'' \<or> has_text v ''/3.'' then cl\<lparr>reconnectable := False\<rparr> else cl)
      in if has_text v ''ccminer'' \<or> has_text v ''cpuminer-multi'' \<or> has_text v ''cpuminer-opt''
         then cl\<lparr>stats := True\<rparr> else cl)"

text \<open>
  A client that names the key of another one takes its place: one that was told to reconnect, or
  any other.
\<close>

definition take_over :: "client \<Rightarrow> string \<Rightarrow> client \<Rightarrow> client" where
  "take_over cl1 nid cl = cl\<lparr>notify_id := nid, jobid_locked := jobid_locked cl1, difficulty_actual := difficulty_actual cl1,
     extranonce2size_default := extranonce2size_default cl1, extranonce1_default := extranonce1_default cl1,
     extranonce2size := extranonce2size_reconnect cl1, extranonce1 := extranonce1_reconnect cl1,
     speed := speed cl1, extranonce1_id := extranonce1_id cl1, userid := userid cl1, workerid := workerid cl1,
     job_history := job_history cl1\<rparr>"

definition resume :: "client \<Rightarrow> string \<Rightarrow> client \<Rightarrow> client" where
  "resume cl1 nid cl = cl\<lparr>notify_id := nid, difficulty_actual := difficulty_actual cl1, speed := speed cl1,
     job_history := job_history cl1\<rparr>"

definition client_reconnects :: "nat \<Rightarrow> string \<Rightarrow> stratum \<Rightarrow> stratum" where
  "client_reconnects c nid s =
     (case client_find_notify_id nid True s of
        Some c1 \<Rightarrow> update_client c1 (\<lambda>cl. cl\<lparr>lock_count := 0\<rparr>) (update_client c (take_over (client_at s c1) nid) s)
      | None \<Rightarrow>
          (case client_find_notify_id nid False s of
             Some c1 \<Rightarrow> update_client c1 (\<lambda>cl. cl\<lparr>lock_count := 0\<rparr>) (update_client c (resume (client_at s c1) nid) s)
           | None \<Rightarrow> s))"

definition subscribe_reply :: "'s config \<Rightarrow> client \<Rightarrow> message" where
  "subscribe_reply cfg cl =
     (if algo_name cfg = ''equihash'' then Result (''[null,'' @ quoted (extranonce1 cl) @ '']'')
      else Subscribed (difficulty_actual cl) (notify_id cl) (extranonce1 cl) (extranonce2size cl))"

definition client_subscribe :: "'s config \<Rightarrow> nat \<Rightarrow> json list \<Rightarrow> stratum \<Rightarrow> (bool \<times> stratum) option" where
  "client_subscribe cfg c ps s = do {
     let (e, s) = get_next_extraonce1 s;
     let (key, s) = next_key cfg s;
     let s = update_client c (fresh_nonces cfg e key) s;
     s \<leftarrow> (if 0 < length ps
           then map_option (\<lambda>p. update_client c (set_version p) s) (u_string (ps ! 0)) else Some s);
     s \<leftarrow> (if 1 < length ps
           then map_option (\<lambda>p. client_reconnects c (case p of Some t \<Rightarrow> take 1023 t | None \<Rightarrow> []) s) (u_string (ps ! 1))
           else Some s);
     let s = update_client c (\<lambda>cl. cl\<lparr>extranonce1_last := extranonce1 cl, extranonce2size_last := extranonce2size cl\<rparr>) s;
     Some (True, send c (subscribe_reply cfg (client_at s c)) s)
   }"

section \<open>Addresses\<close>

definition coind_validate_user_address :: "'s config \<Rightarrow> nat \<Rightarrow> string \<Rightarrow> stratum \<Rightarrow> (bool \<times> stratum) option" where
  "coind_validate_user_address cfg k address s =
     (if address = [] then Some (False, s)
      else (let (answer, s) = rpc_call cfg k ''validateaddress'' [address] s
            in case (case answer of None \<Rightarrow> None | Some a \<Rightarrow> rpc_result a) of
                 None \<Rightarrow> Some (False, s)
               | Some r \<Rightarrow> do { ms \<leftarrow> u_object r; b \<leftarrow> json_get_bool ms ''isvalid''; Some (b, s) }))"

definition client_workers_count :: "nat \<Rightarrow> stratum \<Rightarrow> nat" where
  "client_workers_count c s =
     (if userid (client_at s c) \<le> 0 then 0
      else length (filter (\<lambda>d. \<not> deleted (client_at s d) \<and> userid (client_at s d) = userid (client_at s c)) (g_list_client s)))"

definition client_workers_byaddress :: "string \<Rightarrow> stratum \<Rightarrow> nat" where
  "client_workers_byaddress u s =
     (if u = [] then 0
      else length (filter (\<lambda>d. \<not> deleted (client_at s d) \<and> username (client_at s d) = u) (g_list_client s)))"

definition client_auth_by_workers :: "nat \<Rightarrow> stratum \<Rightarrow> bool \<times> stratum" where
  "client_auth_by_workers c s =
     (let cl = client_at s c
      in if userid cl < 0 then (False, s)
         else (let same = (\<lambda>d. \<not> deleted (client_at s d) \<and>
                     (if userid cl \<noteq> 0 then userid (client_at s d) = userid cl else username (client_at s d) = username cl));
                   cl = (case List.find same (g_list_client s) of
                           Some d \<Rightarrow> if userid cl \<noteq> 0 then cl\<lparr>coinid := coinid (client_at s d)\<rparr>
                                     else cl\<lparr>coinid := coinid (client_at s d), userid := userid (client_at s d)\<rparr>
                         | None \<Rightarrow> cl)
               in (0 < coinid cl \<and> 0 < userid cl, set_client c cl s)))"

definition other_algo :: "'s config \<Rightarrow> coind \<Rightarrow> bool" where
  "other_algo cfg k \<longleftrightarrow> algo_name cfg \<noteq> [] \<and> algo_name cfg \<noteq> algo_of k"

text \<open>The first coin whose daemon knows the address.\<close>

fun try_coins :: "'s config \<Rightarrow> nat \<Rightarrow> nat list \<Rightarrow> stratum \<Rightarrow> (bool \<times> stratum) option" where
  "try_coins cfg c [] s = Some (False, s)"
| "try_coins cfg c (k # ks) s =
     (if \<not> coind_can_mine s k False \<or> other_algo cfg (coind_at s k) then try_coins cfg c ks s
      else do {
        (valid, s) \<leftarrow> coind_validate_user_address cfg k (username (client_at s c)) s;
        if valid
        then Some (True, db_init_user_coinid c (update_client c (\<lambda>cl. cl\<lparr>coinid := obj_id (coind_at s k)\<rparr>) s))
        else try_coins cfg c ks s
      })"

text \<open>The coin a client already has.\<close>

definition validate_own_coin :: "'s config \<Rightarrow> nat \<Rightarrow> stratum \<Rightarrow> (bool \<times> stratum) option" where
  "validate_own_coin cfg c s =
     (case List.find (\<lambda>k. obj_id (coind_at s k) = coinid (client_at s c)) (g_list_coind s) of
        None \<Rightarrow> Some (False, s)
      | Some k \<Rightarrow>
          if other_algo cfg (coind_at s k)
          then Some (False, db_init_user_coinid c (update_client c (\<lambda>cl. cl\<lparr>coinid := 0\<rparr>) s))
          else do {
            (valid, s) \<leftarrow> coind_validate_user_address cfg k (username (client_at s c)) s;
            Some (valid, if valid then update_client c (\<lambda>cl. cl\<lparr>coinid := obj_id (coind_at s k)\<rparr>) s else s)
          })"

definition client_validate_user_address :: "'s config \<Rightarrow> nat \<Rightarrow> stratum \<Rightarrow> (bool \<times> stratum) option" where
  "client_validate_user_address cfg c s =
     (let cl = client_at s c;
          client_workers = (if userid cl = 0 then client_workers_byaddress (username cl) s else client_workers_count c s);
          (known, s) = (if 1 < client_workers then client_auth_by_workers c s else (False, s))
      in if known then Some (True, s)
         else if coinid (client_at s c) = 0
         then do {
           (valid, s) \<leftarrow> try_coins cfg c (g_list_coind s) s;
           Some (valid, s)
         }
         else validate_own_coin cfg c s)"

section \<open>Authorizing\<close>

definition MAX_ADDRESS_LEN :: nat where
  "MAX_ADDRESS_LEN = 35"

definition name_sep :: "char \<Rightarrow> bool" where
  "name_sep ch \<longleftrightarrow> ch \<in> set ''.,;:''"

text \<open>The user name, cut at the first separator, behind which is the name of the worker.\<close>

definition set_name :: "string \<Rightarrow> client \<Rightarrow> bool \<times> client" where
  "set_name p cl =
     (let u = db_check_user_input (take 1023 p); cl = cl\<lparr>username := u\<rparr>
      in if u = [] then (False, cl)
         else (case dropWhile (\<lambda>ch. \<not> name_sep ch) u of
                 [] \<Rightarrow> (length u \<le> MAX_ADDRESS_LEN, cl)
               | _ # w \<Rightarrow>
                   (let name = takeWhile (\<lambda>ch. \<not> name_sep ch) u
                    in (length name \<le> MAX_ADDRESS_LEN,
                        cl\<lparr>username := name, cl_worker := take (1023 - length u) w\<rparr>))))"

text \<open>\<open>iptables\<close> is called with the address, unless it is a local one.\<close>

definition client_block_ip :: "nat \<Rightarrow> stratum \<Rightarrow> stratum" where
  "client_block_ip c s =
     (let ip = sock_ip (client_at s c)
      in if ip = ''0.0.0.0'' \<or> has_text ip ''192.168.'' \<or> has_text ip ''127.0.0.'' then s
         else s\<lparr>blocked := blocked s @ [(''INPUT'', ip)]\<rparr>)"

definition client_block_ipset :: "nat \<Rightarrow> string \<Rightarrow> stratum \<Rightarrow> stratum" where
  "client_block_ipset c ipset_name s =
     (let ip = sock_ip (client_at s c)
      in if ip = ''0.0.0.0'' \<or> has_text ip ''192.168.'' \<or> has_text ip ''127.0.0.'' then s
         else s\<lparr>blocked := blocked s @ [(ipset_name, ip)]\<rparr>)"

text \<open>The account and the worker; \<open>False\<close> when the account is locked.\<close>

definition add_to_database :: "'s config \<Rightarrow> nat \<Rightarrow> stratum \<Rightarrow> bool \<times> stratum" where
  "add_to_database cfg c s =
     (if userid (client_at s c) = 0 \<or> workerid (client_at s c) = 0
      then (let s = db_add_user cfg c s
            in if userid (client_at s c) = -1 then (False, client_block_ip c s)
               else (True, db_add_worker cfg c s))
      else (True, s))"

text \<open>The end of a successful login.\<close>

definition client_welcome :: "'s config \<Rightarrow> nat \<Rightarrow> stratum \<Rightarrow> stratum option" where
  "client_welcome cfg c s = do {
     let s = send c (Result ''true'') s;
     s \<leftarrow> client_send_difficulty cfg c (difficulty_actual (client_at s c)) s;
     s \<leftarrow> (if jobid_locked (client_at s c) \<noteq> 0 then job_send_jobid cfg c (jobid_locked (client_at s c)) s
           else job_send_last cfg c s);
     Some (s\<lparr>g_list_client := g_list_client s @ [c]\<rparr>)
   }"

text \<open>Everything behind the name of the user.\<close>

definition authorize_user :: "'s config \<Rightarrow> nat \<Rightarrow> stratum \<Rightarrow> (bool \<times> stratum) option" where
  "authorize_user cfg c s =
     (if \<not> is_base58 (username (client_at s c)) then Some (False, s)
      else do {
        (reset, s) \<leftarrow> client_initialize_multialgo cfg c s;
        if reset then Some (False, s)
        else do {
          let s = client_initialize_difficulty cfg c s;
          let (b, s) = add_to_database cfg c s;
          if \<not> b then Some (False, s)
          else do {
            (valid, s) \<leftarrow> (if g_autoexchange cfg then Some (True, s) else client_validate_user_address cfg c s);
            if valid then map_option (Pair True) (client_welcome cfg c s)
            else Some (False, db_clear_worker c (send c (Result ''false'') s))
          }
        }
      })"

definition client_authorize :: "'s config \<Rightarrow> nat \<Rightarrow> json list \<Rightarrow> stratum \<Rightarrow> (bool \<times> stratum) option" where
  "client_authorize cfg c ps s =
     (if c \<in> set (g_list_client s) then Some (False, send c (Error 21 ''Already logged'') s)
      else do {
        pw \<leftarrow> (if 1 < length ps then u_string (ps ! 1) else Some None);
        let s = (case pw of Some t \<Rightarrow> update_client c (\<lambda>cl. cl\<lparr>password := take 1023 t\<rparr>) s | None \<Rightarrow> s);
        if g_stratum_max_cons cfg \<le> length (g_list_client s)
        then Some (False, send c (Error 21 ''Server full'') s)
        else do {
          name \<leftarrow> (if 0 < length ps then u_string (ps ! 0) else Some None);
          let (ok, cl) = (case name of Some t \<Rightarrow> set_name t (client_at s c) | None \<Rightarrow> (True, client_at s c));
          let s = set_client c cl s;
          if ok then authorize_user cfg c s else Some (False, s)
        }
      })"

section \<open>New blocks\<close>

definition create_other_jobs :: "'s config \<Rightarrow> stratum \<Rightarrow> stratum option" where
  "create_other_jobs cfg s =
     fold_opt (\<lambda>k s. if \<not> coind_can_mine s k False \<or> pos (coind_at s k) then Some s
                     else map_option snd (coind_create_job cfg k False s)) (g_list_coind s) s"

text \<open>The daemon reports a block on a connection of its own: password, coin and hash.\<close>

definition client_update_block :: "'s config \<Rightarrow> json list \<Rightarrow> stratum \<Rightarrow> stratum option" where
  "client_update_block cfg ps s =
     (if length ps < 3 then Some s
      else do {
        pw \<leftarrow> u_string (ps ! 0);
        if pw = None \<or> pw \<noteq> Some (g_tcp_password cfg) then Some s
        else do {
          i \<leftarrow> u_integer (ps ! 1);
          let coin = sint (of_int i :: u32);
          (case (if coin = 0 then None else List.find (\<lambda>k. obj_id (coind_at s k) = coin) (g_list_coind s)) of
             None \<Rightarrow> Some s
           | Some k \<Rightarrow> do {
               let s = update_coind k (\<lambda>d. d\<lparr>lock_count := lock_count d + 1\<rparr>) s;
               p \<leftarrow> u_string (ps ! 2);
               hash \<leftarrow> p;
               let s = update_coind k (\<lambda>d. d\<lparr>lastnotifyhash := take 160 hash, newblock := True, notreportingcounter := 0\<rparr>) s;
               (_, s) \<leftarrow> block_confirm cfg (obj_id (coind_at s k)) hash s;
               (_, s) \<leftarrow> coind_create_job cfg k False s;
               let s = update_coind k (\<lambda>d. d\<lparr>lock_count := lock_count d - 1\<rparr>) s;
               if isaux (coind_at s k) then create_other_jobs cfg s else Some s
             })
        }
      })"

section \<open>A connection\<close>

definition client_store_stats :: "'s config \<Rightarrow> (string \<Rightarrow> string) \<Rightarrow> nat \<Rightarrow> json \<Rightarrow> stratum \<Rightarrow> stratum" where
  "client_store_stats cfg escape c result s =
     (case result of
        J_object ms \<Rightarrow> (case json_text (json_get_value ms ''type'') of Some t \<Rightarrow> db_store_stats cfg escape c ms s | None \<Rightarrow> s)
      | _ \<Rightarrow> s)"

definition client_connect :: "nat \<Rightarrow> string \<Rightarrow> stratum \<Rightarrow> stratum" where
  "client_connect c ip s =
     set_client c (zero_client\<lparr>reconnectable := True, speed := 1, last_best := time_of s, sock_open := True, sock_ip := ip,
       shares_per_minute := YAAMP_SHAREPERSEC, last_submit_time := timestamp s\<rparr>) s"

text \<open>The method of a request.\<close>

definition client_method :: "'s config \<Rightarrow> nat \<Rightarrow> string \<Rightarrow> json list \<Rightarrow> stratum \<Rightarrow> (bool \<times> stratum) option" where
  "client_method cfg c m ps s =
     (if m = ''mining.subscribe'' then client_subscribe cfg c ps s
      else if m = ''mining.authorize'' then client_authorize cfg c ps s
      else if m = ''mining.ping'' then Some (True, send c (Result (quoted ''pong'')) s)
      else if m = ''mining.submit'' then mining_submit cfg c ps s
      else if m = ''mining.suggest_difficulty'' then client_suggest_difficulty cfg c ps s
      else if m = ''mining.suggest_target'' then Some (client_suggest_target c s)
      else if m = ''mining.get_transactions'' then Some (True, send c (Result ''[]'') s)
      else if m = ''mining.multi_version'' then Some (True, send c (Result ''false'') s)
      else if m = ''mining.extranonce.subscribe''
      then Some (True, send c (Result ''true'') (update_client c (\<lambda>cl. cl\<lparr>extranonce_subscribe := True\<rparr>) s))
      else if m = ''mining.update_block'' then map_option (Pair False) (client_update_block cfg ps s)
      else if m = ''getwork'' then Some (False, s)
      else Some (True, update_client c (\<lambda>cl. cl\<lparr>submit_bad := submit_bad cl + 1\<rparr>) (send c (Error 20 ''Not supported'') s)))"

text \<open>One turn of the loop of \<open>client_thread\<close>; no request is a connection that was closed.\<close>

definition client_turn :: "'s config \<Rightarrow> (string \<Rightarrow> string) \<Rightarrow> nat \<Rightarrow> members option \<Rightarrow> stratum \<Rightarrow> (bool \<times> stratum) option" where
  "client_turn cfg escape c request s =
     (if 1024 < submit_bad (client_at s c) then Some (False, s)
      else (case request of
              None \<Rightarrow> Some (False, s)
            | Some ms \<Rightarrow> do {
                i \<leftarrow> json_get_int ms ''id'';
                id_str \<leftarrow> json_get_string ms ''id'';
                if (case id_str of Some t \<Rightarrow> 32 < length t | None \<Rightarrow> False) then Some (False, s)
                else do {
                  m \<leftarrow> json_get_string ms ''method'';
                  (case m of
                     None \<Rightarrow>
                       if stats (client_at s c) \<and> sint (of_int i :: u32) = reqid (client_at s c)
                       then Some (True, case json_get_object ms ''result'' of
                                          Some r \<Rightarrow> client_store_stats cfg escape c r s | None \<Rightarrow> s)
                       else Some (False, s)
                   | Some m \<Rightarrow>
                       (case json_get_array ms ''params'' of
                          None \<Rightarrow> Some (False, s)
                        | Some p \<Rightarrow> do { ps \<leftarrow> u_array p; client_method cfg c m ps s }))
                }
              }))"

text \<open>The end of the thread: a client of the list is left to the pruning, another one is freed.\<close>

definition client_leave :: "nat \<Rightarrow> stratum \<Rightarrow> stratum" where
  "client_leave c s =
     (if c \<in> set (g_list_client s)
      then update_client c (\<lambda>cl. cl\<lparr>deleted := True\<rparr>)
             (if workerid (client_at s c) \<noteq> 0 \<and> \<not> reconnecting (client_at s c) then db_clear_worker c s else s)
      else set_client c zero_client s)"

end
