(* ===== verification/Protocol.thy ===== *)
theory Protocol
  imports Clients Submit_Correct
begin

text \<open>
  What the connections of the miners guarantee together: the list of clients, who is sent jobs, and
  the statements for the database.
\<close>

section \<open>Jobs sent and the list of clients\<close>

fun is_job :: "nat \<times> message \<Rightarrow> bool" where
  "is_job (c, Notify t) = True"
| "is_job (c, m) = False"

definition jobs_sent :: "stratum \<Rightarrow> (nat \<times> message) list" where
  "jobs_sent s = filter is_job (sent s)"

definition calm :: "stratum \<Rightarrow> stratum \<Rightarrow> bool" where
  "calm s s' \<longleftrightarrow> g_list_client s' = g_list_client s \<and> jobs_sent s' = jobs_sent s"

lemma calm_trans [trans]: "calm s t \<Longrightarrow> calm t u \<Longrightarrow> calm s u"
  by (simp add: calm_def)

declare calm_def [simp]

text \<open>Steps that do not matter.\<close>

lemma view_updates [simp]:
  "g_list_client (update_client c f s) = g_list_client s" "jobs_sent (update_client c f s) = jobs_sent s"
  "g_list_client (update_job j g s) = g_list_client s" "jobs_sent (update_job j g s) = jobs_sent s"
  "g_list_client (update_coind k h s) = g_list_client s" "jobs_sent (update_coind k h s) = jobs_sent s"
  "g_list_client (update_remote r u s) = g_list_client s" "jobs_sent (update_remote r u s) = jobs_sent s"
  "g_list_client (set_client c cl s) = g_list_client s" "jobs_sent (set_client c cl s) = jobs_sent s"
  "g_list_client (unlock_job job s) = g_list_client s" "jobs_sent (unlock_job job s) = jobs_sent s"
  "g_list_client (db_query fmt args s) = g_list_client s" "jobs_sent (db_query fmt args s) = jobs_sent s"
  "g_list_client (send c m s) = g_list_client s" "\<not> is_job (c, m) \<Longrightarrow> jobs_sent (send c m s) = jobs_sent s"
  by (simp_all add: jobs_sent_def state_simps update_coind_def update_remote_def set_client_def
      unlock_job_def db_query_def split: option.split)

lemma view_fields [simp]:
  "jobs_sent (s\<lparr>g_list_client := cs\<rparr>) = jobs_sent s" "jobs_sent (s\<lparr>queries := qs\<rparr>) = jobs_sent s"
  "jobs_sent (s\<lparr>g_list_job := v0\<rparr>) = jobs_sent s"
  "jobs_sent (s\<lparr>g_list_coind := v1\<rparr>) = jobs_sent s"
  "jobs_sent (s\<lparr>g_list_share := v2\<rparr>) = jobs_sent s"
  "jobs_sent (s\<lparr>g_list_worker := v3\<rparr>) = jobs_sent s"
  "jobs_sent (s\<lparr>g_list_block := v4\<rparr>) = jobs_sent s"
  "jobs_sent (s\<lparr>g_list_submit := v5\<rparr>) = jobs_sent s"
  "jobs_sent (s\<lparr>calls := v6\<rparr>) = jobs_sent s"
  "jobs_sent (s\<lparr>remote_sent := v7\<rparr>) = jobs_sent s"
  "jobs_sent (s\<lparr>g_shares_counter := v8\<rparr>) = jobs_sent s"
  "jobs_sent (s\<lparr>g_job_next_id := v9\<rparr>) = jobs_sent s"
  "jobs_sent (s\<lparr>algo_overflow := v10\<rparr>) = jobs_sent s"
  "jobs_sent (s\<lparr>g_last_broadcasted := v11\<rparr>) = jobs_sent s"
  "jobs_sent (s\<lparr>rand_calls := v12\<rparr>) = jobs_sent s"
  "jobs_sent (s\<lparr>g_extraonce1_counter := v13\<rparr>) = jobs_sent s"
  "jobs_sent (s\<lparr>blocked := v14\<rparr>) = jobs_sent s"
  "jobs_sent (s\<lparr>timestamp := v15\<rparr>) = jobs_sent s"
  by (simp_all add: jobs_sent_def)

section \<open>Submissions and templates are calm\<close>

lemma rpc_call_calm: "rpc_call cfg k m p s = (a, s') \<Longrightarrow> calm s s'"
  by (auto simp: rpc_call_def Let_def)

lemma block_add_calm: "block_add u w co ht d du h1 h2 sw s = Some s' \<Longrightarrow> calm s s'"
  by (auto simp: block_add_def split: bind_splits)

lemma block_confirm_calm: "block_confirm cfg co h s = Some (b, s') \<Longrightarrow> calm s s'"
  by (auto simp: block_confirm_def calm_def jobs_sent_def rpc_call_def Let_def
      split: bind_splits option.splits if_splits prod.splits)

lemma coind_submit_calm: "coind_submit cfg k text s = (b, s') \<Longrightarrow> calm s s'"
  by (auto simp: coind_submit_def coind_submitwork_def coind_submitblock_def coind_submitblocktemplate_def submit_by_def
      split: if_splits prod.splits option.splits dest!: rpc_call_calm simp: calm_def)

lemma coind_submitgetauxblock_calm: "coind_submitgetauxblock cfg k h text s = (b, s') \<Longrightarrow> calm s s'"
  by (auto simp: coind_submitgetauxblock_def split: if_splits prod.splits option.splits dest!: rpc_call_calm)

lemma submit_aux_calm: "submit_aux cfg c k t v hash_int aux s = Some s' \<Longrightarrow> calm s s'"
  unfolding submit_aux_def Let_def
  by (auto split: option.splits if_splits bind_splits prod.splits
      dest!: coind_submitgetauxblock_calm block_add_calm simp: calm_def)

lemma fold_opt_calm:
  assumes "\<And>x s s'. f x s = Some s' \<Longrightarrow> calm s s'" and "fold_opt f xs s = Some s'"
  shows "calm s s'"
  using assms(2) by (induction xs arbitrary: s) (auto split: option.splits dest!: assms(1))

lemma fold_calm:
  assumes "\<And>x s. calm s (f x s)"
  shows "calm s (fold f xs s)"
  using assms by (induction xs arbitrary: s) simp_all

lemma submit_auxs_calm: "submit_auxs cfg c k t v hash_int s = Some s' \<Longrightarrow> calm s s'"
  using fold_opt_calm [where f = "submit_aux cfg c k t v hash_int" and s = s and s' = s', OF submit_aux_calm]
  by (fastforce simp: submit_auxs_def split: bind_splits)

lemma submit_block_calm:
  assumes "submit_block cfg c j k v hash_int coin_target s = Some s'"
  shows "calm s s'"
  using assms unfolding submit_block_def Let_def
  apply (auto split: bind_splits prod.splits if_splits)
  apply (auto dest!: coind_submit_calm block_add_calm block_confirm_calm simp: calm_def)
  done

lemma client_do_submit_calm: "client_do_submit cfg c j k v s = Some s' \<Longrightarrow> calm s s'"
  unfolding client_do_submit_def Let_def
  by (auto split: bind_splits if_splits dest!: submit_auxs_calm submit_block_calm simp: calm_def)

lemma remote_submit_calm [unfolded calm_def, simp]: "calm s (remote_submit cfg c j v e2 nt no s)"
  by (simp add: remote_submit_def calm_def jobs_sent_def update_remote_def submit_add_def Let_def split: option.split)

lemma client_record_difficulty_calm [unfolded calm_def, simp]: "calm s (client_record_difficulty cfg c s)"
  by (simp add: client_record_difficulty_def Let_def)

lemma client_ask_stats_calm: "client_ask_stats c s = (b, s') \<Longrightarrow> calm s s'"
  by (auto simp: client_ask_stats_def split: if_splits)

lemma find_job_calm: "find_job i s = (job, t) \<Longrightarrow> calm s t"
  by (auto simp: find_job_def split: option.splits)

lemma share_add_calm: "share_add cfg c job valid e2 nt no d e s = Some s' \<Longrightarrow> calm s s'"
  by (auto simp: share_add_def share_add_worker_def Let_def calm_def jobs_sent_def state_simps
      split: bind_splits option.splits prod.splits if_splits)

lemma client_submit_error_calm:
  "client_submit_error cfg c job err msg e2 nt no s = Some s' \<Longrightarrow> calm s s'"
  unfolding client_submit_error_def
  by (auto split: bind_splits if_splits option.splits dest!: share_add_calm simp: calm_def)

lemma stats_asked_calm [unfolded calm_def, simp]:
  "calm s (case client_ask_stats c s of (b, s) \<Rightarrow> if b then s else update_client c f s)"
  by (auto split: prod.splits dest!: client_ask_stats_calm)

lemma accept_share_calm:
  assumes "accept_share cfg c j v d e2 nt no s = Some s'"
  shows "calm s s'"
proof -
  obtain t where t: "(case coind_of (job_at s j) of Some k \<Rightarrow> client_do_submit cfg c j k v s
           | None \<Rightarrow> Some (remote_submit cfg c j v e2 nt no s)) = Some t"
    using assms unfolding accept_share_def by (auto split: bind_splits)
  have "calm s t" using t by (auto split: option.splits dest: client_do_submit_calm)
  then have "calm s (update_client c (\<lambda>cl. cl\<lparr>submit_bad := 0, cl_shares := cl_shares cl + 1\<rparr>)
      (client_record_difficulty cfg c (send c (Result ''true'') t)))"
    by simp
  then show ?thesis
    using assms unfolding accept_share_def t Let_def Option.bind.simps
    by (auto split: bind_splits dest!: share_add_calm simp: calm_def)
qed

lemma bad_params_calm: "bad_params c s = (b, s') \<Longrightarrow> calm s s'"
  by (auto simp: bad_params_def)

lemma client_submit_equi_calm: "client_submit_equi cfg c ps s = Some (b, s') \<Longrightarrow> calm s s'"
  unfolding client_submit_equi_def Let_def
  by (auto split: bind_splits option.splits if_splits sum.splits prod.splits
      dest!: find_job_calm client_submit_error_calm accept_share_calm bad_params_calm)

lemma client_submit_calm: "client_submit cfg c ps s = Some (b, s') \<Longrightarrow> calm s s'"
  unfolding client_submit_def Let_def
  by (auto split: bind_splits option.splits if_splits sum.splits prod.splits
      dest!: find_job_calm client_submit_error_calm accept_share_calm bad_params_calm)

lemma mining_submit_calm: "mining_submit cfg c ps s = Some (b, s') \<Longrightarrow> calm s s'"
  unfolding mining_submit_def by (auto split: if_splits dest!: client_submit_equi_calm client_submit_calm)

section \<open>Templates and new jobs\<close>

lemma rpc_call_calm_snd [unfolded calm_def, simp]: "calm s (snd (rpc_call cfg k m p s))"
  by (metis prod.collapse rpc_call_calm)

lemma coind_error_calm [unfolded calm_def, simp]: "calm s (coind_error k s)"
  by (simp add: coind_error_def)

lemma coind_getauxblock_calm: "coind_getauxblock cfg k s = Some s' \<Longrightarrow> calm s s'"
  unfolding coind_getauxblock_def Let_def
  by (auto split: if_splits prod.splits option.splits bind_splits dest!: rpc_call_calm simp: calm_def)

lemma memorypool_calm: "coind_create_template_memorypool cfg k s = Some (t, s') \<Longrightarrow> calm s s'"
  unfolding coind_create_template_memorypool_def Let_def
  by (auto split: if_splits prod.splits option.splits bind_splits dest!: rpc_call_calm coind_getauxblock_calm
      simp: calm_def)

lemma getwork_retry_calm: "getwork_retry cfg k n s = Some (r, s') \<Longrightarrow> calm s s'"
  by (induction n arbitrary: s)
     (auto split: if_splits prod.splits option.splits json.splits bind_splits simp: Let_def dest!: rpc_call_calm simp: calm_def)

lemma worktemplate_calm: "decred_create_worktemplate cfg k s = Some (t, s') \<Longrightarrow> calm s s'"
  unfolding decred_create_worktemplate_def
  by (auto split: if_splits prod.splits option.splits bind_splits dest!: getwork_retry_calm)

lemma segwit_rules_calm: "segwit_rules cfg k ms s = Some s' \<Longrightarrow> calm s s'"
  unfolding segwit_rules_def Let_def by (auto split: if_splits option.splits bind_splits)

lemma template_claim_calm: "template_claim cfg k ms t s = Some (t', s') \<Longrightarrow> calm s s'"
  unfolding template_claim_def Let_def
  by (auto split: if_splits prod.splits option.splits json.splits list.splits bind_splits dest!: rpc_call_calm)

lemma template_fields_calm: "template_fields cfg k ms s = Some (t, s') \<Longrightarrow> calm s s'"
  unfolding template_fields_def
  by (auto split: prod.splits option.splits bind_splits dest!: template_claim_calm)

lemma template_commitment_calm: "template_commitment k ms t s = Some (t', s') \<Longrightarrow> calm s s'"
  unfolding template_commitment_def by (auto split: if_splits option.splits bind_splits)

lemma place_auxs_calm: "place_auxs m ks (s, t) = Some (b, s', t') \<Longrightarrow> calm s s'"
  by (induction ks arbitrary: s t)
     (auto split: if_splits option.splits simp: Let_def simp: calm_def)

lemma try_sizes_calm: "try_sizes len sizes (s, t) = Some (s', t') \<Longrightarrow> calm s s'"
  by (induction sizes arbitrary: s t)
     (auto split: if_splits option.splits prod.splits simp: Let_def dest!: place_auxs_calm simp: calm_def)

lemma build_auxs_calm: "coind_aux_build_auxs s t = Some (s', t') \<Longrightarrow> calm s s'"
  by (auto simp: coind_aux_build_auxs_def Let_def split: if_splits dest: try_sizes_calm)

lemma template_finish_calm: "template_finish cfg k ms txs t s = Some (t', s') \<Longrightarrow> calm s s'"
  unfolding template_finish_def
  by (auto split: prod.splits option.splits bind_splits if_splits dest!: template_commitment_calm build_auxs_calm
      simp: calm_def)

lemma create_template_calm: "coind_create_template cfg k s = Some (t, s') \<Longrightarrow> calm s s'"
  unfolding coind_create_template_def Let_def
  apply (auto split: prod.splits option.splits bind_splits if_splits dest!: memorypool_calm)
  apply (auto dest!: rpc_call_calm segwit_rules_calm template_fields_calm coind_getauxblock_calm template_finish_calm
      simp: calm_def)
  done

lemma new_job_calm [unfolded calm_def, simp]: "calm s (new_job cfg k t s)"
  by (simp add: new_job_def job_get_jobid_def Let_def calm_def jobs_sent_def state_simps update_coind_def split: option.split)

lemma create_job_calm: "coind_create_job cfg k force s = Some (b, s') \<Longrightarrow> calm s s'"
  unfolding coind_create_job_def Let_def
  by (auto split: prod.splits option.splits bind_splits if_splits dest!: worktemplate_calm create_template_calm
      simp: calm_def)

lemma update_block_calm:
  assumes "client_update_block cfg ps s = Some s'"
  shows "calm s s'"
proof -
  have others: "calm t t'" if "create_other_jobs cfg t = Some t'" for t t'
    using that unfolding create_other_jobs_def
    by (rule fold_opt_calm [rotated]) (auto split: if_splits dest!: create_job_calm)
  show ?thesis
    using assms unfolding client_update_block_def Let_def
    apply (auto split: prod.splits option.splits bind_splits if_splits)
    apply (auto dest!: block_confirm_calm create_job_calm others simp: calm_def)
    done
qed

section \<open>Assigning jobs\<close>

lemma calm_if: "(b \<Longrightarrow> calm s t) \<Longrightarrow> (\<not> b \<Longrightarrow> calm s u) \<Longrightarrow> calm s (if b then t else u)"
  by simp

lemma update_clients_calm [unfolded calm_def, simp]: "calm s (update_clients skip f s)"
  unfolding update_clients_def by (rule fold_calm) simp

lemma reset_unlock_calm [unfolded calm_def, simp]: "calm s (job_reset_clients job s)" "calm s (job_unlock_clients job s)"
  by (simp_all add: job_reset_clients_def job_unlock_clients_def)

lemma announce_calm [unfolded calm_def, simp]: "calm s (announce_extranonce c s)"
  by (auto simp: announce_extranonce_def Let_def)

lemma assign_remote_calm: "assign_remote cfg j r c s = (ret, s') \<Longrightarrow> calm s s'"
  by (auto simp: assign_remote_def Let_def split: if_splits option.splits)

lemma job_assign_client_calm: "job_assign_client cfg j maxhash c s = Some (b, s') \<Longrightarrow> calm s s'"
  unfolding job_assign_client_def Let_def
  by (auto split: if_splits option.splits prod.splits bind_splits dest!: assign_remote_calm
      simp: assign_local_def simp: calm_def)

lemma assign_pass_calm: "assign_pass cfg j maxhash skip cs s = Some s' \<Longrightarrow> calm s s'"
  by (induction cs arbitrary: s)
     (auto split: if_splits bind_splits prod.splits dest!: job_assign_client_calm simp: calm_def)

lemma job_assign_clients_calm: "job_assign_clients cfg job maxhash s = Some s' \<Longrightarrow> calm s s'"
  unfolding job_assign_clients_def Let_def
  by (auto split: option.splits bind_splits if_splits dest!: assign_pass_calm simp: calm_def)

lemma assign_left_pass_calm: "assign_left_pass cfg k j factor cs s = Some s' \<Longrightarrow> calm s s'"
  by (induction cs arbitrary: s factor)
     (auto simp: Let_def split: if_splits bind_splits prod.splits dest!: job_assign_client_calm simp: calm_def)

lemma assign_left_calm: "assign_left cfg factor ks s = Some s' \<Longrightarrow> calm s s'"
  by (induction ks arbitrary: s)
     (auto split: if_splits bind_splits option.splits dest!: assign_left_pass_calm simp: calm_def)

lemma assign_jobs_calm: "assign_jobs cfg js s = Some s' \<Longrightarrow> calm s s'"
  by (induction js arbitrary: s)
     (auto simp: Let_def split: if_splits bind_splits dest!: job_assign_clients_calm
      simp: calm_def)

lemma sorts_calm: "job_sort s = Some s' \<Longrightarrow> calm s s'" "coind_sort cfg s = Some s' \<Longrightarrow> calm s s'"
  by (auto simp: job_sort_def coind_sort_def)

lemma assign_first_coin_calm: "assign_first_coin cfg s = Some s' \<Longrightarrow> calm s s'"
  unfolding assign_first_coin_def Let_def
  by (auto split: if_splits list.splits bind_splits prod.splits dest!: create_job_calm job_assign_clients_calm)

section \<open>The other requests\<close>

lemma client_send_difficulty_calm: "client_send_difficulty cfg c d s = Some s' \<Longrightarrow> calm s s'"
  unfolding client_send_difficulty_def by (auto split: if_splits bind_splits)

lemma client_adjust_difficulty_calm: "client_adjust_difficulty cfg c s = Some s' \<Longrightarrow> calm s s'"
  unfolding client_adjust_difficulty_def client_change_difficulty_def Let_def
  by (auto split: if_splits dest!: client_send_difficulty_calm)

lemma suggest_difficulty_calm: "client_suggest_difficulty cfg c ps s = Some (b, s') \<Longrightarrow> calm s s'"
  unfolding client_suggest_difficulty_def Let_def by (auto split: list.splits bind_splits if_splits)

lemma client_reconnects_calm [unfolded calm_def, simp]: "calm s (client_reconnects c nid s)"
  by (simp add: client_reconnects_def split: option.split)

lemma subscribe_reply_no_job [simp]: "\<not> is_job (c, subscribe_reply cfg cl)"
  by (simp add: subscribe_reply_def)

lemma client_subscribe_calm: "client_subscribe cfg c ps s = Some (b, s') \<Longrightarrow> calm s s'"
  unfolding client_subscribe_def next_key_def get_next_extraonce1_def Let_def
  by (auto split: bind_splits if_splits)

lemma multialgo_calm: "client_initialize_multialgo cfg c s = Some (b, s') \<Longrightarrow> calm s s'"
  unfolding client_initialize_multialgo_def client_reset_multialgo_def Let_def
  by (auto split: if_splits option.splits prod.splits)

lemma initialize_difficulty_calm [unfolded calm_def, simp]: "calm s (client_initialize_difficulty cfg c s)"
  by (simp add: client_initialize_difficulty_def Let_def split: option.split prod.split)

lemma check_coin_symbol_calm: "db_check_coin_symbol cfg sy s = (t, s') \<Longrightarrow> calm s s'"
  by (auto simp: db_check_coin_symbol_def split: if_splits)

lemma write_account_calm [unfolded calm_def, simp]: "calm s (write_account c sy gift s)"
  by (simp add: write_account_def Let_def)

lemma db_add_account_calm [unfolded calm_def, simp]: "calm s (db_add_account cfg c sy gift s)"
  by (auto simp: db_add_account_def Let_def split: prod.split dest!: check_coin_symbol_calm)

lemma db_clear_worker_calm [unfolded calm_def, simp]: "calm s (db_clear_worker c s)"
  by (simp add: db_clear_worker_def)

lemma calm_let: "calm s a \<Longrightarrow> (\<And>t. calm s t \<Longrightarrow> calm s (f t)) \<Longrightarrow> calm s (let t = a in f t)"
  by (simp add: Let_def)

lemma calm_let_other: "(\<And>x. calm s (f x)) \<Longrightarrow> calm s (let x = a in f x)"
  by (simp add: Let_def)

lemma db_add_user_calm [unfolded calm_def, simp]: "calm s (db_add_user cfg c s)"
  unfolding db_add_user_def
  by (rule calm_let_other, rule calm_let_other, rule calm_let_other, rule calm_let) (simp_all split: list.split prod.split)

lemma db_add_worker_calm [unfolded calm_def, simp]: "calm s (db_add_worker cfg c s)"
  by (simp add: db_add_worker_def Let_def)

lemma db_init_calm [unfolded calm_def, simp]: "calm s (db_init_user_coinid c s)"
  by (simp add: db_init_user_coinid_def Let_def)

lemma db_store_stats_calm [unfolded calm_def, simp]: "calm s (db_store_stats cfg escape c ms s)"
  unfolding db_store_stats_def by (rule calm_let_other)+ simp

lemma db_update_workers_calm [unfolded calm_def, simp]: "calm s (db_update_workers cfg s)"
  unfolding db_update_workers_def by (rule fold_calm) (simp add: db_update_worker_def Let_def)

lemma add_to_database_calm: "add_to_database cfg c s = (b, s') \<Longrightarrow> calm s s'"
  by (auto simp: add_to_database_def client_block_ip_def Let_def split: if_splits)

lemma validate_coin_calm: "coind_validate_user_address cfg k a s = Some (b, s') \<Longrightarrow> calm s s'"
  unfolding coind_validate_user_address_def Let_def
  by (auto split: if_splits prod.splits option.splits bind_splits dest!: rpc_call_calm)

lemma try_coins_calm: "try_coins cfg c ks s = Some (b, s') \<Longrightarrow> calm s s'"
  by (induction ks arbitrary: s) (auto split: if_splits bind_splits prod.splits dest!: validate_coin_calm)

lemma validate_user_calm: "client_validate_user_address cfg c s = Some (b, s') \<Longrightarrow> calm s s'"
  unfolding client_validate_user_address_def validate_own_coin_def client_auth_by_workers_def Let_def
  by (auto split: if_splits prod.splits option.splits bind_splits dest!: try_coins_calm validate_coin_calm)

lemma client_store_stats_calm [unfolded calm_def, simp]: "calm s (client_store_stats cfg escape c r s)"
  by (simp add: client_store_stats_def split: json.split option.split)

section \<open>Logging in\<close>

text \<open>A login adds the client to the list, after it has been sent at most one job.\<close>

definition joins :: "nat \<Rightarrow> stratum \<Rightarrow> stratum \<Rightarrow> bool" where
  "joins c s s' \<longleftrightarrow>
     g_list_client s' = g_list_client s @ [c] \<and>
     (\<exists>l. jobs_sent s' = jobs_sent s @ l \<and> set l \<subseteq> {c} \<times> UNIV)"

lemma jobs_sent_notify [simp]: "jobs_sent (send c (Notify t) s) = jobs_sent s @ [(c, Notify t)]"
  by (simp add: jobs_sent_def state_simps)

lemma job_send_last_jobs:
  "job_send_last cfg c s = Some s' \<Longrightarrow>
   g_list_client s' = g_list_client s \<and> (\<exists>l. jobs_sent s' = jobs_sent s @ l \<and> set l \<subseteq> {c} \<times> UNIV)"
  unfolding job_send_last_def Let_def by (auto split: option.splits bind_splits)

lemma job_send_jobid_jobs:
  "job_send_jobid cfg c i s = Some s' \<Longrightarrow>
   g_list_client s' = g_list_client s \<and> (\<exists>l. jobs_sent s' = jobs_sent s @ l \<and> set l \<subseteq> {c} \<times> UNIV)"
  unfolding job_send_jobid_def Let_def
  by (auto split: prod.splits option.splits bind_splits dest!: find_job_calm job_send_last_jobs)

lemma client_welcome_joins:
  assumes "client_welcome cfg c s = Some s'"
  shows "joins c s s'"
  using assms unfolding client_welcome_def Let_def joins_def
  by (auto split: bind_splits if_splits dest!: client_send_difficulty_calm job_send_jobid_jobs job_send_last_jobs)

lemma authorize_user_cases:
  "authorize_user cfg c s = Some (b, s') \<Longrightarrow> joins c s s' \<or> calm s s'"
  unfolding authorize_user_def Let_def joins_def
  by (auto split: if_splits bind_splits prod.splits
      dest!: multialgo_calm add_to_database_calm validate_user_calm client_welcome_joins simp: joins_def)

lemma client_authorize_cases:
  assumes "client_authorize cfg c ps s = Some (b, s')"
  shows "c \<notin> set (g_list_client s) \<and> length (g_list_client s) < g_stratum_max_cons cfg \<and> joins c s s' \<or> calm s s'"
  using assms unfolding client_authorize_def Let_def joins_def
  by (auto split: if_splits bind_splits prod.splits option.splits dest!: authorize_user_cases simp: joins_def)

lemma client_turn_cases:
  assumes "client_turn cfg escape c request s = Some (b, s')"
  shows "c \<notin> set (g_list_client s) \<and> length (g_list_client s) < g_stratum_max_cons cfg \<and> joins c s s' \<or> calm s s'"
proof -
  have "c \<notin> set (g_list_client s) \<and> length (g_list_client s) < g_stratum_max_cons cfg \<and> joins c s s' \<or> calm s s'"
    if "client_method cfg c m ps s = Some (b, s')" for m ps
    using that client_authorize_cases [of cfg c ps s b s']
    unfolding client_method_def client_suggest_target_def
    by (auto split: if_splits dest!: client_subscribe_calm mining_submit_calm suggest_difficulty_calm update_block_calm)
  then show ?thesis
    using assms unfolding client_turn_def
    by (auto split: if_splits option.splits bind_splits)
qed

section \<open>Broadcasting\<close>

lemma adjust_difficulty_others:
  "client_adjust_difficulty cfg c s = Some s' \<Longrightarrow>
   job_at s' = job_at s \<and> (\<forall>d. d \<noteq> c \<longrightarrow> client_at s' d = client_at s d) \<and>
   jobid_sent (client_at s' c) = jobid_sent (client_at s c)"
  unfolding client_adjust_difficulty_def client_change_difficulty_def client_send_difficulty_def Let_def
  by (auto split: if_splits bind_splits simp: state_simps)

lemma broadcast_failed_simps [simp]:
  "job_at (broadcast_failed c s) = job_at s" "g_list_client (broadcast_failed c s) = g_list_client s"
  "jobs_sent (broadcast_failed c s) = jobs_sent s" "jobid_sent (client_at (broadcast_failed c s) d) = jobid_sent (client_at s d)"
  "d \<noteq> c \<Longrightarrow> client_at (broadcast_failed c s) d = client_at s d"
  by (simp_all add: broadcast_failed_def db_clear_worker_def db_query_def Let_def state_simps)

lemma broadcast_client_step:
  assumes "broadcast_client cfg j buffer c s = Some s'"
  shows "g_list_client s' = g_list_client s \<and> job_at s' = job_at s \<and>
    (\<forall>d. d \<noteq> c \<longrightarrow> client_at s' d = client_at s d) \<and> \<not> broadcast_wants (job_at s' j) (client_at s' c) \<and>
    jobs_sent s' = jobs_sent s @ (if broadcast_wants (job_at s j) (client_at s c) then [(c, Notify buffer)] else [])"
proof (cases "broadcast_wants (job_at s j) (client_at s c)")
  case True
  obtain t where t: "client_adjust_difficulty cfg c
        (update_client c (\<lambda>cl. client_add_job_history (obj_id (job_at s j)) (cl\<lparr>jobid_sent := obj_id (job_at s j)\<rparr>)) s) = Some t"
    and s': "s' = (if socket_ok cfg (sent (send c (Notify buffer) t)) then send c (Notify buffer) t
      else broadcast_failed c (send c (Notify buffer) t))"
    using assms True by (auto simp: broadcast_client_def Let_def split: bind_splits)
  have hist: "jobid_sent (client_add_job_history i cl) = jobid_sent cl" for i cl
    by (simp add: client_add_job_history_def)
  note oth = adjust_difficulty_others [OF t] and calm = client_adjust_difficulty_calm [OF t]
  have "jobid_sent (client_at t c) = obj_id (job_at s j)"
    using oth by (simp add: state_simps hist)
  then show ?thesis
    using True oth calm by (auto simp: s' state_simps broadcast_wants_def)
next
  case False
  then show ?thesis using assms by (simp add: broadcast_client_def)
qed

lemma broadcast_fold:
  assumes "fold_opt (broadcast_client cfg j buffer) cs s = Some s'" and "distinct cs"
  shows "g_list_client s' = g_list_client s \<and> job_at s' = job_at s \<and>
    (\<forall>d. d \<notin> set cs \<longrightarrow> client_at s' d = client_at s d) \<and>
    (\<forall>c\<in>set cs. \<not> broadcast_wants (job_at s' j) (client_at s' c)) \<and>
    jobs_sent s' = jobs_sent s @ map (\<lambda>c. (c, Notify buffer)) (filter (\<lambda>c. broadcast_wants (job_at s j) (client_at s c)) cs)"
  using assms
proof (induction cs arbitrary: s)
  case (Cons c cs)
  then obtain t where t: "broadcast_client cfg j buffer c s = Some t" "fold_opt (broadcast_client cfg j buffer) cs t = Some s'"
    by (auto split: option.splits)
  note step = broadcast_client_step [OF t(1)] and IH = Cons.IH [OF t(2)]
  have "filter (\<lambda>c. broadcast_wants (job_at t j) (client_at t c)) cs = filter (\<lambda>c. broadcast_wants (job_at s j) (client_at s c)) cs"
    using step Cons.prems(2) by (intro filter_cong) auto
  then show ?case using step IH Cons.prems(2) by auto
qed simp

text \<open>
  C33. A job that is broadcast goes to exactly the connected clients that have been assigned it and not yet
  been sent it: each gets one message, with the same text, in the order of the list, and after that
  no client is left that wants it.
\<close>

theorem broadcast_reaches_each_once:
  assumes "job_broadcast cfg j s = Some s'" and "distinct (g_list_client s)"
  shows "\<exists>text. job_mining_notify_buffer cfg (job_at s j) = Some text \<and>
    jobs_sent s' = jobs_sent s @
      map (\<lambda>c. (c, Notify text)) (filter (\<lambda>c. broadcast_wants (job_at s j) (client_at s c)) (g_list_client s)) \<and>
    filter (\<lambda>c. broadcast_wants (job_at s' j) (client_at s' c)) (g_list_client s') = []"
proof -
  obtain tx t where t: "job_mining_notify_buffer cfg (job_at s j) = Some tx"
      "fold_opt (broadcast_client cfg j tx) (g_list_client s) s = Some t" "s' = t\<lparr>g_last_broadcasted := time_of t\<rparr>"
    using assms(1) by (auto simp: job_broadcast_def split: bind_splits)
  show ?thesis using broadcast_fold [OF t(2) assms(2)] t(1,3) by (auto simp: filter_empty_conv)
qed

section \<open>Runs of the server\<close>

text \<open>\<open>object_prune\<close> on the list of clients (see \<open>object_prune_holds\<close>); a freed client is zeroed here.\<close>

definition client_prune :: "stratum \<Rightarrow> stratum" where
  "client_prune s =
     (let dead = (\<lambda>c. deleted (client_at s c) \<and> lock_count (client_at s c) = 0)
      in s\<lparr>g_list_client := filter (\<lambda>c. \<not> dead c) (g_list_client s),
           client_at := (\<lambda>c. let cl = client_at s c
             in if c \<notin> set (g_list_client s) then cl
                else if dead c then zero_client
                else if lock_count cl \<noteq> 0 \<and> unlock cl then cl\<lparr>lock_count := lock_count cl - 1\<rparr> else cl)\<rparr>)"

text \<open>
  The threads of the connections, and the server. A connection starts with a client at an address
  that is not in use; each request is one step, and so are the passes of the other threads.
\<close>

inductive server_step ::
    "'s config \<Rightarrow> (string \<Rightarrow> string) \<Rightarrow> nat set \<times> stratum \<Rightarrow> nat set \<times> stratum \<Rightarrow> bool" for cfg escape where
  Connect: "c \<notin> live \<Longrightarrow> c \<notin> set (g_list_client s) \<Longrightarrow>
    server_step cfg escape (live, s) (insert c live, client_connect c ip s)"
| Request: "c \<in> live \<Longrightarrow> client_turn cfg escape c request s = Some (True, s') \<Longrightarrow>
    server_step cfg escape (live, s) (live, s')"
| Hangup: "c \<in> live \<Longrightarrow> client_turn cfg escape c request s = Some (False, s') \<Longrightarrow>
    server_step cfg escape (live, s) (live - {c}, client_leave c s')"
| Jobs: "job_update cfg s = Some s' \<Longrightarrow> server_step cfg escape (live, s) (live, s')"
| Workers: "server_step cfg escape (live, s) (live, db_update_workers cfg s)"
| Prune: "server_step cfg escape (live, s) (live, client_prune s)"
| Tick: "0 \<le> ms \<Longrightarrow> server_step cfg escape (live, s) (live, s\<lparr>timestamp := timestamp s + ms\<rparr>)"

text \<open>The jobs of a pass go to clients of the list.\<close>

definition serves :: "stratum \<Rightarrow> stratum \<Rightarrow> bool" where
  "serves s s' \<longleftrightarrow>
     g_list_client s' = g_list_client s \<and>
     (\<exists>l. jobs_sent s' = jobs_sent s @ l \<and> set l \<subseteq> set (g_list_client s) \<times> UNIV)"

lemma calm_serves: "calm s s' \<Longrightarrow> serves s s'"
  by (simp add: serves_def)

lemma serves_trans: "serves s t \<Longrightarrow> serves t u \<Longrightarrow> serves s u"
  by (auto simp: serves_def)

lemma fold_opt_serves:
  assumes "\<And>x s s'. P x s \<Longrightarrow> f x s = Some s' \<Longrightarrow> serves s s'" and "\<And>x s t. serves s t \<Longrightarrow> P x s \<Longrightarrow> P x t"
    and "fold_opt f xs s = Some s'" and "\<forall>x\<in>set xs. P x s"
  shows "serves s s'"
  using assms(3,4)
proof (induction xs arbitrary: s)
  case (Cons x xs)
  then obtain t where t: "f x s = Some t" "fold_opt f xs t = Some s'" by (auto split: option.splits)
  have st: "serves s t" by (rule assms(1) [OF _ t(1)]) (use Cons.prems(2) in simp)
  have "serves t s'" by (rule Cons.IH [OF t(2)]) (use assms(2) [OF st] Cons.prems(2) in simp)
  with st show ?case by (rule serves_trans)
qed (simp add: serves_def)

lemma broadcast_client_serves:
  "c \<in> set (g_list_client s) \<Longrightarrow> broadcast_client cfg j text c s = Some s' \<Longrightarrow> serves s s'"
  by (auto simp: serves_def dest!: broadcast_client_step split: if_splits)

lemma job_broadcast_serves: "job_broadcast cfg j s = Some s' \<Longrightarrow> serves s s'"
proof -
  assume "job_broadcast cfg j s = Some s'"
  then obtain tx t where t: "fold_opt (broadcast_client cfg j tx) (g_list_client s) s = Some t"
      "s' = t\<lparr>g_last_broadcasted := time_of t\<rparr>"
    by (auto simp: job_broadcast_def split: bind_splits)
  have "serves s t"
    by (rule fold_opt_serves [where P = "\<lambda>c s. c \<in> set (g_list_client s)", OF broadcast_client_serves _ t(1)])
       (auto simp: serves_def)
  then show ?thesis using t(2) by (simp add: serves_def)
qed

lemma job_update_serves:
  assumes "job_update cfg s = Some s'"
  shows "serves s s'"
proof -
  obtain t where t: "calm s t" "broadcast_jobs cfg t = Some s'"
    using assms unfolding job_update_def job_assign_clients_left_def
    by (auto split: bind_splits dest!: sorts_calm assign_jobs_calm assign_left_calm assign_first_coin_calm)
  have "serves t s'"
    by (rule fold_opt_serves [where P = "\<lambda>_ _. True", OF _ _ t(2) [unfolded broadcast_jobs_def]])
       (auto split: if_splits dest!: job_broadcast_serves simp: serves_def)
  then show ?thesis using calm_serves [OF t(1)] serves_trans by blast
qed

lemma client_ends_calm [unfolded calm_def, simp]: "calm s (client_connect c ip s)" "calm s (client_leave c s)"
  by (simp_all add: client_connect_def client_leave_def)

lemma client_prune_view [simp]:
  "g_list_client (client_prune s) = filter (\<lambda>c. \<not> (deleted (client_at s c) \<and> lock_count (client_at s c) = 0)) (g_list_client s)"
  "jobs_sent (client_prune s) = jobs_sent s"
  by (simp_all add: client_prune_def Let_def jobs_sent_def)

text \<open>
  C35. In no step of the server is a job sent to a connection that has not logged in: whoever gets a
  \<open>mining.notify\<close> is in the list of clients at the end of the step.
\<close>

theorem jobs_only_to_members:
  assumes "server_step cfg escape (live, s) (live', s')"
  shows "\<exists>l. jobs_sent s' = jobs_sent s @ l \<and> set l \<subseteq> set (g_list_client s') \<times> UNIV"
  using assms
proof cases
  case (Request c request)
  show ?thesis using client_turn_cases [OF Request(3)] by (force simp: joins_def)
next
  case (Hangup c request t)
  show ?thesis using client_turn_cases [OF Hangup(4)] Hangup(2) by (force simp: joins_def)
next
  case Jobs
  show ?thesis using job_update_serves [OF Jobs(2)] by (auto simp: serves_def)
qed auto

lemma server_step_list:
  assumes "server_step cfg escape (live, s) (live', s')"
    and "distinct (g_list_client s)" and "length (g_list_client s) \<le> g_stratum_max_cons cfg"
  shows "distinct (g_list_client s') \<and> length (g_list_client s') \<le> g_stratum_max_cons cfg"
  using assms(1)
proof cases
  case (Request c request)
  show ?thesis using client_turn_cases [OF Request(3)] assms(2,3) by (auto simp: joins_def)
next
  case (Hangup c request t)
  show ?thesis using client_turn_cases [OF Hangup(4)] Hangup(2) assms(2,3) by (auto simp: joins_def)
next
  case Jobs
  show ?thesis using job_update_serves [OF Jobs(2)] assms(2,3) by (auto simp: serves_def)
next
  case Prune
  show ?thesis using assms(2) le_trans [OF length_filter_le assms(3)] by (simp add: Prune)
qed (use assms(2,3) in auto)


section \<open>An example\<close>

definition example_job :: job where
  "example_job = zero_job\<lparr>obj_id := 7\<rparr>"

text \<open>Two clients with job 7; the second has it already.\<close>

definition waiting_room :: stratum where
  "waiting_room = empty_stratum\<lparr>g_list_client := [3, 5], job_at := (\<lambda>_. example_job),
     client_at := (\<lambda>c. zero_client\<lparr>sock_open := True, jobid_next := 7, jobid_sent := (if c = 5 then 7 else 0),
       difficulty_fixed := True\<rparr>)\<rparr>"

lemma length_hex_x: "length (hex_x i) \<le> 8"
  using length_dropWhile_le [of "\<lambda>ch. ch = CHR ''0''" "hex8 (of_int i)"] by (simp add: hex_x_def Let_def hex8_def)

theorem broadcast_reaches_each_once_witness:
  "\<exists>s' tx. job_broadcast (example_config\<lparr>g_stratum_algo := ''x11''\<rparr>) 1 waiting_room = Some s' \<and>
     jobs_sent s' = [(3, Notify tx)]"
proof -
  have "\<exists>s'. job_broadcast (example_config\<lparr>g_stratum_algo := ''x11''\<rparr>) 1 waiting_room = Some s'"
    using length_hex_x [of 7]
    by (simp add: job_broadcast_def job_mining_notify_buffer_def waiting_room_def example_job_def example_config_def
        zero_job_def zero_template_def empty_stratum_def zero_client_def notify_line_def quoted_def strcpy_in_def YAAMP_SMALLBUFSIZE_def broadcast_client_def
        broadcast_wants_def client_adjust_difficulty_def client_add_job_history_def Let_def update_client_def send_def)
  then obtain s' where s': "job_broadcast (example_config\<lparr>g_stratum_algo := ''x11''\<rparr>) 1 waiting_room = Some s'" by blast
  have "filter (\<lambda>c. broadcast_wants (job_at waiting_room 1) (client_at waiting_room c)) (g_list_client waiting_room) = [3]"
    by (simp add: waiting_room_def broadcast_wants_def example_job_def zero_job_def zero_client_def)
  moreover have "jobs_sent waiting_room = []" by (simp add: jobs_sent_def waiting_room_def empty_stratum_def)
  moreover have "distinct (g_list_client waiting_room)" by (simp add: waiting_room_def)
  ultimately show ?thesis using broadcast_reaches_each_once [OF s'] s' by fastforce
qed

text \<open>A login whose name and password try to leave their quotes.\<close>

definition x11_config :: "nat config" where
  "x11_config = example_config\<lparr>algo_name := ''x11'', g_stratum_algo := ''x11''\<rparr>"

definition hostile_login :: "json list" where
  "hostile_login = [J_string (''1Abc'' @ [CHR 0x27] @ '' OR 1''), J_string (''x'' @ [CHR 0x27, CHR '';''])]"

lemma hostile_login_accepted:
  "\<exists>s'. client_authorize x11_config 0 hostile_login (client_connect 0 ''10.0.0.1'' empty_stratum) = Some (True, s') \<and>
     g_list_client s' = [0] \<and> length (queries s') = 1"
  by (simp add: client_authorize_def hostile_login_def x11_config_def example_config_def set_name_def Let_def
      db_check_user_input_def hurts_def client_connect_def empty_stratum_def name_sep_def MAX_ADDRESS_LEN_def
      authorize_user_def is_base58_def client_initialize_multialgo_def client_reset_multialgo_def comma_parts.simps
      subscribe_part_def client_initialize_difficulty_def add_to_database_def db_add_user_def clean_texts_def
      db_clean_string_def cut_at_def clean_char_def password_symbol_def MIN_ADDRESS_LEN_def guest_name_def
      zero_client_def set_client_def update_client_def db_add_worker_def db_clear_worker_def db_query_def check_texts_def
      client_welcome_def client_send_difficulty_def send_def job_send_last_def job_get_last_def)

text \<open>The same as a run: a connection is made, and its first request logs it in.\<close>

lemma hostile_run:
  "\<exists>s'. server_step x11_config id ({0}, client_connect 0 ''10.0.0.1'' empty_stratum) ({0}, s') \<and> g_list_client s' = [0] \<and>
     server_step x11_config id ({}, empty_stratum) ({0}, client_connect 0 ''10.0.0.1'' empty_stratum)"
proof -
  obtain s' where s': "client_authorize x11_config 0 hostile_login (client_connect 0 ''10.0.0.1'' empty_stratum) = Some (True, s')"
      "g_list_client s' = [0]"
    using hostile_login_accepted by blast
  have "client_turn x11_config id 0 (Some [(''method'', J_string ''mining.authorize''), (''params'', J_array hostile_login)])
      (client_connect 0 ''10.0.0.1'' empty_stratum) = Some (True, s')"
    using s'(1) by (simp add: client_turn_def client_method_def json_get_int_def json_get_string_def json_get_array_def
        json_get_value_def client_connect_def set_client_def update_client_def zero_client_def)
  then have "server_step x11_config id ({0}, client_connect 0 ''10.0.0.1'' empty_stratum) ({0}, s')"
    by (rule server_step.Request [rotated]) simp
  moreover have "server_step x11_config id ({}, empty_stratum) (insert 0 {}, client_connect 0 ''10.0.0.1'' empty_stratum)"
    by (rule server_step.Connect) (simp_all add: empty_stratum_def)
  ultimately show ?thesis using s'(2) by blast
qed

theorem jobs_only_to_members_witness:
  "\<exists>s' l. g_list_client s' = [0] \<and>
     jobs_sent s' = jobs_sent (client_connect 0 ''10.0.0.1'' empty_stratum) @ l \<and> set l \<subseteq> {0} \<times> UNIV"
proof -
  obtain s' where s': "server_step x11_config id ({0}, client_connect 0 ''10.0.0.1'' empty_stratum) ({0}, s')"
      "g_list_client s' = [0]"
    using hostile_run by blast
  then show ?thesis using jobs_only_to_members [OF s'(1)] by auto
qed


end
