(* ===== verification/Login_Sql.thy ===== *)
theory Login_Sql
  imports Protocol
begin

text \<open>
  What a miner can put into the statements for the database: a login writes texts without blanks,
  quotes and backslashes only, while a text of the benchmarks may end in a backslash.
\<close>

section \<open>Texts in statements\<close>

definition safe_text :: "string \<Rightarrow> bool" where
  "safe_text t \<longleftrightarrow> list_all (\<lambda>ch. \<not> hurts ch) t"

definition safe_query :: "string \<times> sql list \<Rightarrow> bool" where
  "safe_query q \<longleftrightarrow> list_all (\<lambda>a. case a of Txt t \<Rightarrow> safe_text t | _ \<Rightarrow> True) (snd q)"

text \<open>All statements so far are safe, and so are the texts that do not come from the miner.\<close>

definition sql_ok :: "'s config \<Rightarrow> nat \<Rightarrow> stratum \<Rightarrow> bool" where
  "sql_ok cfg c s \<longleftrightarrow>
     (\<forall>q \<in> set (queries s). safe_query q) \<and> safe_text (g_stratum_algo cfg) \<and>
     safe_text (sock_ip (client_at s c)) \<and> (\<forall>k. safe_text (wallet (coind_at s k)))"

lemma safe_text_simps [simp]:
  "safe_text []" "safe_text (ch # t) \<longleftrightarrow> \<not> hurts ch \<and> safe_text t" "safe_text (t @ u) \<longleftrightarrow> safe_text t \<and> safe_text u"
  by (simp_all add: safe_text_def)

lemma safe_take [simp]: "safe_text t \<Longrightarrow> safe_text (take n t)"
  by (auto simp: safe_text_def list_all_iff dest: in_set_takeD)

lemma safe_cut [simp]: "safe_text (db_check_user_input t)"
  by (auto simp: safe_text_def db_check_user_input_def list_all_iff dest: set_takeWhileD)

lemma safe_query_simps [simp]:
  "safe_query (fmt, [])" "safe_query (fmt, Txt t # as) \<longleftrightarrow> safe_text t \<and> safe_query (fmt, as)"
  "safe_query (fmt, Num i # as) \<longleftrightarrow> safe_query (fmt, as)" "safe_query (fmt, Dbl d # as) \<longleftrightarrow> safe_query (fmt, as)"
  by (simp_all add: safe_query_def)

lemma sql_ok_client [simp]:
  "(\<And>cl. sock_ip (f cl) = sock_ip cl) \<Longrightarrow> sql_ok cfg c (update_client d f s) \<longleftrightarrow> sql_ok cfg c s"
  by (simp add: sql_ok_def state_simps)

lemma sql_ok_set [simp]:
  "sock_ip cl = sock_ip (client_at s d) \<Longrightarrow> sql_ok cfg c (set_client d cl s) \<longleftrightarrow> sql_ok cfg c s"
  by (simp add: sql_ok_def set_client_def state_simps)

lemma sql_ok_other [simp]:
  "sql_ok cfg c (update_job j g s) \<longleftrightarrow> sql_ok cfg c s" "sql_ok cfg c (send d m s) \<longleftrightarrow> sql_ok cfg c s"
  "sql_ok cfg c (s\<lparr>calls := l\<rparr>) \<longleftrightarrow> sql_ok cfg c s" "sql_ok cfg c (s\<lparr>blocked := b\<rparr>) \<longleftrightarrow> sql_ok cfg c s"
  "sql_ok cfg c (s\<lparr>g_list_client := cs\<rparr>) \<longleftrightarrow> sql_ok cfg c s"
  by (simp_all add: sql_ok_def state_simps)

lemma sql_ok_query [simp]: "sql_ok cfg c (db_query fmt args s) \<longleftrightarrow> safe_query (fmt, args) \<and> sql_ok cfg c s"
  by (auto simp: sql_ok_def db_query_def)

lemma sql_okD: "sql_ok cfg c s \<Longrightarrow> safe_text (sock_ip (client_at s c))" "sql_ok cfg c s \<Longrightarrow> safe_text (g_stratum_algo cfg)"
  "sql_ok cfg c s \<Longrightarrow> safe_text (wallet (coind_at s k))"
  by (simp_all add: sql_ok_def)

section \<open>Accounts and workers\<close>

lemma client_at_simps [simp]:
  "client_at (db_query fmt args s) = client_at s" "client_at (set_client c cl s) c = cl"
  "client_at (update_client c f s) c = f (client_at s c)" "g_list_coind (set_client c cl s) = g_list_coind s"
  "coind_at (set_client c cl s) = coind_at s" "coind_at (db_query fmt args s) = coind_at s"
  "coind_at (update_client c f s) = coind_at s"
  by (simp_all add: db_query_def set_client_def state_simps)

lemma texts_simps [simp]:
  "sock_ip (choose_coin s sy cl) = sock_ip cl" "username (choose_coin s sy cl) = username cl"
  "sock_ip (clean_texts cl) = sock_ip cl" "sock_ip (check_texts cl) = sock_ip cl"
  by (simp_all add: choose_coin_def clean_texts_def check_texts_def split: option.split)

lemma check_coin_symbol_ok:
  "db_check_coin_symbol cfg sy s = (t, s') \<Longrightarrow> sql_ok cfg c s \<Longrightarrow> safe_text sy \<Longrightarrow>
   sql_ok cfg c s' \<and> safe_text t \<and> client_at s' = client_at s"
  by (auto simp: db_check_coin_symbol_def sql_okD split: if_splits)

lemma write_account_ok:
  "sql_ok cfg c s \<Longrightarrow> safe_text sy \<Longrightarrow> safe_text (username (client_at s c)) \<Longrightarrow> sql_ok cfg c (write_account c sy gift s)"
  by (simp add: write_account_def Let_def sql_okD)

lemma db_add_account_ok:
  "sql_ok cfg c s \<Longrightarrow> safe_text (username (client_at s c)) \<Longrightarrow> sql_ok cfg c (db_add_account cfg c sy gift s)"
  by (auto simp: db_add_account_def Let_def split: prod.split dest!: check_coin_symbol_ok [where c = c] intro: write_account_ok)

lemma become_guest_ok: "become_guest k cl = (cl', gift) \<Longrightarrow> sock_ip cl' = sock_ip cl \<and> username cl' = wallet k"
  by (auto simp: become_guest_def Let_def split: if_splits)

lemma db_add_user_ok: "sql_ok cfg c s \<Longrightarrow> sql_ok cfg c (db_add_user cfg c s)"
  by (auto simp: db_add_user_def Let_def sql_okD split: list.split prod.split dest!: become_guest_ok intro!: db_add_account_ok)

lemma db_clear_worker_ok [simp]: "sql_ok cfg c (db_clear_worker d s) \<longleftrightarrow> sql_ok cfg c s"
  by (simp add: db_clear_worker_def)

lemma db_clear_worker_ip: "sock_ip (client_at (db_clear_worker c s) d) = sock_ip (client_at s d)"
  by (simp add: db_clear_worker_def state_simps)

lemma db_add_worker_ok: "sql_ok cfg c s \<Longrightarrow> sql_ok cfg c (db_add_worker cfg c s)"
  by (simp add: db_add_worker_def Let_def sql_okD db_clear_worker_ip check_texts_def)

lemma add_to_database_ok: "add_to_database cfg c s = (b, s') \<Longrightarrow> sql_ok cfg c s \<Longrightarrow> sql_ok cfg c s'"
  by (auto simp: add_to_database_def client_block_ip_def Let_def split: if_splits intro: db_add_user_ok db_add_worker_ok)

section \<open>The rest of a login\<close>

lemma db_init_ok [simp]: "sql_ok cfg c (db_init_user_coinid d s) \<longleftrightarrow> sql_ok cfg c s"
  by (simp add: db_init_user_coinid_def Let_def)

lemma rpc_call_ok: "rpc_call cfg k m p s = (a, s') \<Longrightarrow> sql_ok cfg c s' \<longleftrightarrow> sql_ok cfg c s"
  by (auto simp: rpc_call_def Let_def)

lemma validate_coin_ok: "coind_validate_user_address cfg k a s = Some (b, s') \<Longrightarrow> sql_ok cfg c s' \<longleftrightarrow> sql_ok cfg c s"
  unfolding coind_validate_user_address_def Let_def
  by (auto split: if_splits prod.splits option.splits bind_splits dest: rpc_call_ok)

lemma try_coins_ok: "try_coins cfg c ks s = Some (b, s') \<Longrightarrow> sql_ok cfg c s \<Longrightarrow> sql_ok cfg c s'"
  by (induction ks arbitrary: s) (auto split: if_splits bind_splits prod.splits dest: validate_coin_ok [where c = c])

lemma validate_own_coin_ok: "validate_own_coin cfg c s = Some (b, s') \<Longrightarrow> sql_ok cfg c s \<Longrightarrow> sql_ok cfg c s'"
  unfolding validate_own_coin_def
  by (auto split: if_splits option.splits bind_splits prod.splits dest: validate_coin_ok [where c = c])

lemma auth_by_workers_ok: "client_auth_by_workers c s = (b, s') \<Longrightarrow> sql_ok cfg c s' \<longleftrightarrow> sql_ok cfg c s"
  by (auto simp: client_auth_by_workers_def Let_def split: if_splits option.splits)

lemma validate_user_ok: "client_validate_user_address cfg c s = Some (b, s') \<Longrightarrow> sql_ok cfg c s \<Longrightarrow> sql_ok cfg c s'"
  unfolding client_validate_user_address_def Let_def
  by (auto split: if_splits bind_splits prod.splits
      dest: auth_by_workers_ok [where cfg = cfg] try_coins_ok validate_own_coin_ok)

lemma multialgo_ok: "client_initialize_multialgo cfg c s = Some (b, s') \<Longrightarrow> sql_ok cfg c s' \<longleftrightarrow> sql_ok cfg c s"
  unfolding client_initialize_multialgo_def client_reset_multialgo_def Let_def
  by (auto split: if_splits option.splits prod.splits)

lemma initialize_difficulty_ok [simp]: "sql_ok cfg c (client_initialize_difficulty cfg c s) \<longleftrightarrow> sql_ok cfg c s"
  by (simp add: client_initialize_difficulty_def Let_def split: option.split prod.split)

lemma send_difficulty_ok: "client_send_difficulty cfg c d s = Some s' \<Longrightarrow> sql_ok cfg c s' \<longleftrightarrow> sql_ok cfg c s"
  unfolding client_send_difficulty_def by (auto split: if_splits bind_splits)

lemma send_last_ok: "job_send_last cfg c s = Some s' \<Longrightarrow> sql_ok cfg c s' \<longleftrightarrow> sql_ok cfg c s"
  unfolding job_send_last_def Let_def by (auto split: option.splits bind_splits)

lemma send_jobid_ok: "job_send_jobid cfg c i s = Some s' \<Longrightarrow> sql_ok cfg c s' \<longleftrightarrow> sql_ok cfg c s"
  unfolding job_send_jobid_def Let_def find_job_def unlock_job_def
  by (auto split: prod.splits option.splits bind_splits dest: send_last_ok)

lemma welcome_ok: "client_welcome cfg c s = Some s' \<Longrightarrow> sql_ok cfg c s' \<longleftrightarrow> sql_ok cfg c s"
  unfolding client_welcome_def Let_def
  by (auto split: bind_splits if_splits dest!: send_difficulty_ok [where c = c] send_jobid_ok send_last_ok)

lemma authorize_user_ok: "authorize_user cfg c s = Some (b, s') \<Longrightarrow> sql_ok cfg c s \<Longrightarrow> sql_ok cfg c s'"
  unfolding authorize_user_def Let_def
  by (auto split: if_splits bind_splits prod.splits
      elim!: welcome_ok [THEN iffD2] multialgo_ok [THEN iffD2] add_to_database_ok validate_user_ok)

lemma set_name_ip: "set_name p cl = (b, cl') \<Longrightarrow> sock_ip cl' = sock_ip cl"
  by (auto simp: set_name_def Let_def split: if_splits list.splits)

text \<open>
  C32. Whatever a miner sends to log in, every text in the statements that are written for it is free of
  blanks, quotes and backslashes, provided the address of its socket, the name of the algorithm and
  the wallets of the coins are.
\<close>

theorem login_statements_safe:
  assumes "client_authorize cfg c ps s = Some (b, s')" and "sql_ok cfg c s"
  shows "sql_ok cfg c s'"
  using assms unfolding client_authorize_def Let_def
  by (auto split: if_splits bind_splits prod.splits option.splits dest!: set_name_ip
      intro: authorize_user_ok)

theorem login_statements_safe_witness:
  "\<exists>s'. client_authorize x11_config 0 hostile_login (client_connect 0 ''10.0.0.1'' empty_stratum) = Some (True, s') \<and>
     length (queries s') = 1 \<and> sql_ok x11_config 0 s'"
proof -
  obtain s' where s': "client_authorize x11_config 0 hostile_login (client_connect 0 ''10.0.0.1'' empty_stratum) = Some (True, s')"
      "length (queries s') = 1"
    using hostile_login_accepted by blast
  have "sql_ok x11_config 0 (client_connect 0 ''10.0.0.1'' empty_stratum)"
    by (simp add: sql_ok_def x11_config_def client_connect_def empty_stratum_def zero_coind_def set_client_def
        update_client_def hurts_def)
  with s' show ?thesis using login_statements_safe [OF s'(1)] by blast
qed

section \<open>Texts of the benchmarks\<close>

text \<open>
  The escaped text is cut to the length of its array, perhaps between the two characters of an
  escape: with the documented escape of a line feed, the quote behind the text is escaped.
\<close>

lemma stats_text_ends_in_backslash:
  assumes "escape (''aaaaaa'' @ [CHR 0x0A]) = ''aaaaaa'' @ [CHR 0x5C, CHR ''n'']"
  shows "json_str_safe escape [(''type'', J_string (''aaaaaa'' @ [CHR 0x0A]))] ''type'' 8 = ''aaaaaa'' @ [CHR 0x5C]"
  using assms
  by (simp add: json_str_safe_def json_get_value_def json_text_def clean_html_def cut_at_def Let_def)

end
