(* ===== verification/Startup.thy ===== *)
theory Startup
  imports Ini_Parser Shares
begin

text \<open>
  \<open>stratum.cpp\<close> up to its main loop: the algorithms, the configuration file and the globals it sets.
  \<open>None\<close> is a crash: \<open>strcpy\<close> from \<open>NULL\<close> or behind an array.
\<close>

section \<open>Algorithms\<close>

text \<open>The name, the hash function, the multiplier of the difficulty, and whether \<open>sha256_hash_hex\<close> is set.\<close>

definition g_algo_table :: "(string \<times> string \<times> nat \<times> bool) list" where
  "g_algo_table =
    [(''equihash'', ''equi_hash'', 1, False), (''sha256'', ''sha256_double_hash'', 1, False),
     (''scrypt'', ''scrypt_hash'', 65536, False), (''scryptn'', ''scryptn_hash'', 65536, False),
     (''neoscrypt'', ''neoscrypt_hash'', 65536, False), (''c11'', ''c11_hash'', 1, False),
     (''x11'', ''x11_hash'', 1, False), (''x12'', ''x12_hash'', 1, False),
     (''x13'', ''x13_hash'', 1, False), (''x14'', ''x14_hash'', 1, False),
     (''x15'', ''x15_hash'', 1, False), (''x17'', ''x17_hash'', 1, False),
     (''x22i'', ''x22i_hash'', 1, False), (''x11evo'', ''x11evo_hash'', 1, False),
     (''xevan'', ''xevan_hash'', 256, False), (''x16r'', ''x16r_hash'', 256, False),
     (''x16rv2'', ''x16rv2_hash'', 256, False), (''x16s'', ''x16s_hash'', 256, False),
     (''timetravel'', ''timetravel_hash'', 256, False), (''bitcore'', ''timetravel10_hash'', 256, False),
     (''exosis'', ''exosis_hash'', 256, False), (''hsr'', ''hsr_hash'', 1, False),
     (''hmq1725'', ''hmq17_hash'', 65536, False), (''jha'', ''jha_hash'', 65536, False),
     (''allium'', ''allium_hash'', 256, False), (''lyra2'', ''lyra2re_hash'', 128, False),
     (''lyra2v2'', ''lyra2v2_hash'', 256, False), (''lyra2v3'', ''lyra2v3_hash'', 256, False),
     (''lyra2z'', ''lyra2z_hash'', 256, False), (''lyra2zz'', ''lyra2zz_hash'', 256, False),
     (''bastion'', ''bastion_hash'', 1, False), (''blake'', ''blake_hash'', 1, False),
     (''blakecoin'', ''blakecoin_hash'', 1, True), (''blake2b'', ''blake2b_hash'', 1, False),
     (''blake2s'', ''blake2s_hash'', 1, False), (''vanilla'', ''blakecoin_hash'', 1, False),
     (''decred'', ''decred_hash'', 1, False), (''deep'', ''deep_hash'', 1, False),
     (''fresh'', ''fresh_hash'', 256, False), (''quark'', ''quark_hash'', 1, False),
     (''nist5'', ''nist5_hash'', 1, False), (''qubit'', ''qubit_hash'', 1, False),
     (''groestl'', ''groestl_hash'', 256, True), (''dmd-gr'', ''groestl_hash'', 256, False),
     (''myr-gr'', ''groestlmyriad_hash'', 1, False), (''skein'', ''skein_hash'', 1, False),
     (''sonoa'', ''sonoa_hash'', 1, False), (''tribus'', ''tribus_hash'', 1, False),
     (''keccak'', ''keccak256_hash'', 128, True), (''keccakc'', ''keccak256_hash'', 256, False),
     (''hex'', ''hex_hash'', 256, True), (''phi'', ''phi_hash'', 1, False),
     (''phi2'', ''phi2_hash'', 256, False), (''polytimos'', ''polytimos_hash'', 1, False),
     (''skunk'', ''skunk_hash'', 1, False), (''bmw'', ''bmw_hash'', 1, False),
     (''lbk3'', ''lbk3_hash'', 256, False), (''lbry'', ''lbry_hash'', 256, False),
     (''luffa'', ''luffa_hash'', 1, False), (''penta'', ''penta_hash'', 1, False),
     (''rainforest'', ''rainforest_hash'', 256, False), (''skein2'', ''skein2_hash'', 1, False),
     (''yescrypt'', ''yescrypt_hash'', 65536, False), (''yescryptR16'', ''yescryptR16_hash'', 65536, False),
     (''yescryptR32'', ''yescryptR32_hash'', 65536, False), (''zr5'', ''zr5_hash'', 1, False),
     (''a5a'', ''a5a_hash'', 65536, False), (''hive'', ''hive_hash'', 65536, False),
     (''m7m'', ''m7m_hash'', 65536, False), (''veltor'', ''veltor_hash'', 1, False),
     (''velvet'', ''velvet_hash'', 65536, False), (''argon2'', ''argon2a_hash'', 65536, True),
     (''argon2d-dyn'', ''argon2d_dyn_hash'', 65536, False), (''vitalium'', ''vitalium_hash'', 1, False),
     (''aergo'', ''aergo_hash'', 1, False), (''sha256t'', ''sha256t_hash'', 1, False),
     (''sha256q'', ''sha256q_hash'', 1, False), (''sib'', ''sib_hash'', 1, False),
     (''whirlcoin'', ''whirlpool_hash'', 1, True), (''whirlpool'', ''whirlpool_hash'', 1, False),
     (''whirlpoolx'', ''whirlpoolx_hash'', 1, False)]"

definition stratum_find_algo :: "string \<Rightarrow> (string \<times> string \<times> nat \<times> bool) option" where
  "stratum_find_algo name = List.find (\<lambda>(n, _). n = name) g_algo_table"

text \<open>Scrypt-N takes its parameter from the date; the loop stops before the entry that is all zero.\<close>

definition scryptn_table :: "(nat \<times> int) list" where
  "scryptn_table =
    [(2048, 1389306217), (4096, 1456415081), (8192, 1506746729), (16384, 1557078377), (32768, 1657741673),
     (65536, 1859068265), (131072, 2060394857), (262144, 1722307603), (524288, 1769642992), (0, 0)]"

fun scryptn_search :: "int \<Rightarrow> (nat \<times> int) list \<Rightarrow> nat option" where
  "scryptn_search now ((n, _) # (n', t') # l) =
     (if n = 0 then None else if now < t' then Some n else scryptn_search now ((n', t') # l))"
| "scryptn_search now _ = None"

definition scryptn_N :: "int \<Rightarrow> nat option" where
  "scryptn_N now = scryptn_search now scryptn_table"

section \<open>The configuration file\<close>

record options =
  g_tcp_server :: string
  g_tcp_port :: int
  o_tcp_password :: string
  g_sql_host :: string
  g_sql_database :: string
  g_sql_username :: string
  g_sql_password :: string
  g_sql_port :: int
  g_stratum_coin_include :: string
  g_stratum_coin_exclude :: string
  o_algo :: string
  o_difficulty :: real
  o_min_diff :: real
  o_max_diff :: real
  o_max_cons :: int
  o_max_ttf :: int
  o_reconnect :: bool
  g_stratum_renting :: bool
  g_handle_haproxy_ips :: bool
  g_socket_recv_timeout :: int
  g_max_shares :: u64
  o_limit_txs_per_block :: int
  g_debuglog :: "bool list"

text \<open>\<open>strcpy\<close> of a value into an array of \<open>n\<close> characters; for the filters a missing value is an empty text.\<close>

definition copy_value :: "dictionary \<Rightarrow> string \<Rightarrow> nat \<Rightarrow> string option" where
  "copy_value d key n =
     (case iniparser_getstring (Some d) (Some key) of Some (Some t) \<Rightarrow> strcpy_in n t | _ \<Rightarrow> None)"

definition copy_filter :: "dictionary \<Rightarrow> string \<Rightarrow> nat \<Rightarrow> string option" where
  "copy_filter d key n =
     (case iniparser_getstring (Some d) (Some key) of Some (Some t) \<Rightarrow> strcpy_in n t | _ \<Rightarrow> Some [])"

definition iniparser_getdouble :: "(string \<Rightarrow> real) \<Rightarrow> dictionary option \<Rightarrow> string option \<Rightarrow> real \<Rightarrow> real option" where
  "iniparser_getdouble to_real dp key notfound =
     (case iniparser_getstring dp key of
        None \<Rightarrow> Some notfound
      | Some None \<Rightarrow> None
      | Some (Some t) \<Rightarrow> Some (to_real t))"

definition getflag :: "dictionary \<Rightarrow> string \<Rightarrow> bool \<Rightarrow> bool option" where
  "getflag d key b = map_option (\<lambda>i. i \<noteq> 0) (iniparser_getint (Some d) (Some key) (of_bool b))"

definition read_options :: "fpu \<Rightarrow> (string \<Rightarrow> real) \<Rightarrow> dictionary \<Rightarrow> options option" where
  "read_options f to_real d = do {
     let int = (\<lambda>key. iniparser_getint (Some d) (Some key));
     let dbl = (\<lambda>key. iniparser_getdouble to_real (Some d) (Some key));
     port \<leftarrow> int ''TCP:port'' 3333;
     server \<leftarrow> copy_value d ''TCP:server'' 1024;
     password \<leftarrow> copy_value d ''TCP:password'' 1024;
     sql_host \<leftarrow> copy_value d ''SQL:host'' 1024;
     sql_database \<leftarrow> copy_value d ''SQL:database'' 1024;
     sql_username \<leftarrow> copy_value d ''SQL:username'' 1024;
     sql_password \<leftarrow> copy_value d ''SQL:password'' 1024;
     sql_port \<leftarrow> int ''SQL:port'' 3306;
     incl \<leftarrow> copy_filter d ''WALLETS:include'' 256;
     excl \<leftarrow> copy_filter d ''WALLETS:exclude'' 256;
     algo \<leftarrow> copy_value d ''STRATUM:algo'' 256;
     diff \<leftarrow> dbl ''STRATUM:difficulty'' 16;
     min_diff \<leftarrow> dbl ''STRATUM:diff_min'' (rnd f (diff / 2));
     max_diff \<leftarrow> dbl ''STRATUM:diff_max'' (rnd f (diff * 8192));
     max_cons \<leftarrow> int ''STRATUM:max_cons'' 5000;
     max_ttf \<leftarrow> int ''STRATUM:max_ttf'' 0x70000000;
     reconnect \<leftarrow> getflag d ''STRATUM:reconnect'' True;
     renting \<leftarrow> getflag d ''STRATUM:renting'' True;
     haproxy \<leftarrow> getflag d ''STRATUM:haproxy_ips'' False;
     timeout \<leftarrow> int ''STRATUM:recv_timeout'' 600;
     max_shares \<leftarrow> int ''STRATUM:max_shares'' 0;
     limit \<leftarrow> int ''STRATUM:max_txs_per_block'' 0;
     debug_client \<leftarrow> getflag d ''DEBUGLOG:client'' False;
     debug_hash \<leftarrow> getflag d ''DEBUGLOG:hash'' False;
     debug_socket \<leftarrow> getflag d ''DEBUGLOG:socket'' False;
     debug_rpc \<leftarrow> getflag d ''DEBUGLOG:rpc'' False;
     debug_list \<leftarrow> getflag d ''DEBUGLOG:list'' False;
     debug_remote \<leftarrow> getflag d ''DEBUGLOG:remote'' False;
     Some \<lparr>g_tcp_server = server, g_tcp_port = port, o_tcp_password = password, g_sql_host = sql_host,
           g_sql_database = sql_database, g_sql_username = sql_username, g_sql_password = sql_password,
           g_sql_port = sql_port, g_stratum_coin_include = incl, g_stratum_coin_exclude = excl, o_algo = algo,
           o_difficulty = diff, o_min_diff = min_diff, o_max_diff = max_diff, o_max_cons = max_cons,
           o_max_ttf = max_ttf, o_reconnect = reconnect, g_stratum_renting = renting,
           g_handle_haproxy_ips = haproxy, g_socket_recv_timeout = timeout, g_max_shares = of_int max_shares,
           o_limit_txs_per_block = limit,
           g_debuglog = [debug_client, debug_hash, debug_socket, debug_rpc, debug_list, debug_remote]\<rparr>
   }"

text \<open>Miners may not change the time of these.\<close>

definition allow_rolltime :: "string \<Rightarrow> bool" where
  "allow_rolltime algo \<longleftrightarrow> algo \<notin> {''x11evo'', ''timetravel'', ''bitcore'', ''exosis''}"

text \<open>How the start ends: with a message and an exit, or with the options and the algorithm.\<close>

datatype startup = Usage | No_config | Invalid_algo | Running options "string \<times> string \<times> nat \<times> bool"

definition stratum_main :: "fpu \<Rightarrow> (string \<Rightarrow> real) \<Rightarrow> (string \<Rightarrow> string option) \<Rightarrow> string list \<Rightarrow> startup option" where
  "stratum_main f to_real files argv =
     (if length argv < 2 then Some Usage
      else do {
        configfile \<leftarrow> strcpy_in 1024 (argv ! 1 @ ''.conf'');
        ini \<leftarrow> iniparser_load True (files configfile);
        (case ini of
           None \<Rightarrow> Some No_config
         | Some d \<Rightarrow> do {
             opts \<leftarrow> read_options f to_real d;
             Some (case stratum_find_algo (o_algo opts) of None \<Rightarrow> Invalid_algo | Some a \<Rightarrow> Running opts a)
           })
      })"

section \<open>What can go wrong\<close>

text \<open>From 2035 on no entry of the table of Scrypt-N is found, and no hash is computed.\<close>

lemma scryptn_ends: "2060394857 \<le> now \<Longrightarrow> scryptn_N now = None"
  by (simp add: scryptn_N_def scryptn_table_def)

text \<open>Each algorithm has one entry, and only names of the table are found.\<close>

lemma algo_names_distinct: "distinct (map fst g_algo_table)"
  by (simp add: g_algo_table_def)

lemma lower_colon: "CHR '':'' \<in> set (strlwc t) \<longleftrightarrow> CHR '':'' \<in> set t"
proof -
  have eq: "tolower ch = CHR '':'' \<longleftrightarrow> ch = CHR '':''" for ch
  proof (cases "65 \<le> (of_char ch :: nat) \<and> (of_char ch :: nat) \<le> 90")
    case True
    then have "(of_char (tolower ch) :: nat) = of_char ch + 32" by (simp add: tolower_def Let_def)
    then have "(of_char (tolower ch) :: nat) \<noteq> of_char CHR '':''" "(of_char ch :: nat) \<noteq> of_char CHR '':''"
      using True by simp_all
    then show ?thesis by metis
  next
    case False
    then show ?thesis by (simp only: tolower_def Let_def if_False)
  qed
  show ?thesis unfolding strlwc_def set_map image_iff by (metis eq)
qed

lemma section_entry_values:
  assumes "ini_config cfg" and "\<forall>sec\<in>set cfg. CHR '':'' \<notin> set (fst sec)" and "CHR '':'' \<in> set key"
  shows "case map_of (rev (concat (map section_entries cfg))) key of
      None \<Rightarrow> True | Some None \<Rightarrow> False | Some (Some v) \<Rightarrow> length v < 1024"
proof (cases "map_of (rev (concat (map section_entries cfg))) key")
  case (Some w)
  then have "(key, w) \<in> set (concat (map section_entries cfg))" by (metis map_of_SomeD set_rev)
  then obtain sec where sec: "sec \<in> set cfg" "(key, w) \<in> set (section_entries sec)" by auto
  have "CHR '':'' \<notin> set (strlwc (fst sec))" using lower_colon assms(2) sec(1) by blast
  then have "key \<noteq> strlwc (fst sec)" using assms(3) by auto
  then obtain kv where kv: "kv \<in> set (snd sec)" "w = Some (snd kv)" using sec(2) by (auto simp: section_entries_def)
  have "ini_pair kv" using assms(1) sec(1) kv(1) by (auto simp: ini_config_def list_all_iff)
  then show ?thesis using Some kv(2) by (simp add: ini_pair_def)
qed simp

text \<open>The keys without which the server does not start.\<close>

definition required_keys :: "string list" where
  "required_keys = [''TCP:server'', ''TCP:password'', ''SQL:host'', ''SQL:database'', ''SQL:username'', ''SQL:password'', ''STRATUM:algo'']"

definition setting :: "(string \<times> (string \<times> string) list) list \<Rightarrow> string \<Rightarrow> string option option" where
  "setting cfg key = map_of (rev (concat (map section_entries cfg))) (strlwc key)"

lemma read_options_None:
  assumes "\<And>key. CHR '':'' \<in> set key \<Longrightarrow> iniparser_getstring (Some d) (Some key) \<noteq> Some None"
  shows "read_options f to_real d = None \<longleftrightarrow>
    (\<exists>key\<in>set (butlast required_keys). copy_value d key 1024 = None) \<or> copy_value d ''STRATUM:algo'' 256 = None \<or>
    copy_filter d ''WALLETS:include'' 256 = None \<or> copy_filter d ''WALLETS:exclude'' 256 = None"
proof -
  have int: "iniparser_getint (Some d) (Some key) n \<noteq> None" if "CHR '':'' \<in> set key" for key n
    using assms [OF that] by (auto simp: iniparser_getint_def split: option.splits)
  have flag: "getflag d key b \<noteq> None" if "CHR '':'' \<in> set key" for key b
    using int [OF that] by (simp add: getflag_def)
  have dbl: "iniparser_getdouble to_real (Some d) (Some key) x \<noteq> None" if "CHR '':'' \<in> set key" for key x
    using assms [OF that] by (auto simp: iniparser_getdouble_def split: option.splits)
  have bind: "Option.bind x g = None \<longleftrightarrow> x = None \<or> (\<exists>y. x = Some y \<and> g y = None)" for x :: "'b option" and g :: "'b \<Rightarrow> options option"
    by (cases x) auto
  show ?thesis
    unfolding read_options_def Let_def required_keys_def
    by (simp add: bind int flag dbl) (use int flag dbl in auto)
qed

text \<open>
  C39. With a configuration file of named sections the server crashes at its start exactly when one of the seven values it
  copies without a test is missing, or the algorithm or a coin filter has 256 characters or more; every
  other key may be missing.
\<close>

theorem startup_crashes_iff:
  assumes "ini_config cfg" and "\<forall>sec\<in>set cfg. CHR '':'' \<notin> set (fst sec)"
    and "length name + 5 < 1024" and "files (name @ ''.conf'') = Some (render cfg)"
  shows "stratum_main f to_real files [program, name] = None \<longleftrightarrow>
    (\<exists>key\<in>set required_keys. setting cfg key = None) \<or>
    (\<exists>key\<in>{''STRATUM:algo'', ''WALLETS:include'', ''WALLETS:exclude''}. \<exists>t. setting cfg key = Some (Some t) \<and> 256 \<le> length t)"
proof -
  obtain d where d: "iniparser_load True (Some (render cfg)) = Some (Some d)" "dict_ok d"
      "dict_map d = map_of (rev (concat (map section_entries cfg)))"
    using loaded_map [OF assms(1)] by blast
  have get: "iniparser_getstring (Some d) (Some key) = setting cfg key" for key
    using dm.get_abs [OF d(2)] d(3) by (simp add: iniparser_getstring_def setting_def)
  have val: "case setting cfg key of None \<Rightarrow> True | Some None \<Rightarrow> False | Some (Some v) \<Rightarrow> length v < 1024"
    if "CHR '':'' \<in> set key" for key
    using section_entry_values [OF assms(1,2), of "strlwc key"] that lower_colon by (simp add: setting_def)
  have "stratum_main f to_real files [program, name] = None \<longleftrightarrow> read_options f to_real d = None"
    using assms(3,4) d(1) by (auto simp: stratum_main_def strcpy_in_def split: bind_splits)
  also have "\<dots> \<longleftrightarrow> (\<exists>key\<in>set (butlast required_keys). copy_value d key 1024 = None) \<or> copy_value d ''STRATUM:algo'' 256 = None \<or>
    copy_filter d ''WALLETS:include'' 256 = None \<or> copy_filter d ''WALLETS:exclude'' 256 = None"
    by (rule read_options_None) (use val get in \<open>fastforce split: option.splits\<close>)
  finally have main: "stratum_main f to_real files [program, name] = None \<longleftrightarrow> \<dots>" .
  have "copy_value d key 1024 = None \<longleftrightarrow> setting cfg key = None" if "key \<in> set (butlast required_keys)" for key
    using val [of key] that by (auto simp: copy_value_def get strcpy_in_def required_keys_def split: option.splits)
  moreover have "copy_value d ''STRATUM:algo'' 256 = None \<longleftrightarrow>
      setting cfg ''STRATUM:algo'' = None \<or> (\<exists>t. setting cfg ''STRATUM:algo'' = Some (Some t) \<and> 256 \<le> length t)"
    using val [of "''STRATUM:algo''"] by (auto simp: copy_value_def get strcpy_in_def split: option.splits)
  moreover have "copy_filter d key 256 = None \<longleftrightarrow> (\<exists>t. setting cfg key = Some (Some t) \<and> 256 \<le> length t)" for key
    by (auto simp: copy_filter_def get strcpy_in_def split: option.splits)
  moreover have "required_keys = butlast required_keys @ [''STRATUM:algo'']" by (simp add: required_keys_def)
  then have "set required_keys = insert ''STRATUM:algo'' (set (butlast required_keys))" by (metis Un_insert_right list.simps(15) set_append sup_bot_right empty_set)
  ultimately show ?thesis unfolding main by auto
qed

definition sample_config :: "(string \<times> (string \<times> string) list) list" where
  "sample_config =
    [(''TCP'', [(''server'', ''yaamp.com''), (''port'', ''8888''), (''password'', ''tu8tu5'')]),
     (''SQL'', [(''host'', ''yaampdb''), (''database'', ''yaamp''), (''username'', ''root''), (''password'', ''patofpaq'')]),
     (''STRATUM'', [(''algo'', ''equihash''), (''max_ttf'', ''50000'')])]"

theorem startup_crashes_iff_witness:
  "stratum_main exact_fpu (\<lambda>_. 0) (\<lambda>_. Some (render sample_config)) [''stratum'', ''equihash''] \<noteq> None \<and>
   stratum_main exact_fpu (\<lambda>_. 0) (\<lambda>_. Some (render (butlast sample_config))) [''stratum'', ''equihash''] = None"
proof -
  have "ini_config sample_config" "ini_config (butlast sample_config)" by code_simp+
  moreover have "\<forall>sec\<in>set sample_config. CHR '':'' \<notin> set (fst sec)" "\<forall>sec\<in>set (butlast sample_config). CHR '':'' \<notin> set (fst sec)"
    by (simp_all add: sample_config_def)
  moreover have "list_all (\<lambda>key. setting sample_config key \<noteq> None) required_keys" by code_simp
  moreover have "setting sample_config ''STRATUM:algo'' = Some (Some ''equihash'')" "setting sample_config ''WALLETS:include'' = None"
    "setting sample_config ''WALLETS:exclude'' = None" "setting (butlast sample_config) ''STRATUM:algo'' = None"
    by code_simp+
  moreover have "''STRATUM:algo'' \<in> set required_keys" by (simp add: required_keys_def)
  ultimately show ?thesis
    using startup_crashes_iff [of sample_config "''equihash''" "\<lambda>_. Some (render sample_config)" exact_fpu "\<lambda>_. 0" "''stratum''"]
      startup_crashes_iff [of "butlast sample_config" "''equihash''" "\<lambda>_. Some (render (butlast sample_config))" exact_fpu "\<lambda>_. 0" "''stratum''"]
    by (auto simp: list_all_iff)
qed

end
