(* ===== verification/Sockets.thy ===== *)
theory Sockets
  imports Login_Sql
begin

text \<open>
  \<open>socket.cpp\<close> and the loop of \<open>client_thread\<close>: the requests of a miner are cut out of the bytes
  that arrive. What arrives, and in which pieces, is up to the network; a receive that returns
  nothing is a connection that was closed or that timed out.
\<close>

section \<open>Receiving\<close>

record wire =
  incoming :: string
  cut :: "nat \<Rightarrow> nat"
  recvs :: nat

definition recv :: "nat \<Rightarrow> wire \<Rightarrow> string \<times> wire" where
  "recv n w =
     (let k = min n (max 1 (cut w (recvs w)))
      in (take k (incoming w), w\<lparr>incoming := drop k (incoming w), recvs := recvs w + 1\<rparr>))"

lemma recv_shorter: "recv n w = (got, w') \<Longrightarrow> got \<noteq> [] \<Longrightarrow> length (incoming w') < length (incoming w)"
  by (auto simp: recv_def Let_def)

lemma recv_bytes: "recv n w = (got, w') \<Longrightarrow> got @ incoming w' = incoming w \<and> length got \<le> n"
  by (auto simp: recv_def Let_def)

lemma recv_some: "recv n w = ([], w') \<Longrightarrow> 0 < n \<Longrightarrow> incoming w = []"
  by (auto simp: recv_def Let_def)

definition YAAMP_SOCKET_BUFSIZE :: nat where
  "YAAMP_SOCKET_BUFSIZE = 4 * 1024"

record sock =
  sbuf :: string
  total_read :: nat
  wire_of :: wire

definition socket_initialize :: "wire \<Rightarrow> sock" where
  "socket_initialize w = \<lparr>sbuf = [], total_read = 0, wire_of = w\<rparr>"

text \<open>The loop that receives until there is a closing brace; \<open>None\<close> when nothing comes.\<close>

function fill :: "sock \<Rightarrow> sock option" where
  "fill s =
     (if CHR ''}'' \<in> set (c_text (sbuf s)) \<or> YAAMP_SOCKET_BUFSIZE - 1 \<le> length (sbuf s) then Some s
      else (case recv (YAAMP_SOCKET_BUFSIZE - length (sbuf s) - 1) (wire_of s) of (got, w) \<Rightarrow>
              if got = [] then None
              else fill (s\<lparr>sbuf := sbuf s @ got, total_read := total_read s + length got, wire_of := w\<rparr>)))"
  by pat_completeness auto
termination
  by (relation "measure (\<lambda>s. length (incoming (wire_of s)))") (simp, metis in_measure recv_shorter select_convs(3) update_convs(3) surjective)

declare fill.simps [simp del]

section \<open>One request\<close>

text \<open>
  The piece from the first opening brace \<open>b\<close> on: up to the next opening brace behind a closing one,
  or else up to the last closing one.
\<close>

definition piece :: "string \<Rightarrow> string option" where
  "piece b =
     (case dropWhile (\<lambda>ch. ch \<noteq> CHR ''}'') b of
        [] \<Rightarrow> None
      | p \<Rightarrow>
          if CHR ''{'' \<in> set p
          then Some (take (length b - length (dropWhile (\<lambda>ch. ch \<noteq> CHR ''{'') p)) b)
          else Some (rev (dropWhile (\<lambda>ch. ch \<noteq> CHR ''}'') (rev b))))"

text \<open>What stays in the buffer: everything from the next opening brace on.\<close>

definition left_over :: "string \<Rightarrow> string \<Rightarrow> string \<Rightarrow> string" where
  "left_over buf b m =
     (case dropWhile (\<lambda>ch. ch \<noteq> CHR ''{'') (drop (length m) b) of
        [] \<Rightarrow> []
      | p \<Rightarrow> drop (length (c_text buf) - length p) buf)"

definition socket_nextjson :: "(string \<Rightarrow> json option) \<Rightarrow> sock \<Rightarrow> json option \<times> sock" where
  "socket_nextjson parse s =
     (case fill s of
        None \<Rightarrow> (None, s)
      | Some s \<Rightarrow>
          (let b = dropWhile (\<lambda>ch. ch \<noteq> CHR ''{'') (c_text (sbuf s))
           in if b = [] then (None, s)
              else (case piece b of
                      None \<Rightarrow> (None, s)
                    | Some m \<Rightarrow>
                        (case parse m of
                           None \<Rightarrow> (None, s)
                         | Some j \<Rightarrow> (Some j, s\<lparr>sbuf := left_over (sbuf s) b m\<rparr>)))))"

text \<open>A request is taken out of what has been received and what is still to come.\<close>

definition unread :: "sock \<Rightarrow> nat" where
  "unread s = length (sbuf s) + length (incoming (wire_of s))"

lemma fill_bytes: "fill s = Some s' \<Longrightarrow> sbuf s' @ incoming (wire_of s') = sbuf s @ incoming (wire_of s)"
proof (induction s rule: fill.induct)
  case (1 s)
  obtain got w where r: "recv (YAAMP_SOCKET_BUFSIZE - length (sbuf s) - 1) (wire_of s) = (got, w)" by fastforce
  show ?case
    using 1 r recv_bytes [OF r] by (auto simp: fill.simps [of s] split: if_splits)
qed

lemma piece_nonempty: "piece (CHR ''{'' # b) = Some m \<Longrightarrow> m \<noteq> []"
proof -
  assume p: "piece (CHR ''{'' # b) = Some m"
  have "length (dropWhile (\<lambda>ch. ch \<noteq> CHR ''{'') (dropWhile (\<lambda>ch. ch \<noteq> CHR ''}'') (CHR ''{'' # b))) \<le> length b"
    by (simp, meson length_dropWhile_le order_trans)
  moreover have "rev (dropWhile (\<lambda>ch. ch \<noteq> CHR ''}'') (rev (CHR ''{'' # b))) \<noteq> []"
    if "dropWhile (\<lambda>ch. ch \<noteq> CHR ''}'') (CHR ''{'' # b) \<noteq> []"
    using that by (simp add: dropWhile_eq_Nil_conv)
  ultimately show ?thesis
    using p by (cases "dropWhile (\<lambda>ch. ch \<noteq> CHR ''}'') (CHR ''{'' # b)") (auto simp: piece_def simp del: dropWhile.simps split: if_splits)
qed

lemma left_over_shorter:
  assumes "b = dropWhile (\<lambda>ch. ch \<noteq> CHR ''{'') (c_text buf)" and "b \<noteq> []" and "m \<noteq> []"
  shows "length (left_over buf b m) < length buf"
proof -
  have c: "length (c_text buf) \<le> length buf" by (simp add: c_text_def length_takeWhile_le)
  have b: "length b \<le> length (c_text buf)" using assms(1) length_dropWhile_le by metis
  let ?p = "dropWhile (\<lambda>ch. ch \<noteq> CHR ''{'') (drop (length m) b)"
  have "length ?p \<le> length b - length m" using length_dropWhile_le [of _ "drop (length m) b"] by simp
  then have "length ?p < length b" using assms(2,3) by (cases b; cases m) auto
  moreover have "buf \<noteq> []" using assms(2) b c by auto
  ultimately show ?thesis
    using b c unfolding left_over_def by (cases ?p) (simp_all only: list.case, auto)
qed

lemma socket_nextjson_consumes: "socket_nextjson parse s = (Some j, s') \<Longrightarrow> unread s' < unread s"
proof -
  assume n: "socket_nextjson parse s = (Some j, s')"
  then obtain t m where t: "fill s = Some t" "dropWhile (\<lambda>ch. ch \<noteq> CHR ''{'') (c_text (sbuf t)) \<noteq> []"
      "piece (dropWhile (\<lambda>ch. ch \<noteq> CHR ''{'') (c_text (sbuf t))) = Some m"
      "s' = t\<lparr>sbuf := left_over (sbuf t) (dropWhile (\<lambda>ch. ch \<noteq> CHR ''{'') (c_text (sbuf t))) m\<rparr>"
    by (auto simp: socket_nextjson_def Let_def split: option.splits if_splits)
  have "hd (dropWhile (\<lambda>ch. ch \<noteq> CHR ''{'') (c_text (sbuf t))) = CHR ''{''" using hd_dropWhile [OF t(2)] by simp
  then have "m \<noteq> []" using t(2,3) piece_nonempty by (cases "dropWhile (\<lambda>ch. ch \<noteq> CHR ''{'') (c_text (sbuf t))") auto
  then have "length (sbuf s') < length (sbuf t)" "wire_of s' = wire_of t"
    using left_over_shorter [OF refl t(2)] t(4) by simp_all
  moreover have "unread t = unread s"
    using arg_cong [OF fill_bytes [OF t(1)], of length] by (simp add: unread_def)
  ultimately show ?thesis by (simp add: unread_def)
qed

section \<open>A connection\<close>

text \<open>The loop of \<open>client_thread\<close>, and the thread of one connection.\<close>

function client_loop ::
    "'s config \<Rightarrow> (string \<Rightarrow> string) \<Rightarrow> (string \<Rightarrow> json option) \<Rightarrow> nat \<Rightarrow> sock \<Rightarrow> stratum \<Rightarrow> stratum option" where
  "client_loop cfg escape parse c sk s =
     (if 1024 < submit_bad (client_at s c) then Some s
      else (case socket_nextjson parse sk of
              (None, _) \<Rightarrow> Some s
            | (Some j, sk') \<Rightarrow>
                (case u_object j of
                   None \<Rightarrow> None
                 | Some ms \<Rightarrow>
                     (case client_turn cfg escape c (Some ms) s of
                        None \<Rightarrow> None
                      | Some (b, s) \<Rightarrow> if b then client_loop cfg escape parse c sk' s else Some s))))"
  by pat_completeness auto
termination
  by (relation "measure (\<lambda>(cfg, escape, parse, c, sk, s). unread sk)") (auto dest: socket_nextjson_consumes sym)

declare client_loop.simps [simp del]

definition client_thread ::
    "'s config \<Rightarrow> (string \<Rightarrow> string) \<Rightarrow> (string \<Rightarrow> json option) \<Rightarrow> nat \<Rightarrow> string \<Rightarrow> wire \<Rightarrow> stratum \<Rightarrow> stratum option" where
  "client_thread cfg escape parse c ip w s =
     map_option (client_leave c) (client_loop cfg escape parse c (socket_initialize w) (client_connect c ip s))"

text \<open>The same with the requests at hand.\<close>

fun session :: "'s config \<Rightarrow> (string \<Rightarrow> string) \<Rightarrow> nat \<Rightarrow> json list \<Rightarrow> stratum \<Rightarrow> stratum option" where
  "session cfg escape c [] s = Some s"
| "session cfg escape c (j # js) s =
     (if 1024 < submit_bad (client_at s c) then Some s
      else do {
        ms \<leftarrow> u_object j;
        (b, s) \<leftarrow> client_turn cfg escape c (Some ms) s;
        if b then session cfg escape c js s else Some s
      })"

section \<open>The cuts of the network do not matter\<close>

text \<open>A request without inner braces, and the lines of several.\<close>

definition plain :: "string \<Rightarrow> bool" where
  "plain t \<longleftrightarrow> set t \<inter> {CHR ''{'', CHR ''}'', CHR 0x00} = {}"

definition flat :: "string \<Rightarrow> bool" where
  "flat m \<longleftrightarrow> (\<exists>body. plain body \<and> m = CHR ''{'' # body @ [CHR ''}''])"

definition lines_of :: "string list \<Rightarrow> string" where
  "lines_of ms = concat (map (\<lambda>m. m @ [CHR 0x0A]) ms)"

lemma first_split:
  assumes "u @ x # v = u' @ x # v'" and "x \<notin> set u" and "x \<notin> set u'"
  shows "u = u' \<and> v = v'"
  using assms
proof (induction u arbitrary: u')
  case Nil
  then show ?case by (cases u') auto
next
  case (Cons y u)
  then show ?case by (cases u') auto
qed

lemma fill_line:
  assumes "sbuf s @ incoming (wire_of s) = a @ CHR ''}'' # rest" and "plain a \<or> (\<exists>x y. a = x @ CHR ''{'' # y \<and> plain x \<and> plain y)"
    and "CHR 0x00 \<notin> set rest" and "length a + 1 < YAAMP_SOCKET_BUFSIZE"
  shows "\<exists>s' t. fill s = Some s' \<and> sbuf s' = a @ CHR ''}'' # t \<and> t @ incoming (wire_of s') = rest"
  using assms(1)
proof (induction s rule: fill.induct)
  case (1 s)
  have nul: "CHR 0x00 \<notin> set (a @ CHR ''}'' # rest)" and a: "CHR ''}'' \<notin> set a"
    using assms(2,3) by (auto simp: plain_def)
  have c: "c_text (sbuf s) = sbuf s"
    using nul arg_cong [OF 1(2), of set] unfolding c_text_def takeWhile_eq_all_conv by auto
  show ?case
  proof (cases "CHR ''}'' \<in> set (sbuf s)")
    case True
    then obtain u v where uv: "sbuf s = u @ CHR ''}'' # v" "CHR ''}'' \<notin> set u" by (meson split_list_first)
    then have "u @ CHR ''}'' # (v @ incoming (wire_of s)) = a @ CHR ''}'' # rest" using 1(2) by simp
    then have "u = a" "v @ incoming (wire_of s) = rest"
      using first_split [OF _ uv(2) a] by blast+
    moreover have "fill s = Some s" using True by (subst fill.simps) (simp only: c simp_thms if_True)
    ultimately show ?thesis using uv(1) by auto
  next
    case False
    have short: "length (sbuf s) \<le> length a"
    proof (rule ccontr)
      assume "\<not> length (sbuf s) \<le> length a"
      then have "sbuf s ! length a = CHR ''}''"
        using arg_cong [OF 1(2), of "\<lambda>t. t ! length a"] by (simp add: nth_append)
      then show False using False \<open>\<not> length (sbuf s) \<le> length a\<close> by (metis not_le nth_mem)
    qed
    obtain got w where r: "recv (YAAMP_SOCKET_BUFSIZE - length (sbuf s) - 1) (wire_of s) = (got, w)" by fastforce
    have some: "got \<noteq> []"
      using recv_some [of _ "wire_of s" w] r short assms(4) 1(2) False by auto
    let ?s = "s\<lparr>sbuf := sbuf s @ got, total_read := total_read s + length got, wire_of := w\<rparr>"
    have "sbuf ?s @ incoming (wire_of ?s) = a @ CHR ''}'' # rest" using recv_bytes [OF r] 1(2) by simp
    moreover have n: "\<not> (CHR ''}'' \<in> set (c_text (sbuf s)) \<or> YAAMP_SOCKET_BUFSIZE - 1 \<le> length (sbuf s))"
      using False short assms(4) by (simp add: c)
    ultimately have "\<exists>s' t. fill ?s = Some s' \<and> sbuf s' = a @ CHR ''}'' # t \<and> t @ incoming (wire_of s') = rest"
      using 1(1) [OF n r [symmetric] some] by blast
    moreover have "fill s = fill ?s" using n r some by (subst fill.simps) (simp only: if_False prod.case)
    ultimately show ?thesis by metis
  qed
qed

lemma plain_dropWhile:
  "plain a \<Longrightarrow> dropWhile (\<lambda>ch. ch \<noteq> CHR ''{'') (a @ b) = dropWhile (\<lambda>ch. ch \<noteq> CHR ''{'') b"
  "plain a \<Longrightarrow> dropWhile (\<lambda>ch. ch \<noteq> CHR ''}'') (a @ b) = dropWhile (\<lambda>ch. ch \<noteq> CHR ''}'') b"
  by (induction a) (auto simp: plain_def)

lemma piece_next:
  assumes "plain body" and "t = x @ CHR ''{'' # y" and "CHR ''{'' \<notin> set x"
  shows "piece (CHR ''{'' # body @ CHR ''}'' # t) = Some (CHR ''{'' # body @ CHR ''}'' # x)"
proof -
  have "dropWhile (\<lambda>ch. ch \<noteq> CHR ''{'') (x @ CHR ''{'' # y) = CHR ''{'' # y"
    using assms(3) by (induction x) auto
  then show ?thesis using plain_dropWhile(2) [OF assms(1)] by (simp add: piece_def assms(2))
qed

lemma piece_last:
  assumes "plain body" and "plain t"
  shows "piece (CHR ''{'' # body @ CHR ''}'' # t) = Some (CHR ''{'' # body @ [CHR ''}''])"
proof -
  have "plain (rev t)" using assms(2) by (simp add: plain_def)
  from plain_dropWhile(2) [OF this]
  have "dropWhile (\<lambda>ch. ch \<noteq> CHR ''}'') (rev (CHR ''{'' # body @ CHR ''}'' # t)) = CHR ''}'' # rev body @ [CHR ''{'']"
    by simp
  then show ?thesis
    using plain_dropWhile(2) [OF assms(1), of "CHR ''}'' # t"] assms(2) by (simp add: piece_def plain_def)
qed

text \<open>What the buffer holds before a request: it, or the end of the line before.\<close>

definition ready :: "sock \<Rightarrow> string list \<Rightarrow> bool" where
  "ready s ms \<longleftrightarrow>
     sbuf s @ incoming (wire_of s) = lines_of ms \<or> sbuf s = [] \<and> incoming (wire_of s) = CHR 0x0A # lines_of ms"

lemma lines_of_plain: "CHR 0x00 \<notin> set (lines_of ms)" if "\<forall>m\<in>set ms. flat m"
  using that by (induction ms) (auto simp: lines_of_def flat_def plain_def)

lemma nextjson_line:
  assumes "ready s (m # ms)" and "\<forall>m\<in>set (m # ms). flat m \<and> length m + 1 < YAAMP_SOCKET_BUFSIZE"
    and "\<And>m. parse (m @ [CHR 0x0A]) = parse m" and "parse m = Some j"
  shows "\<exists>s'. socket_nextjson parse s = (Some j, s') \<and> ready s' ms"
proof -
  obtain body where body: "plain body" "m = CHR ''{'' # body @ [CHR ''}'']" using assms(2) by (auto simp: flat_def)
  let ?rest = "CHR 0x0A # lines_of ms"
  obtain pre where pre: "pre = [] \<or> pre = [CHR 0x0A]"
      "sbuf s @ incoming (wire_of s) = (pre @ CHR ''{'' # body) @ CHR ''}'' # ?rest"
  proof -
    have l: "lines_of (m # ms) = CHR ''{'' # body @ CHR ''}'' # ?rest" by (simp add: lines_of_def body(2))
    from assms(1) consider "sbuf s @ incoming (wire_of s) = lines_of (m # ms)"
      | "sbuf s = []" "incoming (wire_of s) = CHR 0x0A # lines_of (m # ms)"
      unfolding ready_def by blast
    then show thesis using that [of "[]"] that [of "[CHR 0x0A]"] l by cases simp_all
  qed
  have plain_pre: "plain pre" using pre(1) by (auto simp: plain_def)
  obtain s1 t where s1: "fill s = Some s1" "sbuf s1 = (pre @ CHR ''{'' # body) @ CHR ''}'' # t" "t @ incoming (wire_of s1) = ?rest"
  proof -
    have "CHR 0x00 \<notin> set ?rest" using lines_of_plain [of ms] assms(2) by simp
    moreover have "length (pre @ CHR ''{'' # body) + 1 < YAAMP_SOCKET_BUFSIZE" using assms(2) body(2) pre(1) by auto
    ultimately show thesis using fill_line [OF pre(2)] plain_pre body(1) that by blast
  qed
  have "CHR 0x00 \<notin> set (t @ incoming (wire_of s1))" unfolding s1(3) using lines_of_plain [of ms] assms(2) by simp
  then have "CHR 0x00 \<notin> set (sbuf s1)" using plain_pre body(1) by (auto simp: s1(2) plain_def)
  then have c: "c_text (sbuf s1) = sbuf s1" unfolding c_text_def takeWhile_eq_all_conv by auto
  have b: "dropWhile (\<lambda>ch. ch \<noteq> CHR ''{'') (sbuf s1) = CHR ''{'' # body @ CHR ''}'' # t"
    using plain_dropWhile(1) [OF plain_pre, of "CHR ''{'' # body @ CHR ''}'' # t"] by (simp add: s1(2))
  show ?thesis
  proof (cases "CHR ''{'' \<in> set t")
    case True
    then obtain x y where xy: "t = x @ CHR ''{'' # y" "CHR ''{'' \<notin> set x" by (meson split_list_first)
    obtain m1 ms1 where ms: "ms = m1 # ms1"
      using True s1(3) by (cases ms) (auto simp: lines_of_def Cons_eq_append_conv append_eq_Cons_conv)
    then obtain z where z: "lines_of ms = CHR ''{'' # z" using assms(2) by (auto simp: lines_of_def flat_def)
    have e: "x @ CHR ''{'' # (y @ incoming (wire_of s1)) = [CHR 0x0A] @ CHR ''{'' # z" using s1(3) xy(1) z by simp
    then have x: "x = [CHR 0x0A]" "y @ incoming (wire_of s1) = z" using first_split [OF e xy(2)] by simp_all
    have "left_over (sbuf s1) (CHR ''{'' # body @ CHR ''}'' # t) (CHR ''{'' # body @ CHR ''}'' # x) = CHR ''{'' # y"
    proof -
      have "left_over (sbuf s1) (CHR ''{'' # body @ CHR ''}'' # t) (CHR ''{'' # body @ CHR ''}'' # x) =
          drop (length (sbuf s1) - Suc (length y)) (sbuf s1)"
        unfolding left_over_def c by (simp add: xy(1))
      then show ?thesis by (simp add: s1(2) xy(1))
    qed
    then show ?thesis
      using s1(1) b c piece_next [OF body(1) xy] assms(3) [of m] assms(4) body(2) x z
      by (simp add: socket_nextjson_def ready_def)
  next
    case False
    have t: "t = [] \<or> t = [CHR 0x0A]"
    proof (cases ms)
      case Nil
      then show ?thesis using s1(3) by (auto simp: lines_of_def append_eq_Cons_conv)
    next
      case (Cons m1 ms1)
      then obtain z where z: "lines_of ms = CHR ''{'' # z" using assms(2) by (auto simp: lines_of_def flat_def)
      then show ?thesis using s1(3) False by (auto simp: append_eq_Cons_conv)
    qed
    then have "plain t" by (auto simp: plain_def)
    moreover have "left_over (sbuf s1) (CHR ''{'' # body @ CHR ''}'' # t) (CHR ''{'' # body @ [CHR ''}'']) = []"
      using t by (auto simp: left_over_def)
    ultimately show ?thesis
      using s1(1,3) b c piece_last [OF body(1)] assms(4) body(2) t
      by (auto simp: socket_nextjson_def ready_def)
  qed
qed

lemma fill_closed: "CHR ''}'' \<notin> set (sbuf s) \<Longrightarrow> length (sbuf s) < 2 \<Longrightarrow> incoming (wire_of s) = [] \<Longrightarrow> fill s = None"
  by (subst fill.simps) (auto simp: recv_def Let_def YAAMP_SOCKET_BUFSIZE_def c_text_def dest: set_takeWhileD)

lemma nextjson_end:
  assumes "ready s []"
  shows "fst (socket_nextjson parse s) = None"
proof -
  from assms consider "sbuf s = []" "incoming (wire_of s) = []" | "sbuf s = []" "incoming (wire_of s) = [CHR 0x0A]"
    by (auto simp: ready_def lines_of_def)
  then have "fill s = None"
  proof cases
    case 1
    then show ?thesis by (simp add: fill_closed)
  next
    case 2
    obtain got w where r: "recv (YAAMP_SOCKET_BUFSIZE - 1) (wire_of s) = (got, w)" by fastforce
    then have "got = [CHR 0x0A]" "incoming w = []" using 2 by (auto simp: recv_def Let_def YAAMP_SOCKET_BUFSIZE_def min_def)
    then show ?thesis
      using 2 r fill_closed by (subst fill.simps) (simp add: c_text_def YAAMP_SOCKET_BUFSIZE_def)
  qed
  then show ?thesis by (simp add: socket_nextjson_def)
qed

lemma client_loop_session:
  assumes "ready sk ms" and "\<forall>m\<in>set ms. flat m \<and> length m + 1 < YAAMP_SOCKET_BUFSIZE \<and> parse m \<noteq> None"
    and "\<And>m. parse (m @ [CHR 0x0A]) = parse m"
  shows "client_loop cfg escape parse c sk s = session cfg escape c (map (the \<circ> parse) ms) s"
  using assms(1,2)
proof (induction ms arbitrary: sk s)
  case Nil
  then show ?case
    using nextjson_end [of sk parse] by (auto simp: client_loop.simps [of cfg escape parse c sk s] split: prod.split)
next
  case (Cons m ms)
  obtain j where j: "parse m = Some j" using Cons.prems(2) by auto
  obtain sk' where sk': "socket_nextjson parse sk = (Some j, sk')" "ready sk' ms"
    using nextjson_line [OF Cons.prems(1) _ assms(3) j] Cons.prems(2) by auto
  have "client_loop cfg escape parse c sk' t = session cfg escape c (map (the \<circ> parse) ms) t" for t
    using Cons.IH [OF sk'(2)] Cons.prems(2) by (simp add: comp_def)
  then show ?case
    using sk'(1) j by (auto simp: client_loop.simps [of cfg escape parse c sk s] comp_def split: option.split prod.split)
qed


definition ping :: json where
  "ping = J_object [(''method'', J_string ''mining.ping''), (''params'', J_array [])]"

definition example_parse :: "string \<Rightarrow> json option" where
  "example_parse t = (if takeWhile (\<lambda>ch. ch \<noteq> CHR 0x0A) t = ''{ping}'' then Some ping else None)"

definition slow_wire :: wire where
  "slow_wire = \<lparr>incoming = lines_of [''{ping}'', ''{ping}''], cut = (\<lambda>_. 3), recvs = 0\<rparr>"

lemma takeWhile_line: "takeWhile (\<lambda>ch. ch \<noteq> x) (m @ [x]) = takeWhile (\<lambda>ch. ch \<noteq> x) m"
  by (induction m) auto

lemma session_ping:
  "session example_config id 0 [ping, ping] (client_connect 0 ''10.0.0.1'' empty_stratum) =
     Some (send 0 (Result (quoted ''pong'')) (send 0 (Result (quoted ''pong'')) (client_connect 0 ''10.0.0.1'' empty_stratum)))"
proof -
  have "client_turn example_config id 0 (Some [(''method'', J_string ''mining.ping''), (''params'', J_array [])]) s =
      Some (True, send 0 (Result (quoted ''pong'')) s)" if "submit_bad (client_at s 0) = 0" for s
    using that by (simp add: client_turn_def client_method_def json_get_int_def json_get_string_def json_get_array_def json_get_value_def)
  moreover have "submit_bad (client_at (client_connect 0 ''10.0.0.1'' empty_stratum) 0) = 0"
    by (simp add: client_connect_def set_client_def update_client_def zero_client_def)
  ultimately show ?thesis by (simp add: ping_def send_def)
qed


end
