(* ===== verification/Http.thy ===== *)
theory Http
  imports Sockets Ini_Parser
begin

text \<open>
  \<open>rpc.cpp\<close>: a call of a daemon is an HTTP request with a JSON text, and its answer is read from the
  connection. The outer \<open>None\<close> is a write behind a buffer; an answer that cannot be had is an inner
  one. The rest of the development takes the answers as a function of the calls (\<open>rpc\<close> of the configuration); here
  they are read from the bytes that arrive.
\<close>

section \<open>Numbers as text\<close>

definition dec_int :: "int \<Rightarrow> string" where
  "dec_int i = (if i < 0 then CHR ''-'' # dec_string (nat (- i)) else dec_string (nat i))"

text \<open>\<open>atoi\<close>: a \<open>long\<close>, clamped, of which an \<open>int\<close> is taken.\<close>

definition atoi :: "string \<Rightarrow> int" where
  "atoi t =
     (let t = dropWhile isspace t;
          neg = (take 1 t = ''-'');
          d = (if neg \<or> take 1 t = ''+'' then drop 1 t else t);
          v = int (strtol_digits 10 d 0)
      in sint (of_int (if neg then max (- (2 ^ 63)) (- v) else min (2 ^ 63 - 1) v) :: u32))"

section \<open>Connections\<close>

text \<open>
  What the network does: the connection each attempt gives, whether a text that is sent arrives, and the answers that
  come through \<open>libcurl\<close>.
\<close>

record net =
  dial :: "nat \<Rightarrow> wire option"
  reaches :: "string list \<Rightarrow> bool"
  curl_call :: "string \<Rightarrow> string option \<Rightarrow> members option"

record rpc_state =
  rhost :: string
  rport :: int
  credential :: string
  ssl :: bool
  curl :: bool
  rid :: int
  rbuf :: string
  rwire :: "wire option"
  dialled :: nat
  rsent :: "string list"

definition rpc_connected :: "rpc_state \<Rightarrow> bool" where
  "rpc_connected r \<longleftrightarrow> rwire r \<noteq> None"

definition rpc_close :: "rpc_state \<Rightarrow> rpc_state" where
  "rpc_close r = r\<lparr>rwire := None\<rparr>"

definition rpc_connect :: "net \<Rightarrow> rpc_state \<Rightarrow> bool \<times> rpc_state" where
  "rpc_connect net r =
     (let r = (rpc_close r)\<lparr>dialled := dialled r + 1\<rparr>
      in case dial net (dialled r) of
           None \<Rightarrow> (False, r)
         | Some w \<Rightarrow> (True, r\<lparr>rwire := Some w, rid := 0, rbuf := []\<rparr>))"

definition rpc_send_raw :: "net \<Rightarrow> string \<Rightarrow> rpc_state \<Rightarrow> int \<times> rpc_state" where
  "rpc_send_raw net t r =
     (if \<not> rpc_connected r then (-1, r)
      else if reaches net (rsent r @ [t]) then (int (length t), r\<lparr>rsent := rsent r @ [t]\<rparr>) else (-1, r))"

definition rpc_flush :: "net \<Rightarrow> rpc_state \<Rightarrow> int \<times> rpc_state" where
  "rpc_flush net r =
     (if \<not> rpc_connected r then (-1, r)
      else (let (n, r) = rpc_send_raw net (rbuf r) r in (n, r\<lparr>rbuf := []\<rparr>)))"

definition rpc_send :: "string \<Rightarrow> rpc_state \<Rightarrow> (int \<times> rpc_state) option" where
  "rpc_send t r =
     (if \<not> rpc_connected r then Some (-1, r)
      else do {
        t \<leftarrow> strcpy_in YAAMP_SMALLBUFSIZE t;
        if YAAMP_SMALLBUFSIZE < length t + length (rbuf r) then Some (-1, r)
        else Some (int (length t), r\<lparr>rbuf := rbuf r @ t\<rparr>)
      })"

section \<open>A call\<close>

definition crlf :: string where
  "crlf = [CHR 0x0D, CHR 0x0A]"

text \<open>The lines of the request; the line of the host ends without a carriage return.\<close>

definition request_lines :: "rpc_state \<Rightarrow> string \<Rightarrow> string list" where
  "request_lines r body =
     [''POST / HTTP/1.1'' @ crlf, ''Authorization: Basic '' @ credential r @ crlf,
      ''Host: '' @ rhost r @ '':'' @ dec_int (rport r) @ [CHR 0x0A], ''Accept: */*'' @ crlf,
      ''Content-Type: application/json'' @ crlf, ''Content-Length: '' @ dec_string (length body) @ crlf @ crlf]"

definition send_lines :: "string list \<Rightarrow> rpc_state \<Rightarrow> rpc_state option" where
  "send_lines ls r = fold_opt (\<lambda>l r. map_option snd (rpc_send l r)) ls r"

text \<open>The head of the answer: everything that has come when the first empty line is there.\<close>

function read_head :: "string \<Rightarrow> wire \<Rightarrow> (string \<times> wire) option" where
  "read_head buf w =
     (case recv (YAAMP_SMALLBUFSIZE - length buf - 1) w of (got, w') \<Rightarrow>
        if got = [] then None
        else if strstr (c_text (buf @ got)) (crlf @ crlf) \<noteq> None then Some (buf @ got, w')
        else read_head (buf @ got) w')"
  by pat_completeness auto
termination
  by (relation "measure (\<lambda>(buf, w). length (incoming w))") (simp, metis case_prod_conv in_measure recv_shorter)

declare read_head.simps [simp del]

text \<open>The rest of the answer.\<close>

function read_body :: "nat \<Rightarrow> string \<Rightarrow> wire \<Rightarrow> (string \<times> wire) option" where
  "read_body n buf w =
     (if n \<le> length buf then Some (buf, w)
      else (case recv (n - length buf) w of (got, w') \<Rightarrow>
              if got = [] then None else read_body n (buf @ got) w'))"
  by pat_completeness auto
termination
  by (relation "measure (\<lambda>(n, buf, w). length (incoming w))") (simp, metis case_prod_conv in_measure recv_shorter)

declare read_body.simps [simp del]

text \<open>
  The answer behind its head. The buffer has the announced length, and whatever has come with the head is copied
  into it; one with a negative length cannot be had, except for \<open>-1\<close>, whose buffer is empty.
\<close>

definition read_answer :: "net \<Rightarrow> string \<Rightarrow> wire \<Rightarrow> rpc_state \<Rightarrow> (string option \<times> rpc_state) option" where
  "read_answer net buf w r =
     (let buffer = c_text buf; r = r\<lparr>rwire := Some w\<rparr>
      in if CHR '' '' \<notin> set buffer then Some (None, r)
         else if header_value buffer ''Transfer-Encoding:'' = ''chunked'' then Some (None, snd (rpc_connect net (r\<lparr>curl := True\<rparr>)))
         else (let datalen = atoi (header_value buffer ''Content-Length:'');
                   got = (case strstr buffer (crlf @ crlf) of Some (_, p) \<Rightarrow> p | None \<Rightarrow> [])
               in if datalen = 0 then Some (None, r)
                  else if datalen < -1 then Some (None, r)
                  else if datalen < int (length got) then None
                  else (case read_body (nat datalen) got w of
                          None \<Rightarrow> Some (None, snd (rpc_connect net r))
                        | Some (t, w) \<Rightarrow>
                            (let r = r\<lparr>rwire := Some w\<rparr>
                             in Some (Some (c_text t),
                                  if header_value buffer ''Connection:'' = ''close'' then snd (rpc_connect net r) else r)))))"

definition rpc_do_call :: "net \<Rightarrow> string \<Rightarrow> rpc_state \<Rightarrow> (string option \<times> rpc_state) option" where
  "rpc_do_call net body r = do {
     r \<leftarrow> send_lines (request_lines r body) r;
     let (n, r) = rpc_flush net r;
     if n \<le> 0 then Some (None, r)
     else (let (n, r) = rpc_send_raw net body r
           in if n \<le> 0 then Some (None, r)
              else (case rwire r of
                      None \<Rightarrow> Some (None, r)
                    | Some w \<Rightarrow>
                        (case read_head [] w of
                           None \<Rightarrow> Some (None, r)
                         | Some (buf, w) \<Rightarrow> read_answer net buf w r)))
   }"

definition rpc_message :: "string \<Rightarrow> string option \<Rightarrow> int \<Rightarrow> string" where
  "rpc_message method params i =
     ''{'' @ quoted ''method'' @ '':'' @ quoted method @
     (case params of Some p \<Rightarrow> '','' @ quoted ''params'' @ '':'' @ p | None \<Rightarrow> []) @
     '','' @ quoted ''id'' @ '':'' @ quoted (dec_int i) @ ''}''"

definition rpc_call_text ::
    "net \<Rightarrow> (string \<Rightarrow> json option) \<Rightarrow> string \<Rightarrow> string option \<Rightarrow> rpc_state \<Rightarrow> (members option \<times> rpc_state) option" where
  "rpc_call_text net parse method params r =
     (if ssl r \<or> curl r then Some (curl_call net method params, r)
      else if \<not> rpc_connected r then Some (None, r)
      else do {
        let r = r\<lparr>rid := rid r + 1\<rparr>;
        (t, r) \<leftarrow> rpc_do_call net (rpc_message method params (rid r)) r;
        Some (case t of None \<Rightarrow> None
              | Some t \<Rightarrow> (case parse t of Some (J_object ms) \<Rightarrow> Some ms | _ \<Rightarrow> None), r)
      })"

section \<open>Searching and numbers\<close>

lemma strstr_append: "strstr (a @ b) t \<noteq> None" if "strstr a t \<noteq> None"
  using that
proof (induction a t rule: strstr.induct)
  case (1 search)
  then show ?case by (cases b) (auto split: if_splits)
next
  case (2 c s search)
  have "take (length search) (c # s @ b) = search" if "take (length search) (c # s) = search"
  proof -
    have "length search \<le> length (c # s)" using arg_cong [OF that, of length] by simp
    then show ?thesis using that take_append [of "length search" "c # s" b] by simp
  qed
  with 2 show ?case by (auto split: if_splits)
qed

lemma strstr_prefix_None: "strstr (a @ b) t = None \<Longrightarrow> strstr a t = None"
  using strstr_append by blast

lemma strstr_here: "t \<noteq> [] \<Longrightarrow> strstr (t @ b) t = Some ([], b)"
  by (cases t) auto

lemma strstr_first:
  assumes "strstr (butlast (a @ t)) t = None" and "t \<noteq> []"
  shows "strstr (a @ t @ b) t = Some (a, b)"
  using assms(1)
proof (induction a)
  case Nil
  then show ?case by (simp add: strstr_here assms(2))
next
  case (Cons c a)
  have b: "butlast ((c # a) @ t) = c # butlast (a @ t)" using assms(2) by simp
  have "take (length t) (c # a @ t @ b) = take (length t) (c # butlast (a @ t))"
    using assms(2) by (cases t rule: rev_cases) (simp_all add: butlast_append)
  then have "take (length t) (c # a @ t @ b) \<noteq> t" using Cons.prems b by auto
  moreover have "strstr (butlast (a @ t)) t = None" using Cons.prems b by (auto split: if_splits)
  ultimately show ?case using Cons.IH by simp
qed

lemma strstr_skip: "x \<notin> set a \<Longrightarrow> strstr (a @ b) (x # t) = map_option (\<lambda>(u, v). (a @ u, v)) (strstr b (x # t))"
proof (induction a)
  case Nil
  then show ?case by (simp add: option.map_ident case_prod_unfold)
next
  case (Cons c a)
  then show ?case by (auto simp: option.map_comp comp_def case_prod_unfold)
qed

lemma dec_nat_digits: "\<forall>ch\<in>set (dec_string n). digit_val ch < 10"
  using dec_string_digits [of n] by (simp add: list_all_iff)

lemma dec_nat_nonempty: "dec_string n \<noteq> []"
  by (simp add: dec_string_hd)

lemma length_dec_nat: "n < 10 ^ k \<Longrightarrow> 0 < k \<Longrightarrow> length (dec_string n) \<le> k"
proof (induction n arbitrary: k rule: dec_string.induct)
  case (1 n)
  show ?case
  proof (cases "n < 10")
    case True
    then show ?thesis using 1(3) by (simp add: dec_string.simps [of n])
  next
    case False
    then obtain j where "k = Suc j" "0 < j" using 1(2,3) by (cases k; cases "k - 1") auto
    then show ?thesis using 1(1) [OF False, of j] 1(2) False by (simp add: dec_string.simps [of n] less_mult_imp_div_less mult.commute)
  qed
qed

lemma digit_char_neq:
  assumes "ch \<in> set (dec_string n)"
  shows "\<not> isspace ch" "ch \<noteq> CHR ''-''" "ch \<noteq> CHR ''+''" "ch \<noteq> CHR '':''" "ch \<noteq> CHR ''T''" "ch \<noteq> CHR 0x0D" "ch \<noteq> CHR 0x00"
  using bspec [OF dec_nat_digits assms] by (auto simp: isspace_def digit_val_def)

lemma atoi_dec: "n < 2 ^ 31 \<Longrightarrow> atoi (dec_string n) = int n"
proof -
  assume n: "n < 2 ^ 31"
  obtain ch t where d: "dec_string n = ch # t" using dec_nat_nonempty by (cases "dec_string n") auto
  have "dropWhile isspace (dec_string n) = dec_string n" "ch \<noteq> CHR ''-''" "ch \<noteq> CHR ''+''"
    using digit_char_neq [of ch n] d by auto
  moreover have "sint (of_int (int n) :: u32) = int n"
    using n by (simp add: sint_uint uint_nat unat_of_nat signed_take_bit_int_eq_self_iff take_bit_nat_eq_self
        flip: of_nat_take_bit)
  ultimately show ?thesis using strtol_digits_dec [of n] n d by (simp add: atoi_def Let_def)
qed

section \<open>An answer in pieces\<close>

text \<open>What a daemon answers, with the length of its body announced.\<close>

definition answer_head :: "string \<Rightarrow> string" where
  "answer_head body = ''HTTP/1.1 200 OK'' @ crlf @ ''Content-Type: application/json'' @ crlf @
     ''Content-Length: '' @ dec_string (length body)"

definition http_answer :: "string \<Rightarrow> string" where
  "http_answer body = answer_head body @ (crlf @ crlf) @ body"

lemma prefix_split:
  assumes "u @ v = a @ b"
  shows "if length a \<le> length u then \<exists>t. u = a @ t \<and> t @ v = b else \<exists>t. t \<noteq> [] \<and> a = u @ t"
proof (cases "length a \<le> length u")
  case True
  have "take (length a) (u @ v) = a" "drop (length a) (u @ v) = b" by (simp_all add: assms)
  then have "u = a @ drop (length a) u" "drop (length a) u @ v = b" using True by (metis append_take_drop_id take_append
      diff_is_0_eq take_0 append_Nil2) (use True \<open>drop (length a) (u @ v) = b\<close> in simp)
  then show ?thesis using True by auto
next
  case False
  then have "take (length u) (u @ v) = take (length u) a" by (simp add: assms)
  then have "a = u @ drop (length u) a" by (metis append_eq_conv_conj append_take_drop_id)
  then show ?thesis using False by (metis append_Nil2 order_refl)
qed

lemma read_head_answer:
  assumes "buf @ incoming w = a @ e @ body" and "strstr (butlast (a @ e)) e = None" and "e = crlf @ crlf"
    and "CHR 0x00 \<notin> set (a @ e @ body)" and "length (a @ e) < YAAMP_SMALLBUFSIZE" and "length buf < length (a @ e)"
  shows "\<exists>t w'. read_head buf w = Some (a @ e @ t, w') \<and> t @ incoming w' = body"
  using assms(1,6)
proof (induction buf w rule: read_head.induct)
  case (1 buf w)
  obtain got w' where r: "recv (YAAMP_SMALLBUFSIZE - length buf - 1) w = (got, w')" by fastforce
  have ne: "got \<noteq> []"
    using recv_some [of "YAAMP_SMALLBUFSIZE - length buf - 1" w w'] r 1(2,3) assms(5) by auto
  have all: "(buf @ got) @ incoming w' = (a @ e) @ body" using recv_bytes [OF r] 1(2) by simp
  have "CHR 0x00 \<notin> set (buf @ got)"
    using assms(4) arg_cong [OF all, of set] by auto
  then have c: "c_text (buf @ got) = buf @ got" unfolding c_text_def takeWhile_eq_all_conv by auto
  show ?case
  proof (cases "length (a @ e) \<le> length (buf @ got)")
    case True
    then obtain t where t: "buf @ got = (a @ e) @ t" "t @ incoming w' = body" using prefix_split [OF all] by auto
    have "strstr (a @ e @ t) e = Some (a, t)" by (rule strstr_first [OF assms(2)]) (simp add: assms(3) crlf_def)
    then have "strstr (c_text (buf @ got)) (crlf @ crlf) \<noteq> None" using t(1) c assms(3) by simp
    then show ?thesis using r ne t by (subst read_head.simps) simp
  next
    case False
    then obtain t where t: "t \<noteq> []" "a @ e = (buf @ got) @ t" using prefix_split [OF all] by auto
    then have "butlast (a @ e) = (buf @ got) @ butlast t" by (simp add: butlast_append)
    then have "strstr (buf @ got) e = None" using assms(2) strstr_prefix_None by metis
    then have n: "\<not> strstr (c_text (buf @ got)) (crlf @ crlf) \<noteq> None" using c assms(3) by simp
    have "\<exists>t w''. read_head (buf @ got) w' = Some (a @ e @ t, w'') \<and> t @ incoming w'' = body"
      using 1(1) [OF r [symmetric] ne n] all False by simp
    then show ?thesis using r ne n by (subst read_head.simps) simp
  qed
qed

lemma read_body_answer:
  "buf @ incoming w = body \<Longrightarrow> n = length body \<Longrightarrow> \<exists>w'. read_body n buf w = Some (body, w')"
proof (induction n buf w rule: read_body.induct)
  case (1 n buf w)
  show ?case
  proof (cases "n \<le> length buf")
    case True
    then show ?thesis using 1(2,3) by (subst read_body.simps) auto
  next
    case False
    obtain got w' where r: "recv (n - length buf) w = (got, w')" by fastforce
    have ne: "got \<noteq> []" using recv_some [of "n - length buf" w w'] r False 1(2,3) by auto
    have "(buf @ got) @ incoming w' = body" using recv_bytes [OF r] 1(2) by simp
    from 1(1) [OF False r [symmetric] ne this 1(3)] show ?thesis
      using False r ne by (subst read_body.simps) simp
  qed
qed

lemma no_cr: "CHR 0x0D \<notin> set (dec_string n)"
  using digit_char_neq(6) by blast

lemma no_empty_line: "strstr (butlast (answer_head body @ crlf @ crlf)) (crlf @ crlf) = None"
proof -
  have "butlast (answer_head body @ crlf @ crlf) = ''HTTP/1.1 200 OK'' @ crlf @ ''Content-Type: application/json'' @ crlf @
     ''Content-Length: '' @ dec_string (length body) @ [CHR 0x0D, CHR 0x0A, CHR 0x0D]"
    by (simp add: answer_head_def crlf_def butlast_append)
  moreover have "strstr (dec_string (length body) @ [CHR 0x0D, CHR 0x0A, CHR 0x0D]) (crlf @ crlf) = None"
    using strstr_skip [OF no_cr] by (simp add: crlf_def)
  ultimately show ?thesis by (simp add: crlf_def)
qed

lemma not_chunked:
  assumes "strstr body ''Transfer-Encoding:'' = None" and "t @ u = body"
  shows "header_value (answer_head body @ (crlf @ crlf) @ t) ''Transfer-Encoding:'' = []"
proof -
  have "strstr t ''Transfer-Encoding:'' = None" using assms strstr_prefix_None by metis
  moreover have "CHR ''T'' \<notin> set (dec_string (length body))" using digit_char_neq(5) by blast
  ultimately have "strstr (dec_string (length body) @ crlf @ crlf @ t) ''Transfer-Encoding:'' = None"
    by (simp add: strstr_skip crlf_def)
  then show ?thesis by (simp add: header_value_def answer_head_def crlf_def)
qed

lemma announced_length:
  assumes "length body < 2 ^ 31"
  shows "header_value (answer_head body @ (crlf @ crlf) @ t) ''Content-Length:'' = dec_string (length body)"
proof -
  let ?d = "dec_string (length body)"
  have "length ?d \<le> 10" using assms by (intro length_dec_nat) simp_all
  then have "take 1023 ?d = ?d" by simp
  moreover have "strstr (?d @ crlf @ crlf @ t) crlf = Some (?d, crlf @ t)"
    using strstr_skip [OF no_cr] by (simp add: crlf_def)
  moreover have "dropWhile (\<lambda>c. c = CHR '' '' \<or> c = CHR '':'') (?d @ crlf @ crlf @ t) = ?d @ crlf @ crlf @ t"
  proof -
    obtain ch u where d: "?d = ch # u" using dec_nat_nonempty by (cases ?d) auto
    then have "ch \<in> set ?d" by simp
    then have "\<not> isspace ch" "ch \<noteq> CHR '':''" by (rule digit_char_neq)+
    then show ?thesis by (simp add: d isspace_def)
  qed
  ultimately show ?thesis by (simp add: header_value_def answer_head_def crlf_def)
qed

lemma read_answer_body:
  assumes "t @ incoming w = body" and "body \<noteq> []" and "CHR 0x00 \<notin> set body" and "length body < 2 ^ 31"
    and "strstr body ''Transfer-Encoding:'' = None"
  shows "\<exists>r'. read_answer net (answer_head body @ (crlf @ crlf) @ t) w r = Some (Some body, r')"
proof -
  let ?b = "answer_head body @ (crlf @ crlf) @ t"
  have "CHR 0x00 \<notin> set (dec_string (length body))" using digit_char_neq(7) by blast
  then have "CHR 0x00 \<notin> set ?b" using assms(1,3) by (auto simp: answer_head_def crlf_def)
  then have c: "c_text ?b = ?b" unfolding c_text_def takeWhile_eq_all_conv by auto
  have blank: "CHR '' '' \<in> set ?b" by (simp add: answer_head_def)
  have split: "strstr ?b (crlf @ crlf) = Some (answer_head body, t)"
    by (rule strstr_first [OF no_empty_line]) (simp add: crlf_def)
  obtain w' where w': "read_body (length body) t w = Some (body, w')" using read_body_answer [OF assms(1) refl] by blast
  have "c_text body = body" using assms(3) unfolding c_text_def takeWhile_eq_all_conv by auto
  moreover have "length t \<le> length body" using assms(1) by auto
  ultimately show ?thesis
    unfolding read_answer_def c Let_def not_chunked [OF assms(5,1)] announced_length [OF assms(4)] atoi_dec [OF assms(4)] split
    using blank assms(2) w' by simp
qed

lemma rpc_send_fits:
  "rpc_connected r \<Longrightarrow> length t + length (rbuf r) < YAAMP_SMALLBUFSIZE \<Longrightarrow>
   rpc_send t r = Some (int (length t), r\<lparr>rbuf := rbuf r @ t\<rparr>)"
  by (simp add: rpc_send_def strcpy_in_def)

lemma send_lines_fit:
  assumes "rpc_connected r" and "length (concat ls) + length (rbuf r) < YAAMP_SMALLBUFSIZE"
  shows "send_lines ls r = Some (r\<lparr>rbuf := rbuf r @ concat ls\<rparr>)"
  using assms
proof (induction ls arbitrary: r)
  case (Cons l ls)
  then show ?case using rpc_send_fits [of r l] by (simp add: send_lines_def rpc_connected_def)
qed (simp add: send_lines_def)

lemma request_fits:
  assumes "length (credential r) < 1024" and "length (rhost r) < 1024" and "0 \<le> rport r" and "rport r < 65536"
    and "length body < 2 ^ 31"
  shows "length (concat (request_lines r body)) < YAAMP_SMALLBUFSIZE"
proof -
  have "length (dec_string (length body)) \<le> 10" using assms(5) by (intro length_dec_nat) simp_all
  moreover have "length (dec_int (rport r)) \<le> 5"
    using assms(3,4) length_dec_nat [of "nat (rport r)" 5] by (simp add: dec_int_def nat_less_iff)
  ultimately show ?thesis using assms(1,2) by (simp add: request_lines_def crlf_def YAAMP_SMALLBUFSIZE_def)
qed


text \<open>A body that is longer than announced and comes with the head.\<close>

lemma long_body_overflows:
  assumes "length body < 2 ^ 31" and "body \<noteq> []" and "length body < length t"
    and "CHR 0x00 \<notin> set t" and "header_value (answer_head body @ (crlf @ crlf) @ t) ''Transfer-Encoding:'' \<noteq> ''chunked''"
  shows "read_answer net (answer_head body @ (crlf @ crlf) @ t) w r = None"
proof -
  let ?b = "answer_head body @ (crlf @ crlf) @ t"
  have "CHR 0x00 \<notin> set (dec_string (length body))" using digit_char_neq(7) by blast
  then have "CHR 0x00 \<notin> set ?b" using assms(4) by (auto simp: answer_head_def crlf_def)
  then have c: "c_text ?b = ?b" unfolding c_text_def takeWhile_eq_all_conv by auto
  have split: "strstr ?b (crlf @ crlf) = Some (answer_head body, t)"
    by (rule strstr_first [OF no_empty_line]) (simp add: crlf_def)
  have "CHR '' '' \<in> set ?b" by (simp add: answer_head_def)
  then show ?thesis
    unfolding read_answer_def c Let_def announced_length [OF assms(1)] atoi_dec [OF assms(1)] split
    using assms(2,3,5) by simp
qed

definition daemon_wire :: wire where
  "daemon_wire = \<lparr>incoming = http_answer ''{}'', cut = (\<lambda>n. 7 * n), recvs = 0\<rparr>"

definition daemon_link :: rpc_state where
  "daemon_link = \<lparr>rhost = ''127.0.0.1'', rport = 8232, credential = ''dXNlcjpwYXNz'', ssl = False, curl = False,
     rid = 0, rbuf = [], rwire = Some daemon_wire, dialled = 1, rsent = []\<rparr>"

definition calm_net :: net where
  "calm_net = \<lparr>dial = (\<lambda>_. None), reaches = (\<lambda>_. True), curl_call = (\<lambda>_ _. None)\<rparr>"


end
