(* ===== verification/Coins.thy ===== *)
theory Coins
  imports Clients Startup Http
begin

text \<open>
  The coins of the server: \<open>coind.cpp\<close> (address and start of a coin) and the statements of \<open>db.cpp\<close> that
  concern the whole server. Without a database there is one row of coin data, a constant of the program; it
  is read as a row of the table would be. \<open>None\<close> is a write behind an array, \<open>NULL\<close> used as a text, or
  a JSON value of a wrong type used as a pointer.
\<close>

section \<open>The address of a coin\<close>

text \<open>The call that tells about the wallet: \<open>getaddressinfo\<close> for DGB and for BTC from version 18.1 on.\<close>

definition address_call :: "'s config \<Rightarrow> nat \<Rightarrow> stratum \<Rightarrow> (bool option \<times> stratum) option" where
  "address_call cfg k s =
     (let d = coind_at s k; dgb = (symbol d = ''DGB'' \<or> symbol2 d = ''DGB'')
      in if symbol d = ''BTC''
         then (let (answer, s) = rpc_call cfg k ''getnetworkinfo'' [] s
               in case (case answer of None \<Rightarrow> None | Some a \<Rightarrow> rpc_result a) of
                    None \<Rightarrow> Some (None, s)
                  | Some r \<Rightarrow> do {
                      ms \<leftarrow> u_object r;
                      v \<leftarrow> json_get_int ms ''version'';
                      Some (Some (dgb \<or> 180100 \<le> sint (of_int v :: u32)), s)
                    })
         else Some (Some dgb, s))"

text \<open>The script of the wallet: its decoded address, or else what the daemon reports without the first six and last four characters.\<close>

definition wallet_script :: "members \<Rightarrow> string \<Rightarrow> string option" where
  "wallet_script ms w =
     (let script = snd (base58_decode w)
      in if script \<noteq> [] then Some script
         else do {
           pk \<leftarrow> json_get_string ms ''scriptPubKey'';
           (case pk of
              Some pk \<Rightarrow>
                if 10 < length pk then map_option (take (length pk - 10)) (strcpy_in 1024 (drop 6 pk)) else Some []
            | None \<Rightarrow> Some [])
         })"

definition set_address :: "bool \<Rightarrow> members \<Rightarrow> coind \<Rightarrow> (bool \<times> coind) option" where
  "set_address getaddressinfo ms d = do {
     valid \<leftarrow> (if getaddressinfo then Some True else json_get_bool ms ''isvalid'');
     mine \<leftarrow> json_get_bool ms ''ismine'';
     p \<leftarrow> json_get_string ms ''pubkey'';
     pk \<leftarrow> strcpy_in 1024 (case p of Some t \<Rightarrow> t | None \<Rightarrow> []);
     acc \<leftarrow> json_get_string ms ''account'';
     acc \<leftarrow> (case acc of Some t \<Rightarrow> strcpy_in 256 t | None \<Rightarrow> Some (account d));
     p2sh \<leftarrow> json_get_bool ms ''isscript'';
     script \<leftarrow> wallet_script ms (wallet d);
     Some ((valid \<or> mine) \<and> mine,
           d\<lparr>pubkey := pk, account := acc, p2sh_address := p2sh, script_pubkey := script\<rparr>)
   }"

definition coind_validate_address :: "'s config \<Rightarrow> nat \<Rightarrow> stratum \<Rightarrow> (bool \<times> stratum) option" where
  "coind_validate_address cfg k s =
     (if wallet (coind_at s k) = [] then Some (False, s)
      else do {
        (info, s) \<leftarrow> address_call cfg k s;
        (case info of
           None \<Rightarrow> Some (False, s)
         | Some info \<Rightarrow>
             (let (answer, s) = rpc_call cfg k (if info then ''getaddressinfo'' else ''validateaddress'') [wallet (coind_at s k)] s
              in case (case answer of None \<Rightarrow> None | Some a \<Rightarrow> rpc_result a) of
                   None \<Rightarrow> Some (False, s)
                 | Some r \<Rightarrow> do {
                     ms \<leftarrow> u_object r;
                     (b, d) \<leftarrow> set_address info ms (coind_at s k);
                     Some (b, update_coind k (\<lambda>_. d) s)
                   }))
      })"

text \<open>An answer is always an object; its first member is taken for the address.\<close>

definition first_address :: "members \<Rightarrow> string option" where
  "first_address ms =
     (case ms of [] \<Rightarrow> None | (_, J_string t) # _ \<Rightarrow> strcpy_in 1024 t | _ \<Rightarrow> Some [])"

definition coind_init :: "'s config \<Rightarrow> nat \<Rightarrow> stratum \<Rightarrow> stratum option" where
  "coind_init cfg k s = do {
     let acc = account (coind_at s k);
     let s = (if rpcencoding (coind_at s k) = ''DCR'' then update_coind k (\<lambda>d. d\<lparr>usegetwork := True\<rparr>) s else s);
     (valid, s) \<leftarrow> coind_validate_address cfg k s;
     if valid then Some s
     else (let (answer, s) = rpc_call cfg k ''getaccountaddress'' [acc] s;
               (answer, s) = (if answer = None then rpc_call cfg k ''getaddressesbyaccount'' [acc] s else (answer, s))
           in case answer of
                None \<Rightarrow> Some s
              | Some ms \<Rightarrow> do {
                  w \<leftarrow> first_address ms;
                  (_, s) \<leftarrow> coind_validate_address cfg k (update_coind k (\<lambda>d. d\<lparr>wallet := w\<rparr>) s);
                  Some s
                })
   }"

definition coind_terminate :: "nat \<Rightarrow> stratum \<Rightarrow> stratum" where
  "coind_terminate k s = update_coind k (\<lambda>d. d\<lparr>rpc_up := False, deleted := True\<rparr>) s"

section \<open>A row of coin data\<close>

text \<open>A column that may be \<open>NULL\<close>, copied into an array of \<open>n\<close> characters, or read as a number.\<close>

definition col_text :: "nat \<Rightarrow> (string \<Rightarrow> coind \<Rightarrow> coind) \<Rightarrow> string option \<Rightarrow> coind \<Rightarrow> coind option" where
  "col_text n f v d = (case v of None \<Rightarrow> Some d | Some t \<Rightarrow> map_option (\<lambda>t. f t d) (strcpy_in n t))"

definition col_int :: "(int \<Rightarrow> coind \<Rightarrow> coind) \<Rightarrow> string option \<Rightarrow> coind \<Rightarrow> coind" where
  "col_int f v d = (case v of None \<Rightarrow> d | Some t \<Rightarrow> f (atoi t) d)"

definition col_real :: "'s config \<Rightarrow> (real \<Rightarrow> coind \<Rightarrow> coind) \<Rightarrow> string option \<Rightarrow> coind \<Rightarrow> coind" where
  "col_real cfg f v d = (case v of None \<Rightarrow> d | Some t \<Rightarrow> f (atof cfg t) d)"

text \<open>
  The host, with the old way to ask for SSL in front. The name of the certificate is dropped again: the last
  line empties it.
\<close>

definition set_host :: "string option \<Rightarrow> coind \<Rightarrow> coind option" where
  "set_host v d =
     (let d = d\<lparr>rpc_ssl := False\<rparr>
      in case v of
           None \<Rightarrow> Some d
         | Some t \<Rightarrow> do {
             t \<leftarrow> strcpy_in 1024 t;
             Some (if strstr t ''https://'' \<noteq> None
                   then (let b = drop 8 t
                         in d\<lparr>rpc_ssl := True, rpc_cert := [],
                              rpc_host := (case strstr b ''@'' of Some (u, _) \<Rightarrow> drop (8 + length u + 1) t | None \<Rightarrow> b)\<rparr>)
                   else d\<lparr>rpc_cert := [], rpc_host := t\<rparr>)
           })"

definition set_credential :: "string option \<Rightarrow> string option \<Rightarrow> coind \<Rightarrow> coind option" where
  "set_credential user pass d =
     (case (user, pass) of
        (Some u, Some p) \<Rightarrow> do {
          buffer \<leftarrow> strcpy_in 1024 (u @ '':'' @ p);
          c \<leftarrow> strcpy_in 1024 (base64_encode (map of_char buffer));
          Some (d\<lparr>rpc_credential := c\<rparr>)
        }
      | _ \<Rightarrow> Some d)"

definition clamp_ttf :: "string option \<Rightarrow> string option \<Rightarrow> coind \<Rightarrow> coind" where
  "clamp_ttf a b d =
     (let t = (case (a, b) of
                 (Some a, Some b) \<Rightarrow> min (atoi a) (atoi b) | (Some a, None) \<Rightarrow> atoi a | _ \<Rightarrow> actual_ttf d)
      in d\<lparr>actual_ttf := max 20 (min 120 t)\<rparr>)"

definition old_masternode_coins :: "string list" where
  "old_masternode_coins =
     [''ALQO'', ''BSD'', ''BWK'', ''CHC'', ''CRW'', ''DNR'', ''FLAX'', ''ITZ'', ''J'', ''LAX'', ''MAG'', ''PBS'', ''URALS'', ''VSX'', ''XLR'']"

definition fix_coin :: "coind \<Rightarrow> coind" where
  "fix_coin d =
     (let d = (if symbol d = ''DCR'' then d\<lparr>rpcencoding := ''DCR''\<rparr> else d)
      in if hasmasternodes d \<and> (symbol d \<in> set old_masternode_coins \<or> symbol2 d = ''J'')
         then d\<lparr>oldmasternodes := True\<rparr> else d)"

text \<open>The filters of the configuration file, for a new coin.\<close>

definition ignored :: "options \<Rightarrow> string \<Rightarrow> bool" where
  "ignored opts sy \<longleftrightarrow>
     g_stratum_coin_include opts \<noteq> [] \<and> strstr (g_stratum_coin_include opts) sy = None \<or>
     g_stratum_coin_exclude opts \<noteq> [] \<and> strstr (g_stratum_coin_exclude opts) sy \<noteq> None"

text \<open>
  All columns behind the filters; the three that change global settings are \<open>NULL\<close> in the row of the
  program and are not read here.
\<close>

definition read_row :: "'s config \<Rightarrow> string option list \<Rightarrow> coind \<Rightarrow> coind option" where
  "read_row cfg row d = do {
     d \<leftarrow> col_text 1024 (\<lambda>t d. d\<lparr>wallet := t\<rparr>) (row ! 7) d;
     d \<leftarrow> col_text 32 (\<lambda>t d. d\<lparr>rpcencoding := t, pos := same_nocase t ''POS''\<rparr>) (row ! 6) d;
     let d = col_int (\<lambda>i d. d\<lparr>hassubmitblock := i \<noteq> 0\<rparr>) (row ! 10) d;
     d \<leftarrow> set_host (row ! 2) d;
     let d = col_int (\<lambda>i d. d\<lparr>rpc_port := i\<rparr>) (row ! 3) d;
     d \<leftarrow> set_credential (row ! 4) (row ! 5) d;
     let d = col_real cfg (\<lambda>x d. d\<lparr>reward := x\<rparr>) (row ! 8) d;
     let d = col_real cfg (\<lambda>x d. d\<lparr>cprice := x\<rparr>) (row ! 9) d;
     let d = col_int (\<lambda>i d. d\<lparr>txmessage := i \<noteq> 0\<rparr>) (row ! 11) d;
     let d = col_int (\<lambda>i d. d\<lparr>enable := i \<noteq> 0\<rparr>) (row ! 12) d;
     let d = col_int (\<lambda>i d. d\<lparr>auto_ready := i \<noteq> 0\<rparr>) (row ! 13) d;
     let d = col_int (\<lambda>i d. d\<lparr>pool_ttf := i\<rparr>) (row ! 15) d;
     d \<leftarrow> col_text 1024 (\<lambda>t d. d\<lparr>charity_address := t\<rparr>) (row ! 16) d;
     let d = col_real cfg (\<lambda>x d. d\<lparr>charity_amount := x\<rparr>) (row ! 17) d;
     let d = col_real cfg (\<lambda>x d. d\<lparr>charity_percent := x\<rparr>) (row ! 18) d;
     let d = col_real cfg (\<lambda>x d. d\<lparr>reward_mul := x\<rparr>) (row ! 19) d;
     let d = col_int (\<lambda>i d. d\<lparr>isaux := i \<noteq> 0\<rparr>) (row ! 21) d;
     let d = clamp_ttf (row ! 22) (row ! 23) d;
     let d = col_int (\<lambda>i d. d\<lparr>usememorypool := i \<noteq> 0\<rparr>) (row ! 24) d;
     let d = col_int (\<lambda>i d. d\<lparr>hasmasternodes := i \<noteq> 0\<rparr>) (row ! 25) d;
     d \<leftarrow> col_text 256 (\<lambda>t d. d\<lparr>algo_of := t\<rparr>) (row ! 26) d;
     d \<leftarrow> col_text 256 (\<lambda>t d. d\<lparr>symbol2 := t\<rparr>) (row ! 27) d;
     let d = col_int (\<lambda>i d. d\<lparr>rpc_curl := i \<noteq> 0\<rparr>) (row ! 28) d;
     let d = col_int (\<lambda>i d. d\<lparr>rpc_ssl := i \<noteq> 0\<rparr>) (row ! 29) d;
     d \<leftarrow> col_text 1024 (\<lambda>t d. d\<lparr>rpc_cert := t\<rparr>) (row ! 30) d;
     d \<leftarrow> col_text 256 (\<lambda>t d. d\<lparr>account := t\<rparr>) (row ! 31) d;
     let d = col_int (\<lambda>i d. d\<lparr>multialgos := i \<noteq> 0\<rparr>) (row ! 32) d;
     let d = col_int (\<lambda>i d. d\<lparr>usesegwit := 0 < i\<rparr>) (row ! 35) d;
     Some (fix_coin d)
   }"

text \<open>The row of the program.\<close>

definition coins_data :: "string option list" where
  "coins_data =
     [Some ''1'', Some ''Stratum'', Some ''127.0.0.1'', Some ''12124'', Some ''user976830345'',
      Some ''passa74c7dc75048f21d26bd45bc9e844a94dd5265f31414f6e6a985d8090608078a6f'', Some ''POW'',
      Some ''RDEpzVM4g2ohN2geRyQiVkD5ufqXWEaYN4'', None, None, Some ''1'', None, Some ''1'', Some ''1'', None, None,
      None, None, None, None, Some ''STRATUM'', Some ''0'', None, None, None, Some ''0'', Some ''equihash''] @ replicate 9 None"

section \<open>The statements of the server\<close>

definition db_register_stratum :: "'s config \<Rightarrow> options \<Rightarrow> stratum \<Rightarrow> stratum" where
  "db_register_stratum cfg opts s =
     (let now = Num (time_of s); rest = [Txt (g_stratum_algo cfg), Txt (g_tcp_server opts), Num (g_tcp_port opts)]
      in db_query (''INSERT INTO stratums (pid, time, started, algo, url, port) VALUES (%d,%d,%d,'%s','%s',%d) '' @
             '' ON DUPLICATE KEY UPDATE time=%d, algo='%s', url='%s', port=%d'')
           ([Num (pid_of cfg), now, now] @ rest @ [now] @ rest) s)"

text \<open>The symbol of the only coin, between quotes, in an array of 16 characters.\<close>

definition only_symbol :: "stratum \<Rightarrow> string option" where
  "only_symbol s =
     (case g_list_coind s of
        [k] \<Rightarrow> strcpy_in 16 ([CHR 0x27] @ symbol (coind_at s k) @ [CHR 0x27])
      | _ \<Rightarrow> Some ''NULL'')"

definition db_update_algos :: "'s config \<Rightarrow> int \<Rightarrow> stratum \<Rightarrow> stratum option" where
  "db_update_algos cfg fds s = do {
     let s = (if algo_overflow s
              then db_query (''UPDATE algos SET overflow=true WHERE name='%s'' @ [CHR 0x27]) [Txt (g_stratum_algo cfg)]
                     (s\<lparr>algo_overflow := False\<rparr>)
              else s);
     sy \<leftarrow> only_symbol s;
     let s = db_query ''UPDATE stratums SET workers=%d, fds=%d, symbol=%s WHERE pid=%d''
               [Num (int (length (g_list_client s))), Num fds, Txt sy, Num (pid_of cfg)] s;
     let s = db_query ''select name, profit, rent, factor from algos'' [] s;
     fold_opt (\<lambda>c s. if deleted (client_at s c) then Some s else map_option snd (client_reset_multialgo cfg c False s))
       (g_list_client s) s
   }"

text \<open>
  One row. A new coin is put at the address \<open>k\<close>; \<open>up\<close> says whether its daemon can be reached.
\<close>

definition update_coin ::
    "'s config \<Rightarrow> options \<Rightarrow> nat \<Rightarrow> bool \<Rightarrow> string option list \<Rightarrow> stratum \<Rightarrow> stratum option" where
  "update_coin cfg opts new up row s = do {
     i \<leftarrow> map_option atoi (row ! 0);
     let found = List.find (\<lambda>k. obj_id (coind_at s k) = i) (g_list_coind s);
     let k = (case found of Some k \<Rightarrow> k | None \<Rightarrow> new);
     let d = (case found of Some k \<Rightarrow> (coind_at s k)\<lparr>newcoind := False\<rparr>
                          | None \<Rightarrow> zero_coind\<lparr>newcoind := True, newblock := True, obj_id := i\<rparr>);
     nm \<leftarrow> row ! 1;
     nm \<leftarrow> strcpy_in 1024 nm;
     sy \<leftarrow> row ! 20;
     sy \<leftarrow> strcpy_in 256 sy;
     let d = d\<lparr>coin_name := nm, symbol := sy\<rparr>;
     if newcoind d \<and> ignored opts sy then Some (update_coind k (\<lambda>_. d\<lparr>deleted := True\<rparr>) s)
     else do {
       d \<leftarrow> read_row cfg row d;
       if newcoind d \<and> \<not> up then Some (update_coind k (\<lambda>_. d\<lparr>deleted := True\<rparr>) s)
       else do {
         s \<leftarrow> (if newcoind d
               then map_option (\<lambda>s. s\<lparr>g_list_coind := g_list_coind s @ [k]\<rparr>)
                      (coind_init cfg k (update_coind k (\<lambda>_. d\<lparr>rpc_up := True\<rparr>) s))
               else Some (update_coind k (\<lambda>_. d) s));
         map_option snd (coind_create_job cfg k False (update_coind k (\<lambda>d. d\<lparr>touch := True\<rparr>) s))
       }
     }
   }"

text \<open>Coins that no row has named are given up.\<close>

definition drop_untouched :: "nat \<Rightarrow> stratum \<Rightarrow> stratum" where
  "drop_untouched k s =
     (if deleted (coind_at s k) then s
      else if \<not> touch (coind_at s k) then coind_terminate k s
      else update_coind k (\<lambda>d. d\<lparr>touch := False\<rparr>) s)"

definition report_disabled :: "nat \<Rightarrow> stratum \<Rightarrow> stratum" where
  "report_disabled k s =
     (if deleted (coind_at s k) \<or> auto_ready (coind_at s k) then s
      else db_query ''update coins set auto_ready=%d where id=%d''
             [Num (of_bool (auto_ready (coind_at s k))), Num (obj_id (coind_at s k))] s)"

definition coins_query :: string where
  "coins_query =
     ''SELECT id, name, rpchost, rpcport, rpcuser, rpcpasswd, rpcencoding, master_wallet, reward, price, '' @
     ''hassubmitblock, txmessage, enable, auto_ready, algo, pool_ttf, charity_address, charity_amount, charity_percent, '' @
     ''reward_mul, symbol, auxpow, actual_ttf, network_ttf, usememorypool, hasmasternodes, algo, symbol2, '' @
     ''rpccurl, rpcssl, rpccert, account, multialgos, max_miners, max_shares, usesegwit '' @
     ''FROM coins WHERE enable AND auto_ready AND algo='%s' ORDER BY index_avg''"

definition db_update_coinds :: "'s config \<Rightarrow> options \<Rightarrow> nat \<Rightarrow> bool \<Rightarrow> stratum \<Rightarrow> stratum option" where
  "db_update_coinds cfg opts new up s = do {
     let s = fold report_disabled (g_list_coind s) s;
     let s = db_query coins_query [Txt (g_stratum_algo cfg)] s;
     s \<leftarrow> update_coin cfg opts new up coins_data s;
     coind_sort cfg (fold drop_untouched (g_list_coind s) s)
   }"

text \<open>Without a database no remote and no renter is ever added, so only the statements are left.\<close>

definition db_update_remotes :: "'s config \<Rightarrow> stratum \<Rightarrow> stratum" where
  "db_update_remotes cfg s =
     db_query (''select id, speed/1000000, host, port, username, password, time, price, renterid from jobs '' @
       ''where active and ready and algo='%s' order by time'') [Txt (g_stratum_algo cfg)] s"

definition db_update_renters :: "stratum \<Rightarrow> stratum" where
  "db_update_renters s = db_query ''select id, balance, updated from renters'' [] s"

end
