(* ===== verification/Server.thy ===== *)
theory Server
  imports Coins Protocol
begin

text \<open>
  The main loop of \<open>stratum.cpp\<close>: one round of the statements, the coins, the reports and the pruning of
  all lists; and the test of \<open>monitor_thread\<close>. What the list of coins keeps through a round.
\<close>

section \<open>Pruning\<close>

text \<open>Objects that are part of their list.\<close>

definition prune_values :: "'a yaamp_object_scheme list \<Rightarrow> 'a yaamp_object_scheme list" where
  "prune_values l =
     map (\<lambda>x. if lock_count x \<noteq> 0 \<and> unlock x then x\<lparr>lock_count := lock_count x - 1\<rparr> else x)
       (filter (\<lambda>x. \<not> (deleted x \<and> lock_count x = 0)) l)"

text \<open>Objects at addresses: those that are freed, and the others in the list.\<close>

definition dead :: "'a yaamp_object_scheme \<Rightarrow> bool" where
  "dead x \<longleftrightarrow> deleted x \<and> lock_count x = 0"

definition pruned :: "'a yaamp_object_scheme \<Rightarrow> nat list \<Rightarrow> (nat \<Rightarrow> 'a yaamp_object_scheme) \<Rightarrow> nat \<Rightarrow> 'a yaamp_object_scheme" where
  "pruned zero l h k =
     (let x = h k
      in if k \<notin> set l then x else if dead x then zero
         else if lock_count x \<noteq> 0 \<and> unlock x then x\<lparr>lock_count := lock_count x - 1\<rparr> else x)"

text \<open>\<open>coind_delete\<close> and \<open>remote_delete\<close> end the job of the coin or remote.\<close>

definition coind_prune :: "stratum \<Rightarrow> stratum" where
  "coind_prune s =
     (let l = g_list_coind s
      in s\<lparr>g_list_coind := filter (\<lambda>k. \<not> dead (coind_at s k)) l,
           job_at := (\<lambda>j. if \<exists>k\<in>set l. dead (coind_at s k) \<and> cjob (coind_at s k) = Some j
                          then (job_at s j)\<lparr>deleted := True\<rparr> else job_at s j),
           coind_at := pruned zero_coind l (coind_at s)\<rparr>)"

definition job_prune :: "stratum \<Rightarrow> stratum" where
  "job_prune s = s\<lparr>g_list_job := filter (\<lambda>j. \<not> dead (job_at s j)) (g_list_job s),
     job_at := pruned zero_job (g_list_job s) (job_at s)\<rparr>"

definition remote_prune :: "stratum \<Rightarrow> stratum" where
  "remote_prune s =
     (let l = g_list_remote s
      in s\<lparr>g_list_remote := filter (\<lambda>r. \<not> dead (remote_at s r)) l,
           job_at := (\<lambda>j. if \<exists>r\<in>set l. dead (remote_at s r) \<and> rjob (remote_at s r) = Some j
                          then (job_at s j)\<lparr>deleted := True\<rparr> else job_at s j),
           remote_at := pruned zero_remote l (remote_at s)\<rparr>)"

definition prune_all :: "stratum \<Rightarrow> stratum" where
  "prune_all s =
     (let s = client_prune (job_prune (remote_prune (coind_prune s)))
      in s\<lparr>g_list_block := prune_values (g_list_block s), g_list_worker := prune_values (g_list_worker s),
           g_list_share := prune_values (g_list_share s), g_list_submit := prune_values (g_list_submit s)\<rparr>)"

section \<open>The loops\<close>

text \<open>
  A round: what it writes of shares, blocks and submissions, and the state after it. \<open>new\<close> is the
  address a new coin would get, \<open>up\<close> whether its daemon can be reached, \<open>fds\<close> the number of open files.
\<close>

definition main_round ::
    "'s config \<Rightarrow> options \<Rightarrow> nat \<Rightarrow> bool \<Rightarrow> int \<Rightarrow> stratum \<Rightarrow>
     ((share_row list list \<times> block list \<times> submit list list) \<times> stratum) option" where
  "main_round cfg opts new up fds s = do {
     let s = db_update_workers cfg (db_register_stratum cfg opts s);
     s \<leftarrow> db_update_algos cfg fds s;
     s \<leftarrow> db_update_coinds cfg opts new up s;
     let s = (if g_stratum_renting opts then db_update_remotes cfg (db_update_renters s) else s);
     let (rows, s) = share_write s;
     let (blocks, s) = block_prune cfg (share_prune s);
     let (submits, s) = submit_prune s;
     Some ((rows, blocks, submits), prune_all s)
   }"

definition YAAMP_MAXJOBDELAY :: int where
  "YAAMP_MAXJOBDELAY = 2 * 60"

text \<open>Whether the monitor ends the server, and the number of shares it has logged.\<close>

definition monitor_step :: "options \<Rightarrow> u64 \<Rightarrow> stratum \<Rightarrow> bool \<times> u64" where
  "monitor_step opts shares_log s =
     (if g_last_broadcasted s + YAAMP_MAXJOBDELAY < time_of s then (True, shares_log)
      else if g_max_shares opts \<noteq> 0 \<and> g_shares_counter s \<noteq> 0
      then (g_max_shares opts < g_shares_counter s,
            if 10000 < g_shares_counter s - shares_log then g_shares_counter s else shares_log)
      else (False, shares_log))"

section \<open>Coins keep their ids\<close>

definition coin_ids :: "stratum \<Rightarrow> nat \<Rightarrow> int" where
  "coin_ids s k = obj_id (coind_at s k)"

definition steady :: "stratum \<Rightarrow> stratum \<Rightarrow> bool" where
  "steady s s' \<longleftrightarrow> g_list_coind s' = g_list_coind s \<and> coin_ids s' = coin_ids s"

lemma coins_updates [simp]:
  "g_list_coind (update_coind k f s) = g_list_coind s"
  "obj_id (f (coind_at s k)) = obj_id (coind_at s k) \<Longrightarrow> coin_ids (update_coind k f s) = coin_ids s"
  "g_list_coind (update_client c g s) = g_list_coind s" "coin_ids (update_client c g s) = coin_ids s"
  "g_list_coind (update_job j h s) = g_list_coind s" "coin_ids (update_job j h s) = coin_ids s"
  "g_list_coind (db_query fmt args s) = g_list_coind s" "coin_ids (db_query fmt args s) = coin_ids s"
  by (auto simp: coin_ids_def update_coind_def state_simps db_query_def fun_eq_iff)

lemma coins_fields [simp]:
  "coin_ids (s\<lparr>calls := v1\<rparr>) = coin_ids s" "coin_ids (s\<lparr>g_list_job := v2\<rparr>) = coin_ids s"
  "coin_ids (s\<lparr>g_job_next_id := v3\<rparr>) = coin_ids s" "coin_ids (s\<lparr>g_list_coind := v4\<rparr>) = coin_ids s"
  "coin_ids (s\<lparr>algo_overflow := v5\<rparr>) = coin_ids s" "coin_ids (s\<lparr>queries := v6\<rparr>) = coin_ids s"
  "coin_ids (s\<lparr>g_list_share := v7\<rparr>) = coin_ids s" "coin_ids (s\<lparr>g_list_worker := v8\<rparr>) = coin_ids s"
  "coin_ids (s\<lparr>job_at := v11\<rparr>) = coin_ids s" "coin_ids (s\<lparr>client_at := v12\<rparr>) = coin_ids s"
  "coin_ids (s\<lparr>remote_at := v13\<rparr>) = coin_ids s" "coin_ids (s\<lparr>g_list_remote := v14\<rparr>) = coin_ids s"
  "coin_ids (s\<lparr>g_list_client := v15\<rparr>) = coin_ids s"
  "coin_ids (s\<lparr>g_list_block := v9\<rparr>) = coin_ids s" "coin_ids (s\<lparr>g_list_submit := v10\<rparr>) = coin_ids s"
  by (simp_all add: coin_ids_def fun_eq_iff)

declare steady_def [simp]

lemma rpc_call_steady: "rpc_call cfg k m p s = (a, s') \<Longrightarrow> steady s s'"
  by (auto simp: rpc_call_def Let_def)

text \<open>The coinbase changes other fields of its coin.\<close>

definition keeps :: "int \<Rightarrow> (coind \<times> 'a) option \<Rightarrow> bool" where
  "keeps i r \<longleftrightarrow> (\<forall>d out. r = Some (d, out) \<longrightarrow> obj_id d = i)"

lemma keeps_intros:
  "(\<And>x. keeps i (f x)) \<Longrightarrow> keeps i (m \<bind> f)"
  "keeps i a \<Longrightarrow> keeps i b \<Longrightarrow> keeps i (if c then a else b)"
  "(\<And>u v. keeps i (g u v)) \<Longrightarrow> keeps i (case p of (u, v) \<Rightarrow> g u v)"
  "keeps i a \<Longrightarrow> (\<And>x. keeps i (h x)) \<Longrightarrow> keeps i (case z of None \<Rightarrow> a | Some x \<Rightarrow> h x)"
  "obj_id d = i \<Longrightarrow> keeps i (Some (d, out))" "keeps i None"
  by (auto simp: keeps_def split: bind_splits prod.splits option.splits)

definition keeps_opt :: "int \<Rightarrow> (coind \<times> 'a) option option \<Rightarrow> bool" where
  "keeps_opt i r \<longleftrightarrow> (\<forall>d out. r = Some (Some (d, out)) \<longrightarrow> obj_id d = i)"

lemma keeps_opt_intros:
  "(\<And>x. keeps_opt i (f x)) \<Longrightarrow> keeps_opt i (m \<bind> f)"
  "keeps_opt i a \<Longrightarrow> keeps_opt i b \<Longrightarrow> keeps_opt i (if c then a else b)"
  "keeps_opt i a \<Longrightarrow> (\<And>x. keeps_opt i (h x)) \<Longrightarrow> keeps_opt i (case z of None \<Rightarrow> a | Some x \<Rightarrow> h x)"
  "obj_id d = i \<Longrightarrow> keeps_opt i (Some (Some (d, out)))" "keeps_opt i None" "keeps_opt i (Some None)"
  "keeps i r \<Longrightarrow> keeps_opt i (map_option Some r)"
  by (auto simp: keeps_opt_def keeps_def split: bind_splits prod.splits option.splits)

lemma keeps_opt_bind:
  "keeps_opt i m \<Longrightarrow> keeps i b \<Longrightarrow> keeps i (m \<bind> (\<lambda>x. case x of None \<Rightarrow> b | Some r \<Rightarrow> Some r))"
  by (cases m) (auto simp: keeps_opt_def keeps_def split: option.splits)

lemma keeps_pair: "keeps i m \<Longrightarrow> (\<And>d x. obj_id d = i \<Longrightarrow> keeps i (f d x)) \<Longrightarrow> keeps i (m \<bind> case_prod f)"
proof (cases m)
  case (Some p)
  obtain d x where "p = (d, x)" by (cases p)
  then show "keeps i m \<Longrightarrow> (\<And>d x. obj_id d = i \<Longrightarrow> keeps i (f d x)) \<Longrightarrow> keeps i (m \<bind> case_prod f)"
    using Some unfolding keeps_def by simp
qed (simp add: keeps_def)

lemma set_reward_id [simp]: "obj_id (set_reward cfg available k) = obj_id k"
  by (simp add: set_reward_def Let_def)

lemma write_dests_keeps: "obj_id k = i \<Longrightarrow> keeps i (write_dests cfg width head k out st)"
  unfolding write_dests_def Let_def by (cases st) (simp, intro keeps_intros, simp)

lemma coinbase_last_keeps: "obj_id k = i \<Longrightarrow> keeps i (coinbase_last cfg k out v)"
  unfolding coinbase_last_def by (intro keeps_intros ) simp_all

lemma coinbase_named_keeps: "obj_id k = i \<Longrightarrow> keeps i (coinbase_named cfg a b json k out v)"
  unfolding coinbase_named_def by (intro keeps_intros write_dests_keeps) simp_all

lemma coinbase_crw_keeps: "obj_id k = i \<Longrightarrow> keeps i (coinbase_crw cfg json k out v)"
  unfolding coinbase_crw_def by (intro keeps_intros write_dests_keeps) simp_all

lemma coinbase_old_keeps: "obj_id k = i \<Longrightarrow> keeps i (coinbase_old cfg t commit json k out v)"
  unfolding coinbase_old_def Let_def by (intro keeps_intros coinbase_crw_keeps coinbase_last_keeps) simp_all

lemma coinbase_masternodes_keeps: "obj_id k = i \<Longrightarrow> keeps i (coinbase_masternodes cfg t commit json k out v)"
  unfolding coinbase_masternodes_def Let_def by (intro keeps_pair keeps_intros write_dests_keeps) simp_all

lemma coinbase_nodes_keeps: "obj_id k = i \<Longrightarrow> keeps i (coinbase_nodes cfg t commit json k out v)"
  unfolding coinbase_nodes_def by (intro keeps_intros coinbase_masternodes_keeps coinbase_named_keeps coinbase_old_keeps coinbase_last_keeps) simp_all

lemma coinbase_founder_keeps: "obj_id k = i \<Longrightarrow> keeps_opt i (coinbase_founder cfg t commit json k out v)"
  unfolding coinbase_founder_def founder_outputs_def Let_def by (intro keeps_intros keeps_opt_intros) simp_all

lemma coinbase_charity_keeps: "obj_id k = i \<Longrightarrow> keeps i (coinbase_charity cfg t commit json k out v)"
  unfolding coinbase_charity_def Let_def by (intro keeps_intros ) simp_all

lemma coinbase_xvc_keeps: "obj_id k = i \<Longrightarrow> keeps_opt i (coinbase_xvc cfg json k out v)"
  unfolding coinbase_xvc_def by (intro keeps_intros keeps_opt_intros) simp_all

lemma coinbase_rest_keeps: "obj_id k = i \<Longrightarrow> keeps i (coinbase_rest cfg t commit json k out v)"
  unfolding coinbase_rest_def
  by (intro keeps_intros keeps_opt_bind [OF coinbase_founder_keeps] keeps_opt_bind keeps_opt_intros coinbase_charity_keeps coinbase_xvc_keeps coinbase_nodes_keeps) simp_all

lemma coinbase_stak_keeps: "obj_id k = i \<Longrightarrow> keeps i (coinbase_stak cfg t commit json k out v)"
  unfolding coinbase_stak_def stak_outputs_def Let_def by (intro keeps_intros ) simp_all

lemma coinbase_tux_id:
  "coinbase_tux cfg t commit json k out v = Some r \<Longrightarrow>
   case r of Inl (d, o') \<Rightarrow> obj_id d = obj_id k | Inr d \<Rightarrow> obj_id d = obj_id k"
  unfolding coinbase_tux_def Let_def by (auto split: bind_splits if_splits)

lemma coinbase_tux_keeps:
  "obj_id k = i \<Longrightarrow> keeps i (coinbase_tux cfg t commit json k out v \<bind>
     (\<lambda>r. case r of Inl r \<Rightarrow> Some r | Inr k \<Rightarrow> coinbase_rest cfg t commit json k out v))"
proof (cases "coinbase_tux cfg t commit json k out v")
  case (Some r)
  assume "obj_id k = i"
  with Some coinbase_tux_id [OF Some] show ?thesis
    by (cases r) (simp add: keeps_def split: prod.splits, simp add: coinbase_rest_keeps)
qed (simp add: keeps_def)

lemma coinbase_outputs_keeps: "obj_id k = i \<Longrightarrow> keeps i (coinbase_outputs cfg t commit json k out v)"
  unfolding coinbase_outputs_def coinbase_dyn_def coinbase_xzc_def default_charity_def Let_def
  by (intro keeps_intros coinbase_tux_keeps coinbase_rest_keeps write_dests_keeps coinbase_stak_keeps) auto

lemma coinbase_create_keeps: "keeps (obj_id (coind_at s k)) (coinbase_create cfg s k t json)"
  unfolding coinbase_create_def Let_def by (intro keeps_pair keeps_intros coinbase_outputs_keeps) simp_all

section \<open>New jobs and addresses are steady\<close>

lemma rpc_call_steady_snd [unfolded steady_def, simp]: "steady s (snd (rpc_call cfg k m p s))"
  by (metis prod.collapse rpc_call_steady)

lemma coind_error_steady [unfolded steady_def, simp]: "steady s (coind_error k s)"
  by (simp add: coind_error_def)

lemma set_coin_steady [simp]:
  "obj_id d = coin_ids s k \<Longrightarrow> coin_ids (update_coind k (\<lambda>_. d) s) = coin_ids s"
  by (simp add: coin_ids_def)

lemma obj_id_coins: "obj_id (coind_at s k) = coin_ids s k"
  by (simp add: coin_ids_def)

lemma coind_getauxblock_steady: "coind_getauxblock cfg k s = Some s' \<Longrightarrow> steady s s'"
  unfolding coind_getauxblock_def Let_def
  by (auto split: if_splits prod.splits option.splits bind_splits dest!: rpc_call_steady simp: steady_def)

lemma memorypool_steady: "coind_create_template_memorypool cfg k s = Some (t, s') \<Longrightarrow> steady s s'"
  unfolding coind_create_template_memorypool_def Let_def
  by (auto split: if_splits prod.splits option.splits bind_splits dest!: rpc_call_steady coind_getauxblock_steady
      simp: steady_def)

lemma getwork_retry_steady: "getwork_retry cfg k n s = Some (r, s') \<Longrightarrow> steady s s'"
  by (induction n arbitrary: s)
     (auto split: if_splits prod.splits option.splits json.splits bind_splits simp: Let_def dest!: rpc_call_steady simp: steady_def)

lemma worktemplate_steady: "decred_create_worktemplate cfg k s = Some (t, s') \<Longrightarrow> steady s s'"
  unfolding decred_create_worktemplate_def
  by (auto split: if_splits prod.splits option.splits bind_splits dest!: getwork_retry_steady)

lemma segwit_rules_steady: "segwit_rules cfg k ms s = Some s' \<Longrightarrow> steady s s'"
  unfolding segwit_rules_def Let_def by (auto split: if_splits option.splits bind_splits)

lemma template_claim_steady: "template_claim cfg k ms t s = Some (t', s') \<Longrightarrow> steady s s'"
  unfolding template_claim_def Let_def
  by (auto split: if_splits prod.splits option.splits json.splits list.splits bind_splits dest!: rpc_call_steady)

lemma template_fields_steady: "template_fields cfg k ms s = Some (t, s') \<Longrightarrow> steady s s'"
  unfolding template_fields_def
  by (auto split: prod.splits option.splits bind_splits dest!: template_claim_steady)

lemma template_commitment_steady: "template_commitment k ms t s = Some (t', s') \<Longrightarrow> steady s s'"
  unfolding template_commitment_def by (auto split: if_splits option.splits bind_splits)

lemma place_auxs_steady: "place_auxs m ks (s, t) = Some (b, s', t') \<Longrightarrow> steady s s'"
  by (induction ks arbitrary: s t)
     (auto split: if_splits option.splits simp: Let_def simp: steady_def)

lemma try_sizes_steady: "try_sizes len sizes (s, t) = Some (s', t') \<Longrightarrow> steady s s'"
  by (induction sizes arbitrary: s t)
     (auto split: if_splits option.splits prod.splits simp: Let_def dest!: place_auxs_steady simp: steady_def)

lemma build_auxs_steady: "coind_aux_build_auxs s t = Some (s', t') \<Longrightarrow> steady s s'"
  by (auto simp: coind_aux_build_auxs_def Let_def split: if_splits dest: try_sizes_steady)

lemma coinbase_create_id: "coinbase_create cfg s k t json = Some (d, t') \<Longrightarrow> obj_id d = coin_ids s k"
  using coinbase_create_keeps [of s k cfg t json] unfolding keeps_def coin_ids_def by blast

lemma template_finish_steady: "template_finish cfg k ms txs t s = Some (t', s') \<Longrightarrow> steady s s'"
  unfolding template_finish_def
  by (auto split: prod.splits option.splits bind_splits if_splits dest!: template_commitment_steady build_auxs_steady
      coinbase_create_id simp: steady_def)

lemma create_template_steady: "coind_create_template cfg k s = Some (t, s') \<Longrightarrow> steady s s'"
  unfolding coind_create_template_def Let_def
  apply (auto split: prod.splits option.splits bind_splits if_splits dest!: memorypool_steady)
  apply (auto dest!: rpc_call_steady segwit_rules_steady template_fields_steady coind_getauxblock_steady template_finish_steady
      simp: steady_def)
  done

lemma new_job_steady [unfolded steady_def, simp]: "steady s (new_job cfg k t s)"
  by (simp add: new_job_def job_get_jobid_def Let_def steady_def coin_ids_def fun_eq_iff state_simps update_coind_def
      split: option.split)

lemma create_job_steady: "coind_create_job cfg k force s = Some (b, s') \<Longrightarrow> steady s s'"
  unfolding coind_create_job_def Let_def
  by (auto split: prod.splits option.splits bind_splits if_splits dest!: worktemplate_steady create_template_steady
      simp: steady_def)

lemma address_call_steady: "address_call cfg k s = Some (b, s') \<Longrightarrow> steady s s'"
  unfolding address_call_def Let_def
  by (auto split: if_splits prod.splits option.splits bind_splits dest!: rpc_call_steady)

lemma set_address_id: "set_address b ms d = Some (v, d') \<Longrightarrow> obj_id d' = obj_id d"
  unfolding set_address_def by (auto split: bind_splits)

lemma validate_steady: "coind_validate_address cfg k s = Some (b, s') \<Longrightarrow> steady s s'"
  unfolding coind_validate_address_def Let_def
  by (auto split: if_splits prod.splits option.splits bind_splits dest!: address_call_steady rpc_call_steady set_address_id
      simp: obj_id_coins)

lemma coind_init_steady: "coind_init cfg k s = Some s' \<Longrightarrow> steady s s'"
  unfolding coind_init_def Let_def
  by (auto split: if_splits prod.splits option.splits bind_splits dest!: validate_steady rpc_call_steady)

section \<open>The list of coins through a round\<close>

definition coin_list_ok :: "stratum \<Rightarrow> bool" where
  "coin_list_ok s \<longleftrightarrow> distinct (map (coin_ids s) (g_list_coind s))"

lemma steady_ok: "steady s s' \<Longrightarrow> coin_list_ok s' \<longleftrightarrow> coin_list_ok s"
  by (simp add: coin_list_ok_def)

lemma coin_list_distinct: "coin_list_ok s \<Longrightarrow> distinct (g_list_coind s)"
  by (simp add: coin_list_ok_def distinct_map)

lemma fold_opt_steady:
  assumes "\<And>x s s'. f x s = Some s' \<Longrightarrow> steady s s'" and "fold_opt f xs s = Some s'"
  shows "steady s s'"
  using assms(2) by (induction xs arbitrary: s) (auto split: option.splits dest!: assms(1))

lemma fold_steady:
  assumes "\<And>x s. steady s (f x s)"
  shows "steady s (fold f xs s)"
  using assms by (induction xs arbitrary: s) simp_all

lemma update_workers_steady [unfolded steady_def, simp]: "steady s (db_update_workers cfg s)"
  unfolding db_update_workers_def by (rule fold_steady) (simp add: db_update_worker_def db_clear_worker_def Let_def)

lemma register_stratum_steady [unfolded steady_def, simp]: "steady s (db_register_stratum cfg opts s)"
  by (simp add: db_register_stratum_def Let_def)

lemma reset_multialgo_steady: "client_reset_multialgo cfg c b s = Some (v, s') \<Longrightarrow> steady s s'"
  by (auto simp: client_reset_multialgo_def Let_def split: if_splits option.splits)

lemma update_algos_steady: "db_update_algos cfg fds s = Some s' \<Longrightarrow> steady s s'"
  unfolding db_update_algos_def Let_def
  by (auto split: bind_splits if_splits dest!: fold_opt_steady [rotated] reset_multialgo_steady)

lemma drop_untouched_steady [unfolded steady_def, simp]: "steady s (drop_untouched k s)"
  by (simp add: drop_untouched_def coind_terminate_def obj_id_coins)

lemma report_disabled_steady [unfolded steady_def, simp]: "steady s (report_disabled k s)"
  by (simp add: report_disabled_def)

text \<open>A coin that is not in the list may change, and a new one may be put behind the others.\<close>

lemma other_ids: "k \<notin> set l \<Longrightarrow> map (coin_ids (update_coind k f s)) l = map (coin_ids s) l"
  by (rule map_cong) (auto simp: coin_ids_def update_coind_def)

lemma coin_ok_other: "k \<notin> set (g_list_coind s) \<Longrightarrow> coin_list_ok (update_coind k f s) \<longleftrightarrow> coin_list_ok s"
  by (simp add: coin_list_ok_def other_ids)

lemma coin_ok_append:
  assumes "steady (update_coind k f s) s'" and "k \<notin> set (g_list_coind s)"
    and "\<forall>c\<in>set (g_list_coind s). coin_ids s c \<noteq> obj_id (f (coind_at s k))"
  shows "coin_list_ok (s'\<lparr>g_list_coind := g_list_coind s' @ [k]\<rparr>) \<longleftrightarrow> coin_list_ok s"
proof -
  have new: "coin_ids s' k = obj_id (f (coind_at s k))"
    using assms(1) by (auto simp: coin_ids_def update_coind_def)
  have ids: "map (coin_ids s') (g_list_coind s') = map (coin_ids s) (g_list_coind s)"
    using assms(1) by (simp add: other_ids assms(2))
  have "distinct (map (coin_ids s') (g_list_coind s') @ [coin_ids s' k]) = distinct (map (coin_ids s) (g_list_coind s))"
    unfolding ids new using assms(3) by auto
  then show ?thesis
    by (simp add: coin_list_ok_def)
qed

text \<open>The columns of a row change neither the id nor that the coin is new.\<close>

definition like :: "coind \<Rightarrow> coind \<Rightarrow> bool" where
  "like d d' \<longleftrightarrow> obj_id d' = obj_id d \<and> newcoind d' = newcoind d"

definition likes :: "coind \<Rightarrow> coind option \<Rightarrow> bool" where
  "likes d r \<longleftrightarrow> (\<forall>d'. r = Some d' \<longrightarrow> like d d')"

lemma likes_bind: "likes d m \<Longrightarrow> (\<And>e. like d e \<Longrightarrow> likes d (f e)) \<Longrightarrow> likes d (m \<bind> f)"
  by (cases m) (simp_all add: likes_def)

lemma likes_text: "like d e \<Longrightarrow> (\<And>t e. like e (g t e)) \<Longrightarrow> likes d (col_text n g v e)"
  by (auto simp: likes_def like_def col_text_def split: option.splits)

lemma likes_host: "like d e \<Longrightarrow> likes d (set_host v e)"
  by (auto simp: likes_def like_def set_host_def Let_def split: option.splits bind_splits)

lemma likes_credential: "like d e \<Longrightarrow> likes d (set_credential u p e)"
  by (auto simp: likes_def like_def set_credential_def split: option.splits bind_splits)

lemma like_columns:
  "like d e \<Longrightarrow> (\<And>i e. like e (g i e)) \<Longrightarrow> like d (col_int g v e)"
  "like d e \<Longrightarrow> (\<And>x e. like e (h x e)) \<Longrightarrow> like d (col_real cfg h v e)"
  "like d e \<Longrightarrow> like d (clamp_ttf a b e)" "like d e \<Longrightarrow> like d (fix_coin e)"
  by (auto simp: like_def col_int_def col_real_def clamp_ttf_def fix_coin_def Let_def split: option.splits)

lemma likes_end: "like d e \<Longrightarrow> likes d (Some (fix_coin e))"
  by (simp add: likes_def like_columns)

lemma read_row_likes: "likes d (read_row cfg row d)"
proof -
  have refl: "like d d" by (simp add: like_def)
  show ?thesis
    unfolding read_row_def Let_def
    by (intro likes_bind likes_text likes_host likes_credential likes_end like_columns refl, assumption?)
       (simp_all add: like_def)
qed

lemma read_row_id: "read_row cfg row d = Some d' \<Longrightarrow> obj_id d' = obj_id d \<and> newcoind d' = newcoind d"
  using read_row_likes [of d cfg row] by (simp add: likes_def like_def)

lemma sorted_coins_ok: "coind_sort cfg s = Some s' \<Longrightarrow> coin_list_ok s' \<longleftrightarrow> coin_list_ok s"
proof -
  assume s': "coind_sort cfg s = Some s'"
  obtain ks where "coind_sort cfg s = Some (s\<lparr>g_list_coind := ks\<rparr>)" and ks: "mset ks = mset (g_list_coind s)"
    using coind_sort_sorts [of cfg s] by blast
  moreover have "mset (map (coin_ids s) ks) = mset (map (coin_ids s) (g_list_coind s))"
    by (simp add: ks)
  ultimately show ?thesis
    using s' mset_eq_imp_distinct_iff by (fastforce simp: coin_list_ok_def)
qed

lemma update_coin_known:
  assumes "update_coin cfg opts new up row s = Some s'" and "map_option atoi (row ! 0) = Some i"
    and "List.find (\<lambda>k. obj_id (coind_at s k) = i) (g_list_coind s) = Some k"
  shows "steady s s'"
proof -
  have "coin_ids s k = i" using assms(3) by (auto simp: find_Some_iff coin_ids_def)
  then show ?thesis
    using assms unfolding update_coin_def Let_def
    by (auto split: bind_splits if_splits dest!: read_row_id create_job_steady simp: obj_id_coins)
qed

lemma update_coin_new:
  assumes "update_coin cfg opts new up row s = Some s'" and "map_option atoi (row ! 0) = Some i"
    and "List.find (\<lambda>k. obj_id (coind_at s k) = i) (g_list_coind s) = None" and "new \<notin> set (g_list_coind s)"
  shows "coin_list_ok s' \<longleftrightarrow> coin_list_ok s"
proof -
  consider d where "s' = update_coind new (\<lambda>_. d) s"
    | d t where "obj_id d = i" "coind_init cfg new (update_coind new (\<lambda>_. d\<lparr>rpc_up := True\<rparr>) s) = Some t"
        "steady (t\<lparr>g_list_coind := g_list_coind t @ [new]\<rparr>) s'"
    using assms(1-3) unfolding update_coin_def Let_def
    by (auto split: bind_splits if_splits dest!: read_row_id create_job_steady)
  then show ?thesis
  proof cases
    case 1
    then show ?thesis using coin_ok_other assms(4) by simp
  next
    case 2
    have "\<forall>c\<in>set (g_list_coind s). coin_ids s c \<noteq> obj_id d"
      using assms(3) 2(1) by (simp add: find_None_iff coin_ids_def)
    then show ?thesis
      using coin_ok_append [of new "\<lambda>_. d\<lparr>rpc_up := True\<rparr>" s t] coind_init_steady [OF 2(2)] steady_ok [OF 2(3)] assms(4) by simp
  qed
qed

lemma update_coin_ok:
  assumes "update_coin cfg opts new up row s = Some s'" and "new \<notin> set (g_list_coind s)"
  shows "coin_list_ok s' \<longleftrightarrow> coin_list_ok s"
proof -
  obtain i where i: "map_option atoi (row ! 0) = Some i"
    using assms(1) by (auto simp: update_coin_def split: bind_splits)
  show ?thesis
  proof (cases "List.find (\<lambda>k. obj_id (coind_at s k) = i) (g_list_coind s)")
    case None
    show ?thesis by (rule update_coin_new [OF assms(1) i None assms(2)])
  next
    case (Some k)
    show ?thesis by (rule steady_ok [OF update_coin_known [OF assms(1) i Some]])
  qed
qed

lemma update_coinds_ok:
  assumes "db_update_coinds cfg opts new up s = Some s'" and "new \<notin> set (g_list_coind s)"
  shows "coin_list_ok s' \<longleftrightarrow> coin_list_ok s"
proof -
  have report: "steady t (fold report_disabled l t)" for l t by (rule fold_steady) simp
  have drop: "steady t (fold drop_untouched l t)" for l t by (rule fold_steady) simp
  have s1: "steady s (db_query coins_query [Txt (g_stratum_algo cfg)] (fold report_disabled (g_list_coind s) s))"
    using report by simp
  then obtain t where t: "update_coin cfg opts new up coins_data
        (db_query coins_query [Txt (g_stratum_algo cfg)] (fold report_disabled (g_list_coind s) s)) = Some t"
      "coind_sort cfg (fold drop_untouched (g_list_coind t) t) = Some s'"
    using assms(1) by (auto simp: db_update_coinds_def Let_def split: bind_splits)
  show ?thesis
    using update_coin_ok [OF t(1)] steady_ok [OF s1] steady_ok [OF drop [of t]] sorted_coins_ok [OF t(2)] s1 assms(2)
    by simp
qed

lemma pruned_ids:
  "k \<in> set l \<Longrightarrow> \<not> dead (h k) \<Longrightarrow> obj_id (pruned zero l h k) = obj_id (h k)"
  by (simp add: pruned_def Let_def)

lemma coind_prune_ok: "coin_list_ok s \<Longrightarrow> coin_list_ok (coind_prune s)"
proof -
  assume ok: "coin_list_ok s"
  have "map (coin_ids (coind_prune s)) (g_list_coind (coind_prune s)) = map (coin_ids s) (filter (\<lambda>k. \<not> dead (coind_at s k)) (g_list_coind s))"
    by (auto simp: coind_prune_def Let_def coin_ids_def pruned_ids)
  then show ?thesis
    using ok by (simp add: coin_list_ok_def distinct_map_filter)
qed

lemma prune_all_ok: "coin_list_ok s \<Longrightarrow> coin_list_ok (prune_all s)"
  using coind_prune_ok [of s]
  by (simp add: prune_all_def Let_def client_prune_def job_prune_def remote_prune_def coin_list_ok_def)


text \<open>
  C40. A round of the main loop keeps one coin for each id: it finds the coin of a row by its id, adds it only
  when there is none, never lists a coin twice, and removes coins only.
\<close>

theorem coins_stay_distinct:
  assumes "coin_list_ok s" and "new \<notin> set (g_list_coind s)"
    and "main_round cfg opts new up fds s = Some (written, s')"
  shows "coin_list_ok s'"
proof -
  let ?s1 = "db_update_workers cfg (db_register_stratum cfg opts s)"
  obtain s2 s3 where s2: "db_update_algos cfg fds ?s1 = Some s2" and s3: "db_update_coinds cfg opts new up s2 = Some s3"
    and s': "s' = prune_all (snd (submit_prune (snd (block_prune cfg (share_prune (snd (share_write
        (if g_stratum_renting opts then db_update_remotes cfg (db_update_renters s3) else s3))))))))"
    using assms(3) by (auto simp: main_round_def Let_def split: bind_splits prod.splits)
  have "steady s s2" using update_algos_steady [OF s2] by simp
  then have "coin_list_ok s3"
    using update_coinds_ok [OF s3] steady_ok [of s s2] assms(1,2) by simp
  then show ?thesis
    unfolding s'
    by (intro prune_all_ok)
       (simp add: coin_list_ok_def share_write_def share_prune_def block_prune_def submit_prune_def
         db_update_remotes_def db_update_renters_def Let_def split: prod.splits)
qed

text \<open>The row of the program can be read; a pool with the coin of that row whose daemon is down.\<close>

lemma coins_data_reads: "\<exists>d'. read_row cfg coins_data d = Some d'"
  by (simp add: read_row_def coins_data_def Let_def col_text_def set_host_def set_credential_def strcpy_in_def)

definition idle_pool :: stratum where
  "idle_pool = empty_stratum\<lparr>g_list_coind := [0],
     coind_at := (\<lambda>_. zero_coind)(0 := zero_coind\<lparr>obj_id := 7, touch := True\<rparr>)\<rparr>"

definition idle_options :: options where
  "idle_options =
     \<lparr>g_tcp_server = ''localhost'', g_tcp_port = 3333, o_tcp_password = [], g_sql_host = [], g_sql_database = [],
      g_sql_username = [], g_sql_password = [], g_sql_port = 3306, g_stratum_coin_include = [],
      g_stratum_coin_exclude = [], o_algo = ''equihash'', o_difficulty = 16, o_min_diff = 2, o_max_diff = 1000,
      o_max_cons = 5000, o_max_ttf = 1000, o_reconnect = True, g_stratum_renting = True, g_handle_haproxy_ips = False,
      g_socket_recv_timeout = 600, g_max_shares = 0, o_limit_txs_per_block = 0, g_debuglog = replicate 6 False\<rparr>"

lemma idle_new_coin:
  assumes "g_list_coind s = [0]" and "coin_ids s 0 = 7"
  shows "\<exists>d. update_coin cfg idle_options 1 False coins_data s = Some (update_coind 1 (\<lambda>_. d) s)"
proof -
  let ?d = "zero_coind\<lparr>newcoind := True, newblock := True, obj_id := 1, coin_name := ''Stratum'', symbol := ''STRATUM''\<rparr>"
  obtain d' where d': "read_row cfg coins_data ?d = Some d'" using coins_data_reads by blast
  have row: "coins_data ! 0 = Some ''1''" "coins_data ! 1 = Some ''Stratum''" "coins_data ! 20 = Some ''STRATUM''"
    by (simp_all add: coins_data_def)
  have one: "atoi ''1'' = 1" by code_simp
  have none: "List.find (\<lambda>k. obj_id (coind_at s k) = 1) (g_list_coind s) = None"
    using assms by (simp add: coin_ids_def)
  have "newcoind d'" using read_row_id [OF d'] by simp
  then show ?thesis
    using none d' unfolding update_coin_def Let_def row option.map Option.bind.simps one
    by (auto simp: strcpy_in_def ignored_def idle_options_def)
qed

lemma idle_algos:
  "\<exists>s2. db_update_algos example_config 10 (db_update_workers example_config
     (db_register_stratum example_config idle_options idle_pool)) = Some s2"
  by (simp add: db_update_algos_def db_update_workers_def db_register_stratum_def Let_def idle_pool_def empty_stratum_def
      db_query_def only_symbol_def strcpy_in_def zero_coind_def)

theorem coins_stay_distinct_witness:
  "\<exists>written s'. main_round example_config idle_options 1 False 10 idle_pool = Some (written, s') \<and> coin_list_ok s'"
proof -
  obtain s2 where s2: "db_update_algos example_config 10 (db_update_workers example_config
     (db_register_stratum example_config idle_options idle_pool)) = Some s2"
    using idle_algos by blast
  have coins: "g_list_coind idle_pool = [0]" "coin_ids idle_pool 0 = 7"
    by (simp_all add: idle_pool_def coin_ids_def)
  have same: "steady idle_pool s2" using update_algos_steady [OF s2] by simp
  have report: "steady t (fold report_disabled l t)" for l t by (rule fold_steady) simp
  have "g_list_coind (db_query coins_query [Txt (g_stratum_algo example_config)] (fold report_disabled (g_list_coind s2) s2)) = [0]"
    "coin_ids (db_query coins_query [Txt (g_stratum_algo example_config)] (fold report_disabled (g_list_coind s2) s2)) 0 = 7"
    using same report [of s2 "g_list_coind s2"] coins by simp_all
  from idle_new_coin [OF this] obtain d where "update_coin example_config idle_options 1 False coins_data (db_query coins_query
      [Txt (g_stratum_algo example_config)] (fold report_disabled (g_list_coind s2) s2)) = Some (update_coind 1 (\<lambda>_. d)
      (db_query coins_query [Txt (g_stratum_algo example_config)] (fold report_disabled (g_list_coind s2) s2)))"
    by blast
  then obtain s3 where s3: "db_update_coinds example_config idle_options 1 False s2 = Some s3"
    using coind_sort_sorts unfolding db_update_coinds_def Let_def by fastforce
  obtain written s' where r: "main_round example_config idle_options 1 False 10 idle_pool = Some (written, s')"
    using s2 s3 unfolding main_round_def Let_def by (simp add: case_prod_beta)
  then show ?thesis
    using coins_stay_distinct [of idle_pool 1 example_config idle_options False 10] coins
    by (cases written) (auto simp: coin_list_ok_def)
qed

end
