(* ===== verification/Spec2Isabelle.thy ===== *)
theory Spec2Isabelle
  imports Equihash Ini_Parser Hash_Orders Targets Merkle Objects Difficulty Jobs Submit_Correct Template_Correct Login_Sql Server
begin

text \<open>
  The stratum server of the yiimp pool with equihash support: miners connect over TCP, receive jobs
  built from the block templates of coin daemons, and send back shares; a share that meets the
  network target is handed to the daemon as a block, and the shares are credited to the miners.

  Reading order, with the files of \<open>src/\<close> each theory translates.

  \<^item> \<open>Stratum_Prelude\<close>: arrays of bytes with reads and writes inside their bounds (\<open>None\<close> is a read
    or write outside), loops with a failing body, numbers as bytes.
  \<^item> \<open>Equihash\<close> (\<open>algos/equi.c\<close>): the verifier of equihash 200,9. BLAKE2b of libsodium is a record of
    functions, the hypothesis \<open>blake2b_fills\<close> says that it returns as many bytes as asked for.
  \<^item> \<open>Ini_Dictionary\<close>, \<open>Ini_Parser\<close> (\<open>iniparser/src\<close>): the configuration reader.
  \<^item> \<open>Hash_Chains\<close>, \<open>Hash_Orders\<close> (\<open>algos/*.c\<close>): the proof-of-work functions that chain the primitives
    of sphlib, in a fixed order or in one taken from the block header. The primitives are parameters.
  \<^item> \<open>Codecs\<close>, \<open>Targets\<close>, \<open>Difficulty\<close> (\<open>util.cpp\<close>, \<open>client_difficulty.cpp\<close>): hexadecimal and base-64
    texts, script numbers, compact targets, difficulties. A \<open>double\<close> is a real number and every
    operation is followed by a rounding function of the record \<open>fpu\<close>; the hypothesis \<open>rounds\<close> bounds
    its relative error, which IEEE arithmetic meets.
  \<^item> \<open>Merkle\<close> (\<open>merkle.cpp\<close>), \<open>Common_List\<close> (\<open>list.cpp\<close>), \<open>Objects\<close> (\<open>object.cpp\<close>): Merkle branches, the
    doubly linked list on an explicit heap, and the lock counts and pruning of shared objects. The
    locale \<open>swap_order\<close> of \<open>Common_List\<close> is the contract of the four sorting routines of the server.
  \<^item> \<open>Stratum_State\<close> (\<open>client.h\<close>, \<open>job.h\<close>, \<open>coind.h\<close>, \<open>remote.h\<close>, \<open>share.h\<close>): the records of the
    server, its global lists as lists of pointers, and the messages it sends. \<open>Common_List\<close>
    justifies the lists, \<open>Objects\<close> the pointers.
  \<^item> \<open>Shares\<close> (\<open>share.cpp\<close>), \<open>Client_Core\<close> (\<open>client_core.cpp\<close>, \<open>client_difficulty.cpp\<close>), \<open>Jobs\<close>
    (\<open>job.cpp\<close>, \<open>job_core.cpp\<close>, parts of \<open>coind.cpp\<close> and \<open>remote.cpp\<close>), \<open>Aux_Chains\<close>
    (\<open>coind_aux.cpp\<close>), \<open>Submit\<close> (\<open>client_submit.cpp\<close>, \<open>coind_submit.cpp\<close>, \<open>remote_submit\<close>): the
    operations on that state; \<open>Submit_Correct\<close> has the properties of a submission.

  Loops of the code that may not end are partial functions into option types (\<open>find_from\<close>,
  \<open>prune_from\<close>, the exchange sort), with lemmas that they return; all others are total. The configuration record
  carries what is outside the program: the hash functions, the answers of the daemons, whether a
  message reaches a socket, and the bytes of uninitialised memory.

  Not modelled: the sockets, threads and mutexes (an operation is one step), the primitives of
  sphlib and the other vendored hash functions (\<open>sha3/\<close>, \<open>SWIFFTX\<close>, \<open>ar2\<close>, \<open>yescrypt\<close>,
  \<open>neoscrypt\<close>, \<open>scrypt\<close> and so on, which are parameters), the JSON parser, the text of SQL
  statements beyond the rows they carry, and log output.
\<close>

end
